theory Spec2Isabelle
  imports Complex_Main
begin

section \<open>Numbers and strings of the source language\<close>

text \<open>
  The source is TypeScript. Its numbers are IEEE doubles; durations are modelled here as
  exact reals, so the theorems below are about the arithmetic the code writes down, not
  about binary rounding. Its strings are sequences of UTF-16 code units; a script is
  modelled as a list of code units (\<open>jsstring\<close>), and the regular expressions of the
  source, which carry no unicode flag, work on code units. Messages that the code builds
  from ASCII literals are plain \<open>string\<close>s.
\<close>

type_synonym jsstring = "nat list"

definition js :: "string \<Rightarrow> jsstring" where
  "js s = map of_char s"

text \<open>\<open>Math.round\<close>: the nearest integer, a tie going up.\<close>

definition Math_round :: "real \<Rightarrow> real" where
  "Math_round x = of_int \<lfloor>x + 1 / 2\<rfloor>"

text \<open>\<open>Math.ceil\<close>.\<close>

definition Math_ceil :: "real \<Rightarrow> real" where
  "Math_ceil x = of_int \<lceil>x\<rceil>"

text \<open>
  \<open>Number.prototype.toFixed(1)\<close>: the decimal digits of the number rounded to one
  place, a tie going away from zero, and a minus sign for every negative number. (Beyond
  \<open>10^21\<close> JavaScript switches to exponent notation; the model keeps printing digits
  there.)
\<close>

fun digits :: "nat \<Rightarrow> string" where
  "digits n = (if n < 10 then [''0123456789'' ! n]
               else digits (n div 10) @ [''0123456789'' ! (n mod 10)])"

declare digits.simps [simp del]

definition toFixed1 :: "real \<Rightarrow> string" where
  "toFixed1 x =
     (let n = nat \<lfloor>\<bar>x\<bar> * 10 + 1 / 2\<rfloor>
      in (if x < 0 then ''-'' else '''')
         @ digits (n div 10) @ ''.'' @ digits (n mod 10))"

section \<open>Duration policy (durationPolicy.ts)\<close>

record DurationDecision =
  targetDuration :: real
  actualDuration :: real
  extensionNeeded :: real
  shouldWarn :: bool
  warningMessage :: "string option"

text \<open>
  \<open>decideSoraDuration\<close>. The product \<open>actualDuration * 10\<close> is taken over the reals.
  The code forms it in binary floating point, where it can be off by a unit in the last
  place, so the code and this definition can part only on a duration within a few
  units in the last place of a tie of the rounding (the double nearest to 4.05 is below
  4.05, yet its floating-point product with 10 is the double 40.5, which rounds to 41).
\<close>

definition decideSoraDuration :: "real \<Rightarrow> DurationDecision" where
  "decideSoraDuration actual =
     (let rounded = Math_round (actual * 10) / 10;
          target = (if rounded \<le> 4 then 4 else if rounded \<le> 8 then 8 else 12);
          extension = max 0 (actual - target);
          warn = (actual > 12);
          message = (if warn
                     then Some (''Script is '' @ toFixed1 actual
                                @ ''s long. Video will be extended with freeze-frame to match.'')
                     else None)
      in \<lparr> targetDuration = target, actualDuration = actual,
           extensionNeeded = extension, shouldWarn = warn, warningMessage = message \<rparr>)"


text \<open>
  The estimator counts the words of the script, \<open>script.trim().split(/\s+/).length\<close>,
  and feeds the count divided by 2.5 words per second to the policy.  The string
  functions it uses are defined in the next section.
\<close>

section \<open>String primitives: white space, trim, split\<close>

text \<open>
  The code units that \<open>\s\<close> matches and that \<open>trim\<close> removes (the two sets coincide):
  tab, line feed, vertical tab, form feed, carriage return, space, no-break space, the
  Unicode space separators, the line and paragraph separators and the byte order mark.
\<close>

definition is_space :: "nat \<Rightarrow> bool" where
  "is_space c \<longleftrightarrow>
     (9 \<le> c \<and> c \<le> 13) \<or> c = 32 \<or> c = 160 \<or> c = 5760
     \<or> (8192 \<le> c \<and> c \<le> 8202)
     \<or> c = 8232 \<or> c = 8233 \<or> c = 8239 \<or> c = 8287 \<or> c = 12288 \<or> c = 65279"

definition trim :: "jsstring \<Rightarrow> jsstring" where
  "trim s = rev (dropWhile is_space (rev (dropWhile is_space s)))"

text \<open>
  \<open>String.prototype.split\<close> with a regular expression walks the string with two
  indices: \<open>p\<close>, the start of the piece being collected, and \<open>q\<close>, the position where a
  match is tried next. A match at \<open>q\<close> that ends at \<open>e \<noteq> p\<close> closes the piece \<open>S[p..q)\<close> and
  sets \<open>p = q = e\<close>; no match, or a match ending at \<open>p\<close>, advances \<open>q\<close> by one. Matches are
  tried at positions below the length only, and the rest \<open>S[p..)\<close> is the last piece. In
  the three functions below the second argument is the piece collected so far, in
  reverse, and the last argument is the string from \<open>q\<close> on.
\<close>

text \<open>\<open>s.split(/\s+/)\<close>: a match at \<open>q\<close> is a maximal run of white space.\<close>

function split_ws_from :: "jsstring \<Rightarrow> jsstring \<Rightarrow> jsstring list" where
  "split_ws_from cur [] = [rev cur]"
| "split_ws_from cur (c # cs) =
     (if is_space c then rev cur # split_ws_from [] (dropWhile is_space cs)
      else split_ws_from (c # cur) cs)"
  by pat_completeness auto
termination
  by (relation "measure (\<lambda>(cur, s). length s)")
     (auto simp: less_Suc_eq_le length_dropWhile_le)

definition split_ws :: "jsstring \<Rightarrow> jsstring list" where
  "split_ws s = split_ws_from [] s"

definition is_sentence_end :: "nat \<Rightarrow> bool" where
  "is_sentence_end c \<longleftrightarrow> c = 46 \<or> c = 33 \<or> c = 63"

definition is_clause_end :: "nat \<Rightarrow> bool" where
  "is_clause_end c \<longleftrightarrow> c = 44 \<or> c = 59 \<or> c = 58"

text \<open>
  \<open>script.split(/(?<=[.!?])\s+/)\<close>: a match at \<open>q\<close> needs a full stop, exclamation
  mark or question mark just before \<open>q\<close> (the flag \<open>lb\<close>) and white space at \<open>q\<close>; it takes
  the whole run, after which the code unit before \<open>q\<close> is white space.
\<close>

function splitSentences :: "bool \<Rightarrow> jsstring \<Rightarrow> jsstring \<Rightarrow> jsstring list" where
  "splitSentences lb cur [] = [rev cur]"
| "splitSentences lb cur (c # cs) =
     (if lb \<and> is_space c then rev cur # splitSentences False [] (dropWhile is_space cs)
      else splitSentences (is_sentence_end c) (c # cur) cs)"
  by pat_completeness auto
termination
  by (relation "measure (\<lambda>(lb, cur, s). length s)")
     (auto simp: less_Suc_eq_le length_dropWhile_le)

text \<open>
  \<open>sentence.split(/(?<=[,;:])\s*/)\<close>: a match at \<open>q\<close> needs a comma, semicolon or colon
  just before \<open>q\<close> and takes the run of white space at \<open>q\<close>, which may be empty. An empty
  match at \<open>q = p\<close> (the collected piece is empty) ends at \<open>p\<close> and is skipped; an empty
  match elsewhere closes the piece and leaves \<open>q\<close> where it is.
\<close>

function splitClauses :: "bool \<Rightarrow> jsstring \<Rightarrow> jsstring \<Rightarrow> jsstring list" where
  "splitClauses lb cur [] = [rev cur]"
| "splitClauses lb cur (c # cs) =
     (if lb \<and> (is_space c \<or> cur \<noteq> [])
      then rev cur # (if is_space c then splitClauses False [] (dropWhile is_space cs)
                      else splitClauses True [] (c # cs))
      else splitClauses (is_clause_end c) (c # cur) cs)"
  by pat_completeness auto
termination
proof (relation "measure (\<lambda>(lb, cur, s). 2 * length s + (if cur = [] then 0 else 1))")
  fix cs :: jsstring
  have "2 * length (dropWhile is_space cs) \<le> 2 * length cs"
    using length_dropWhile_le [of is_space cs] by simp
  then show "\<And>lb cur c. lb \<and> (is_space c \<or> cur \<noteq> []) \<Longrightarrow> is_space c \<Longrightarrow>
      ((False, [], dropWhile is_space cs), lb, cur, c # cs)
      \<in> measure (\<lambda>(lb, cur, s). 2 * length s + (if cur = [] then 0 else 1))"
    by auto
qed auto

text \<open>\<open>parts.join(" ")\<close>.\<close>

fun join_space :: "jsstring list \<Rightarrow> jsstring" where
  "join_space [] = []"
| "join_space [x] = x"
| "join_space (x # y # ys) = x @ [32] @ join_space (y # ys)"

definition estimateSpeechDuration :: "jsstring \<Rightarrow> DurationDecision" where
  "estimateSpeechDuration script =
     (let words = length (split_ws (trim script));
          estimatedSeconds = real words / (5 / 2)
      in decideSoraDuration estimatedSeconds)"

section \<open>Caption segmenter (subtitleUtils.ts)\<close>

record SubtitleSegment =
  text_of :: jsstring
  startTime :: real
  endTime :: real

definition MAX_WORDS_PER_SEGMENT :: nat where
  "MAX_WORDS_PER_SEGMENT = 8"

text \<open>
  One turn of the loop over the clauses of a long sentence. The state is the list of
  segments pushed so far, the clauses of the segment being built and its word count.
\<close>

definition clause_step ::
  "jsstring list \<times> jsstring list \<times> nat \<Rightarrow> jsstring \<Rightarrow> jsstring list \<times> jsstring list \<times> nat" where
  "clause_step st clause =
     (case st of (segments, currentSegment, currentLength) \<Rightarrow>
        let clauseWords = split_ws (trim clause);
            (segments1, currentSegment1, currentLength1) =
              (if currentLength + length clauseWords > MAX_WORDS_PER_SEGMENT
                  \<and> currentSegment \<noteq> []
               then (segments @ [trim (join_space currentSegment)], [], 0)
               else (segments, currentSegment, currentLength))
        in if trim clause \<noteq> []
           then (segments1, currentSegment1 @ [trim clause], currentLength1 + length clauseWords)
           else (segments1, currentSegment1, currentLength1))"

text \<open>One turn of the loop over the sentences: the segments pushed so far, extended.\<close>

definition sentence_step :: "jsstring list \<Rightarrow> jsstring \<Rightarrow> jsstring list" where
  "sentence_step segments sentence =
     (let words = split_ws (trim sentence)
      in if length words \<le> MAX_WORDS_PER_SEGMENT
         then (if trim sentence \<noteq> [] then segments @ [trim sentence] else segments)
         else (let clauses = splitClauses False [] sentence
               in case foldl clause_step (segments, [], 0) clauses of
                    (segments1, currentSegment, currentLength) \<Rightarrow>
                      if currentSegment \<noteq> []
                      then segments1 @ [trim (join_space currentSegment)]
                      else segments1))"

definition splitIntoSegments :: "jsstring \<Rightarrow> jsstring list" where
  "splitIntoSegments script =
     (let sentences = splitSentences False [] script
      in filter (\<lambda>s. length s > 0) (foldl sentence_step [] sentences))"

text \<open>
  The last loop of \<open>calculateTiming\<close>: the segments with their durations, from the
  current time on. All but the last segment end 0.1 s after the next one starts, and no
  segment ends later than the total duration less the end buffer.
\<close>

fun timedSegments :: "real \<Rightarrow> real \<Rightarrow> (jsstring \<times> real) list \<Rightarrow> SubtitleSegment list" where
  "timedSegments totalDuration currentTime [] = []"
| "timedSegments totalDuration currentTime ((s, duration) # rest) =
     (let overlapBuffer = (if rest \<noteq> [] then 1 / 10 else 0);
          endT = min (currentTime + duration + overlapBuffer) (totalDuration - 2 / 10)
      in \<lparr> text_of = s, startTime = currentTime, endTime = endT \<rparr>
         # timedSegments totalDuration (currentTime + duration) rest)"

definition rawDurations :: "jsstring list \<Rightarrow> real \<Rightarrow> real list" where
  "rawDurations segments totalDuration =
     (let wordCounts = map (\<lambda>s. length (split_ws s)) segments;
          totalWords = (if sum_list wordCounts = 0 then 1 else sum_list wordCounts);
          availableDuration = max 1 (totalDuration - 5 / 10 - 2 / 10);
          secondsPerWord = availableDuration / real totalWords;
          raw = map (\<lambda>wordCount. max (12 / 10) (real wordCount * secondsPerWord)) wordCounts;
          totalRawDuration = sum_list raw
      in if totalRawDuration > availableDuration
         then map (\<lambda>d. max (8 / 10) (d * (availableDuration / totalRawDuration))) raw
         else raw)"

definition calculateTiming :: "jsstring list \<Rightarrow> real \<Rightarrow> SubtitleSegment list" where
  "calculateTiming segments totalDuration =
     (if segments = [] \<or> totalDuration \<le> 0 then []
      else timedSegments totalDuration (5 / 10) (zip segments (rawDurations segments totalDuration)))"

section \<open>The orchestrator's data (schema.ts, videoProcessor.ts)\<close>

datatype ProcessingStage =
  analyzing | generating_tts | generating_music | generating_video | composing
  | complete | error

record ProcessingStatus =
  statusProjectId :: jsstring
  stage :: ProcessingStage
  progress :: nat
  currentStep :: string
  errorMessage :: "string option"

record EmotionSettings =
  happy :: real
  sad :: real
  angry :: real
  fearful :: real
  surprised :: real
  calm :: real

datatype VideoType = emotive | informative

text \<open>
  A job. Its \<open>onProgress\<close> callback is not a field here: the calls made to it are
  recorded, in order, in the component \<open>notified\<close> of the world below.
\<close>

record ProcessingJob =
  projectId :: jsstring
  title :: jsstring
  script :: jsstring
  videoType :: VideoType
  emotions :: "EmotionSettings option"

record UploadVideoResult =
  fileId :: jsstring
  webViewLink :: jsstring
  webContentLink :: jsstring

subsection \<open>The ffmpeg command of the compositing step\<close>

text \<open>
  \<open>composeVideo\<close> hands ffmpeg three inputs and two filter strings. The model keeps
  their structure: \<open>[i:a]\<close> and \<open>[i:v]\<close> are the audio and the visual stream of input \<open>i\<close>;
  the audio filter is an \<open>amix\<close> with its inputs, its \<open>duration\<close> option and its weights;
  the video filter works on \<open>[0:v]\<close> and either burns in the subtitle file and the
  title, or draws the title and a static text.
\<close>

datatype stream_ref = AudioOf nat | VideoOf nat

datatype amix_mode = Longest | Shortest | First

record amix =
  amix_inputs :: "stream_ref list"
  amix_duration :: amix_mode
  amix_weights :: "real list"

datatype video_filter =
  TimedSubtitles stream_ref jsstring jsstring
  | StaticText stream_ref jsstring jsstring

record compose_command =
  cmd_inputs :: "jsstring list"
  cmd_audioFilter :: amix
  cmd_videoFilter :: video_filter
  cmd_maps :: "string list"
  cmd_output :: jsstring

text \<open>
  What a file of the working directory holds: an audio track or a video clip of a given
  real duration in seconds, a subtitle file with its timed segments, or a composed asset
  with the length of its picture and of its sound.
\<close>

datatype media =
  Audio real
  | Video real
  | SubtitleFile "SubtitleSegment list"
  | Composed real real

text \<open>The calls the orchestrator makes to its collaborators, as a log.\<close>

datatype call =
  EdgeTTS
  | K2FSA
  | SynthSilence real
  | SynthMusic real
  | SoraGenerate real
  | ExtendVideo jsstring real
  | FfmpegCompose compose_command
  | UploadToDrive jsstring jsstring
  | UpdateProject jsstring "jsstring option"

subsection \<open>The world and the outcomes of the collaborators\<close>

text \<open>
  The state the orchestrator works on: the status store (\<open>storage.processingStatuses\<close>),
  the calls made to the progress callback, the files of the working directory, the
  \<open>activeJobs\<close> map (its keys) and the log of calls. The progress callback runs while
  the orchestrator waits for it, so it can read the status store; \<open>observed\<close> logs, for
  each call of the callback, what the store holds at that moment for the project of
  the status passed.
\<close>

record world =
  statuses :: "jsstring \<rightharpoonup> ProcessingStatus"
  notified :: "ProcessingStatus list"
  observed :: "ProcessingStatus option list"
  files :: "jsstring \<rightharpoonup> media"
  activeJobs :: "jsstring set"
  calls :: "call list"

text \<open>
  What the collaborators answer during one run: a speech provider either throws (\<open>Inl\<close>
  the message) or writes audio of some real duration; the video generator is asked for
  a duration and delivers a clip of some duration or throws; the other steps succeed or
  throw.
\<close>

record outcomes =
  edge_result :: "string + real"
  k2fsa_result :: "string + real"
  silence_error :: "string option"
  ffprobe_error :: "string option"
  music_error :: "string option"
  sora_result :: "real \<Rightarrow> string + real"
  extend_error :: "string option"
  subtitle_write_error :: "string option"
  compose_error :: "string option"
  upload_result :: "string + UploadVideoResult"
  db_error_drive :: "string option"
  db_error_local :: "string option"

subsection \<open>Actions: state and exceptions\<close>

text \<open>
  An \<open>async\<close> function of the source is an action: it takes the world and returns the
  new world with either the value it resolves to (\<open>Inr\<close>) or the message of the error it
  throws (\<open>Inl\<close>). \<open>thenE\<close> is sequencing (\<open>await\<close>), \<open>catchE\<close> is \<open>try/catch\<close>,
  \<open>finallyE\<close> is \<open>try/finally\<close>.
\<close>

type_synonym 'a action = "world \<Rightarrow> (string + 'a) \<times> world"

definition returnE :: "'a \<Rightarrow> 'a action" where
  "returnE x = (\<lambda>w. (Inr x, w))"

definition throwE :: "string \<Rightarrow> 'a action" where
  "throwE e = (\<lambda>w. (Inl e, w))"

definition thenE :: "'a action \<Rightarrow> ('a \<Rightarrow> 'b action) \<Rightarrow> 'b action" where
  "thenE m f = (\<lambda>w. case m w of (Inl e, w') \<Rightarrow> (Inl e, w') | (Inr a, w') \<Rightarrow> f a w')"

definition catchE :: "'a action \<Rightarrow> (string \<Rightarrow> 'a action) \<Rightarrow> 'a action" where
  "catchE m h = (\<lambda>w. case m w of (Inl e, w') \<Rightarrow> h e w' | (Inr a, w') \<Rightarrow> (Inr a, w'))"

definition finallyE :: "'a action \<Rightarrow> (world \<Rightarrow> world) \<Rightarrow> 'a action" where
  "finallyE m fin = (\<lambda>w. case m w of (r, w') \<Rightarrow> (r, fin w'))"

definition logCall :: "call \<Rightarrow> world \<Rightarrow> world" where
  "logCall c w = w\<lparr>calls := calls w @ [c]\<rparr>"

definition writeFile :: "jsstring \<Rightarrow> media \<Rightarrow> world \<Rightarrow> world" where
  "writeFile path m w = w\<lparr>files := (files w)(path \<mapsto> m)\<rparr>"

definition unlink :: "jsstring \<Rightarrow> world \<Rightarrow> world" where
  "unlink path w = w\<lparr>files := (files w)(path := None)\<rparr>"

text \<open>
  \<open>cleanupTempFiles\<close> unlinks each file and swallows every error, so it cannot fail.
\<close>

definition cleanupTempFiles :: "jsstring list \<Rightarrow> world \<Rightarrow> world" where
  "cleanupTempFiles paths w = fold unlink paths w"

text \<open>
  The working directory is \<open>temp_videos\<close> under the process's current directory, which
  the model leaves out; \<open>path.join\<close> puts a slash between directory and file name.
\<close>

definition TEMP_DIR :: jsstring where
  "TEMP_DIR = js ''temp_videos''"

definition temp_path :: "jsstring \<Rightarrow> jsstring" where
  "temp_path name = TEMP_DIR @ js ''/'' @ name"


section \<open>Path and text helpers\<close>

definition is_word_char :: "nat \<Rightarrow> bool" where
  "is_word_char c \<longleftrightarrow>
     (48 \<le> c \<and> c \<le> 57) \<or> (65 \<le> c \<and> c \<le> 90) \<or> (97 \<le> c \<and> c \<le> 122) \<or> c = 95"

text \<open>
  The match of \<open>/(\.\w+)$/\<close>, if there is one: the text before it and the match itself.
  A full stop is not a word character, so the match can only be the last full stop
  followed by the word characters that end the string.
\<close>

definition match_extension :: "jsstring \<Rightarrow> (jsstring \<times> jsstring) option" where
  "match_extension s =
     (let r = rev s; w = takeWhile is_word_char r; rest = dropWhile is_word_char r
      in if w \<noteq> [] \<and> rest \<noteq> [] \<and> hd rest = 46
         then Some (rev (tl rest), 46 # rev w) else None)"

text \<open>\<open>inputPath.replace(/(\.\w+)$/, '_extended$1')\<close>\<close>

definition extended_path :: "jsstring \<Rightarrow> jsstring" where
  "extended_path inputPath =
     (case match_extension inputPath of
        Some (stem, ext) \<Rightarrow> stem @ js ''_extended'' @ ext
      | None \<Rightarrow> inputPath)"

text \<open>\<open>outputPath.replace(/\.\w+$/, ".ass")\<close>\<close>

definition ass_path :: "jsstring \<Rightarrow> jsstring" where
  "ass_path outputPath =
     (case match_extension outputPath of
        Some (stem, ext) \<Rightarrow> stem @ js ''.ass''
      | None \<Rightarrow> outputPath)"

text \<open>
  \<open>escapeText\<close> doubles every backslash and then writes every single quote as
  \<open>'\\\''\<close>; \<open>escapeSubtitlePath\<close> turns backslashes into slashes, puts a backslash
  before every colon and writes every single quote as \<open>'\''\<close>. The replacements never
  produce a character that a later one looks for, so they act character by character.
\<close>

definition escapeText :: "jsstring \<Rightarrow> jsstring" where
  "escapeText t =
     concat (map (\<lambda>c. if c = 92 then [92, 92]
                       else if c = 39 then [39, 92, 92, 92, 39, 39] else [c]) t)"

definition escapeSubtitlePath :: "jsstring \<Rightarrow> jsstring" where
  "escapeSubtitlePath filePath =
     concat (map (\<lambda>c. if c = 92 then [47]
                       else if c = 58 then [92, 58]
                       else if c = 39 then [39, 92, 39, 39] else [c]) filePath)"

text \<open>\<open>title.replace(/[^a-z0-9]/gi, '_')\<close>\<close>

definition sanitize_title :: "jsstring \<Rightarrow> jsstring" where
  "sanitize_title t = map (\<lambda>c. if is_word_char c \<and> c \<noteq> 95 then c else 95) t"

section \<open>Media post-processors (audioUtils.ts, videoUtils.ts)\<close>

text \<open>What \<open>ffprobe\<close> reports as \<open>metadata.format.duration\<close> of a file.\<close>

fun media_duration :: "media \<Rightarrow> real option" where
  "media_duration (Audio d) = Some d"
| "media_duration (Video d) = Some d"
| "media_duration (Composed v a) = Some (max v a)"
| "media_duration (SubtitleFile segs) = None"

text \<open>
  \<open>getAudioDuration\<close>: the probe may fail; a missing or zero duration is an error;
  otherwise the duration is rounded up to the next tenth and a tenth is added. (The
  source tests \<open>!duration\<close>, which also lets through a duration that the probe reports as
  text; an audio file of the model always has a number for its duration.)
\<close>

definition getAudioDuration :: "outcomes \<Rightarrow> jsstring \<Rightarrow> real action" where
  "getAudioDuration out audioPath = (\<lambda>w.
     case ffprobe_error out of
       Some err \<Rightarrow> (Inl err, w)
     | None \<Rightarrow>
        (case files w audioPath of
           None \<Rightarrow> (Inl ''ffprobe: no such file'', w)
         | Some m \<Rightarrow>
            (case media_duration m of
               None \<Rightarrow> (Inl ''Could not determine audio duration'', w)
             | Some duration \<Rightarrow>
                 if duration = 0 then (Inl ''Could not determine audio duration'', w)
                 else (Inr (Math_ceil (duration * 10) / 10 + 1 / 10), w))))"

text \<open>
  \<open>extendVideoToAudioLength\<close>: a clip that is long enough is returned as it is.
  Otherwise the filter graph takes the last 0.1 s of the clip, holds its last frame for
  the missing time and appends the result to the clip, under a new name.
\<close>

definition extendVideoToAudioLength :: "outcomes \<Rightarrow> jsstring \<Rightarrow> real \<Rightarrow> jsstring action" where
  "extendVideoToAudioLength out inputPath target = (\<lambda>w0.
     let w = logCall (ExtendVideo inputPath target) w0;
         output = extended_path inputPath
     in case extend_error out of
          Some err \<Rightarrow> (Inl err, w)
        | None \<Rightarrow>
           (case files w inputPath of
              None \<Rightarrow> (Inl ''ffprobe: no such file'', w)
            | Some m \<Rightarrow>
               let inputDuration = (case media_duration m of Some d \<Rightarrow> d | None \<Rightarrow> 0)
               in if inputDuration \<ge> target then (Inr inputPath, w)
                  else let extensionNeeded = target - inputDuration
                       in (Inr output,
                           writeFile output (Video (inputDuration + (1 / 10 + extensionNeeded))) w)))"

section \<open>Subtitle file (subtitleUtils.ts)\<close>

text \<open>
  \<open>generateSubtitleFile\<close>: \<open>null\<close> (here \<open>None\<close>) for an empty or blank script, for
  a script without segments and for an empty timing; otherwise the timed segments are
  written, in ASS format, under the output path with the extension \<open>.ass\<close>, which
  may fail. The file of the model holds the timed segments, not their ASS rendering.
\<close>

definition generateSubtitleFile ::
  "outcomes \<Rightarrow> jsstring \<Rightarrow> real \<Rightarrow> jsstring \<Rightarrow> jsstring option action" where
  "generateSubtitleFile out scr audioDuration outputPath = (\<lambda>w.
     if scr = [] \<or> trim scr = [] then (Inr None, w)
     else let segments = splitIntoSegments scr
          in if length segments = 0 then (Inr None, w)
             else let timed = calculateTiming segments audioDuration
                  in if length timed = 0 then (Inr None, w)
                     else let assPath = ass_path outputPath
                          in case subtitle_write_error out of
                               Some err \<Rightarrow> (Inl err, w)
                             | None \<Rightarrow> (Inr (Some assPath), writeFile assPath (SubtitleFile timed) w))"

section \<open>The orchestrator (videoProcessor.ts)\<close>

definition updateProgress ::
  "jsstring \<Rightarrow> ProcessingStage \<Rightarrow> nat \<Rightarrow> string \<Rightarrow> string option \<Rightarrow> unit action" where
  "updateProgress pid stg prog step err = (\<lambda>w.
     let status = \<lparr> statusProjectId = pid, stage = stg, progress = prog,
                     currentStep = step, errorMessage = err \<rparr>;
         stored = w\<lparr> statuses := (statuses w)(statusProjectId status \<mapsto> status) \<rparr>
     in (Inr (), stored\<lparr> notified := notified stored @ [status],
                          observed := observed stored
                                      @ [statuses stored (statusProjectId status)] \<rparr>))"

text \<open>The two speech providers the orchestrator calls, and the silent last resort.\<close>

definition generateSpeechWithEdgeTTS :: "outcomes \<Rightarrow> jsstring \<Rightarrow> jsstring action" where
  "generateSpeechWithEdgeTTS out outputPath = (\<lambda>w0.
     let w = logCall EdgeTTS w0
     in case edge_result out of
          Inl err \<Rightarrow> (Inl (''Edge TTS generation failed: '' @ err), w)
        | Inr d \<Rightarrow> (Inr outputPath, writeFile outputPath (Audio d) w))"

definition generateSpeechWithK2FSA :: "outcomes \<Rightarrow> jsstring \<Rightarrow> jsstring action" where
  "generateSpeechWithK2FSA out outputPath = (\<lambda>w0.
     let w = logCall K2FSA w0
     in case k2fsa_result out of
          Inl err \<Rightarrow> (Inl (''K2FSA TTS generation failed: '' @ err), w)
        | Inr d \<Rightarrow> (Inr outputPath, writeFile outputPath (Audio d) w))"

definition synthSilence :: "outcomes \<Rightarrow> real \<Rightarrow> jsstring \<Rightarrow> jsstring action" where
  "synthSilence out seconds outputPath = (\<lambda>w0.
     let w = logCall (SynthSilence seconds) w0
     in case silence_error out of
          Some err \<Rightarrow> (Inl err, w)
        | None \<Rightarrow> (Inr outputPath, writeFile outputPath (Audio seconds) w))"

definition generateTTSPlaceholder ::
  "outcomes \<Rightarrow> jsstring \<Rightarrow> jsstring \<Rightarrow> EmotionSettings option \<Rightarrow> jsstring action" where
  "generateTTSPlaceholder out pid scr emo =
     (let audioPath = temp_path (pid @ js ''_audio.wav'')
      in catchE (generateSpeechWithEdgeTTS out audioPath)
           (\<lambda>edgeError.
              catchE (generateSpeechWithK2FSA out audioPath)
                (\<lambda>k2fsaError.
                   let estimation = estimateSpeechDuration scr
                   in synthSilence out (targetDuration estimation) audioPath)))"

definition generateMusicPlaceholder ::
  "outcomes \<Rightarrow> jsstring \<Rightarrow> VideoType \<Rightarrow> real \<Rightarrow> jsstring action" where
  "generateMusicPlaceholder out pid vtype seconds = (\<lambda>w0.
     let musicPath = temp_path (pid @ js ''_music.mp3'');
         w = logCall (SynthMusic seconds) w0
     in case music_error out of
          Some err \<Rightarrow> (Inl err, w)
        | None \<Rightarrow> (Inr musicPath, writeFile musicPath (Audio seconds) w))"

text \<open>
  \<open>generateVideoPlaceholder\<close>: what the service throws while generating or downloading
  is thrown again behind a fixed prefix. (The source constructs the service before its
  \<open>try\<close> block, so an error of the constructor, such as a missing key, is thrown without
  the prefix; the model does not tell this failure from the others.)
\<close>

definition generateVideoPlaceholder ::
  "outcomes \<Rightarrow> jsstring \<Rightarrow> jsstring \<Rightarrow> real \<Rightarrow> jsstring action" where
  "generateVideoPlaceholder out pid scr seconds = (\<lambda>w0.
     let videoPath = temp_path (pid @ js ''_bg.mp4'');
         w = logCall (SoraGenerate seconds) w0
     in case sora_result out seconds of
          Inl err \<Rightarrow> (Inl (''Failed to generate video with Sora 2: '' @ err), w)
        | Inr v \<Rightarrow> (Inr videoPath, writeFile videoPath (Video v) w))"

subsection \<open>Compositing\<close>

text \<open>
  A path that may be missing is tested for truth (\<open>if (subtitlePath)\<close>,
  \<open>subtitlePath || undefined\<close>): \<open>null\<close>, \<open>undefined\<close> and the empty string are false.
\<close>

definition truthy :: "jsstring option \<Rightarrow> jsstring option" where
  "truthy p = (case p of None \<Rightarrow> None | Some q \<Rightarrow> if q = [] then None else Some q)"

text \<open>
  The length of a stream of the command's inputs, and what ffmpeg's \<open>amix\<close> produces:
  with \<open>duration=first\<close> the mix is as long as its first input, with \<open>shortest\<close> and
  \<open>longest\<close> as long as the shortest and the longest of its inputs.
\<close>

definition stream_length :: "(jsstring \<rightharpoonup> media) \<Rightarrow> jsstring list \<Rightarrow> stream_ref \<Rightarrow> real option" where
  "stream_length fs ins s =
     (case s of
        AudioOf i \<Rightarrow> (if i < length ins
                      then (case fs (ins ! i) of Some (Audio d) \<Rightarrow> Some d | _ \<Rightarrow> None) else None)
      | VideoOf i \<Rightarrow> (if i < length ins
                      then (case fs (ins ! i) of Some (Video d) \<Rightarrow> Some d | _ \<Rightarrow> None) else None))"

fun amix_length :: "amix_mode \<Rightarrow> real list \<Rightarrow> real" where
  "amix_length mode [] = 0"
| "amix_length First (d # ds) = d"
| "amix_length Shortest (d # ds) = fold min ds d"
| "amix_length Longest (d # ds) = fold max ds d"

fun filter_source :: "video_filter \<Rightarrow> stream_ref" where
  "filter_source (TimedSubtitles s sub ttl) = s"
| "filter_source (StaticText s ttl txt) = s"

text \<open>
  Running the command: every stream it names must exist; the asset's picture is as long
  as the filtered visual stream and its sound as long as the mix.
\<close>

definition run_compose :: "(jsstring \<rightharpoonup> media) \<Rightarrow> compose_command \<Rightarrow> media option" where
  "run_compose fs cmd =
     (let mix = cmd_audioFilter cmd;
          lens = map (stream_length fs (cmd_inputs cmd)) (amix_inputs mix)
      in case stream_length fs (cmd_inputs cmd) (filter_source (cmd_videoFilter cmd)) of
           None \<Rightarrow> None
         | Some v \<Rightarrow> if None \<in> set lens then None
                     else Some (Composed v (amix_length (amix_duration mix) (map the lens))))"

definition compose_command_of ::
  "jsstring \<Rightarrow> jsstring \<Rightarrow> jsstring \<Rightarrow> jsstring \<Rightarrow> jsstring \<Rightarrow> jsstring \<Rightarrow> jsstring option
   \<Rightarrow> compose_command" where
  "compose_command_of pid audioPath musicPath bgVideoPath scr ttl subtitlePath =
     (let outputPath = temp_path (pid @ js ''_final.mp4'');
          cleanTitle = escapeText ttl;
          audioFilter = \<lparr> amix_inputs = [AudioOf 1, AudioOf 2], amix_duration = First,
                          amix_weights = [1, 2 / 10] \<rparr>;
          videoFilter =
            (case truthy subtitlePath of
               Some p \<Rightarrow> TimedSubtitles (VideoOf 0) (escapeSubtitlePath p) cleanTitle
             | None \<Rightarrow>
                 let subtitleText = take 100 scr @ (if length scr > 100 then js ''...'' else [])
                 in StaticText (VideoOf 0) cleanTitle (escapeText subtitleText))
      in \<lparr> cmd_inputs = [bgVideoPath, audioPath, musicPath],
           cmd_audioFilter = audioFilter, cmd_videoFilter = videoFilter,
           cmd_maps = [''[video]'', ''[audio]''], cmd_output = outputPath \<rparr>)"

text \<open>
  \<open>composeVideo\<close>. When ffmpeg ends, the speech, the music, the background clip and the
  subtitle file are unlinked; the source starts this cleanup without waiting for it,
  the model performs it at once.
\<close>

definition composeVideo ::
  "outcomes \<Rightarrow> jsstring \<Rightarrow> jsstring \<Rightarrow> jsstring \<Rightarrow> jsstring \<Rightarrow> jsstring \<Rightarrow> jsstring
   \<Rightarrow> jsstring option \<Rightarrow> jsstring action" where
  "composeVideo out pid audioPath musicPath bgVideoPath scr ttl subtitlePath = (\<lambda>w0.
     let cmd = compose_command_of pid audioPath musicPath bgVideoPath scr ttl subtitlePath;
         w = logCall (FfmpegCompose cmd) w0
     in case compose_error out of
          Some err \<Rightarrow> (Inl err, w)
        | None \<Rightarrow>
           (case run_compose (files w) cmd of
              None \<Rightarrow> (Inl ''ffmpeg: missing input stream'', w)
            | Some asset \<Rightarrow>
                let filesToClean = [audioPath, musicPath, bgVideoPath]
                                   @ (case truthy subtitlePath of
                                        Some p \<Rightarrow> [p] | None \<Rightarrow> [])
                in (Inr (cmd_output cmd),
                    cleanupTempFiles filesToClean (writeFile (cmd_output cmd) asset w))))"


subsection \<open>Upload and project store\<close>

definition uploadVideoToDrive :: "outcomes \<Rightarrow> jsstring \<Rightarrow> jsstring \<Rightarrow> UploadVideoResult action" where
  "uploadVideoToDrive out filePath fileName = (\<lambda>w0.
     let w = logCall (UploadToDrive filePath fileName) w0
     in case upload_result out of
          Inl err \<Rightarrow> (Inl err, w)
        | Inr driveResult \<Rightarrow> (Inr driveResult, w))"

text \<open>
  \<open>storage.updateProject\<close>, with the Drive file id when there is one. The video URL it
  stores is the same in both calls.
\<close>

definition updateProject :: "string option \<Rightarrow> jsstring \<Rightarrow> jsstring option \<Rightarrow> unit action" where
  "updateProject failure pid driveFileId = (\<lambda>w0.
     let w = logCall (UpdateProject pid driveFileId) w0
     in case failure of Some err \<Rightarrow> (Inl err, w) | None \<Rightarrow> (Inr (), w))"

definition liftE :: "(world \<Rightarrow> world) \<Rightarrow> unit action" where
  "liftE f = (\<lambda>w. (Inr (), f w))"

subsection \<open>One job\<close>

text \<open>
  The body of the \<open>try\<close> block of \<open>executeJob\<close>, after the job is entered in
  \<open>activeJobs\<close>, in two parts: \<open>produce\<close> runs stages 1 to 5 and resolves to the path
  of the composed asset; \<open>deliver\<close> is stage 6, the upload, and the final report. The
  pauses (\<open>simulateDelay\<close>) and the console output have no effect on the world and are
  left out.
\<close>

definition produce :: "outcomes \<Rightarrow> ProcessingJob \<Rightarrow> jsstring action" where
  "produce out job =
     (let pid = projectId job; scr = script job in
      thenE (updateProgress pid analyzing 10 ''Extracting key themes and emotional beats'' None) (\<lambda>_.
      thenE (updateProgress pid generating_tts 30 ''Synthesizing voiceover narration'' None) (\<lambda>_.
      thenE (generateTTSPlaceholder out pid scr (emotions job)) (\<lambda>audioPath.
      thenE (getAudioDuration out audioPath) (\<lambda>actualAudioDuration.
      let durationDecision = decideSoraDuration actualAudioDuration;
          target = targetDuration durationDecision;
          videoExtensionNeeded = max 0 (actualAudioDuration - target) in
      thenE (updateProgress pid generating_music 50 ''Composing background music'' None) (\<lambda>_.
      thenE (generateMusicPlaceholder out pid (videoType job) actualAudioDuration) (\<lambda>musicPath.
      thenE (updateProgress pid generating_video 70 ''Creating visual content with Sora 2'' None) (\<lambda>_.
      thenE (generateVideoPlaceholder out pid scr target) (\<lambda>generated.
      thenE (if videoExtensionNeeded > 1 / 10
             then extendVideoToAudioLength out generated actualAudioDuration
             else returnE generated) (\<lambda>bgVideoPath.
      thenE (updateProgress pid composing 85 ''Adding subtitles and compositing layers'' None) (\<lambda>_.
      thenE (generateSubtitleFile out scr actualAudioDuration
               (temp_path (pid @ js ''_subtitles.ass''))) (\<lambda>subtitlePath.
      composeVideo out pid audioPath musicPath bgVideoPath scr (title job)
        (truthy subtitlePath)))))))))))))"

definition deliver :: "outcomes \<Rightarrow> ProcessingJob \<Rightarrow> jsstring \<Rightarrow> jsstring action" where
  "deliver out job outputPath =
     (let pid = projectId job in
      thenE (updateProgress pid composing 95 ''Finalizing video'' None) (\<lambda>_.
      let fileName = sanitize_title (title job) @ js ''_'' @ pid @ js ''.mp4'' in
      thenE (catchE
               (thenE (uploadVideoToDrive out outputPath fileName) (\<lambda>driveResult.
                thenE (updateProject (db_error_drive out) pid (Some (fileId driveResult))) (\<lambda>_.
                liftE (cleanupTempFiles [outputPath]))))
               (\<lambda>driveError. updateProject (db_error_local out) pid None)) (\<lambda>_.
      thenE (updateProgress pid complete 100 ''Video generation complete'' None) (\<lambda>_.
      returnE pid))))"

definition pipeline :: "outcomes \<Rightarrow> ProcessingJob \<Rightarrow> jsstring action" where
  "pipeline out job = thenE (produce out job) (deliver out job)"

text \<open>
  \<open>executeJob\<close>: any error of the body is reported as stage \<open>error\<close> with progress 0
  and thrown again; the job leaves \<open>activeJobs\<close> in every case.
\<close>

definition executeJob :: "outcomes \<Rightarrow> ProcessingJob \<Rightarrow> jsstring action" where
  "executeJob out job =
     finallyE
       (catchE
          (thenE (liftE (\<lambda>w. w\<lparr>activeJobs := insert (projectId job) (activeJobs w)\<rparr>)) (\<lambda>_.
           pipeline out job))
          (\<lambda>err. thenE (updateProgress (projectId job) error 0 err (Some err)) (\<lambda>_.
                  throwE err)))
       (\<lambda>w. w\<lparr>activeJobs := activeJobs w - {projectId job}\<rparr>)"

text \<open>\<open>getVideoPath\<close>: the path of the final asset, if the file is there.\<close>

definition getVideoPath :: "world \<Rightarrow> jsstring \<Rightarrow> jsstring option" where
  "getVideoPath w pid =
     (let outputPath = temp_path (pid @ js ''_final.mp4'')
      in if files w outputPath \<noteq> None then Some outputPath else None)"

text \<open>A world in which nothing has happened yet.\<close>

definition world0 :: world where
  "world0 = \<lparr> statuses = Map.empty, notified = [], observed = [], files = Map.empty,
              activeJobs = {}, calls = [] \<rparr>"

section \<open>The job queue (videoProcessor.ts)\<close>

text \<open>
  \<open>processVideo\<close> pushes a job on \<open>jobQueue\<close> and calls \<open>processQueue\<close>, which starts the
  head of the queue unless the flag \<open>isProcessingQueue\<close> is set or \<open>activeJobs\<close> is
  full. JavaScript runs one turn of the event loop at a time, and an \<open>async\<close> function
  gives way only at an \<open>await\<close>; so the processor is modelled as a transition system
  whose steps are these turns. A submission is a job with the outcomes its run will
  meet and the world in which its run will start, whatever the earlier runs have left
  there; the reports its run makes are those that \<open>executeJob\<close> adds. The components
  \<open>submitted\<close>, \<open>finished\<close> and \<open>callback_log\<close> are not in the source: they record the
  submissions in order (the position of a submission is its ticket), the number of jobs
  whose worker has ended, and the calls to the progress callbacks in the order they are
  made.
\<close>

definition MAX_CONCURRENT_JOBS :: nat where
  "MAX_CONCURRENT_JOBS = 1"

record submission =
  sub_job :: ProcessingJob
  sub_outcomes :: outcomes
  sub_world :: world

definition job_reports :: "submission \<Rightarrow> ProcessingStatus list" where
  "job_reports sub =
     drop (length (notified (sub_world sub)))
       (notified (snd (executeJob (sub_outcomes sub) (sub_job sub) (sub_world sub))))"

text \<open>
  A call of \<open>executeJob\<close> in flight: the reports it has still to make; once it has
  made them all it settles (\<open>finally\<close> removes the job from \<open>activeJobs\<close>), and in a
  later turn the \<open>processQueue\<close> that awaits it continues.
\<close>

datatype phase = Executing | Settled

record execution =
  exec_ticket :: nat
  exec_sub :: submission
  pending :: "ProcessingStatus list"
  exec_phase :: phase

record processor =
  jobQueue :: "(nat \<times> submission) list"
  isProcessingQueue :: bool
  activeKeys :: "jsstring list"
  running :: "execution list"
  immediates :: nat
  callback_log :: "(nat \<times> ProcessingStatus) list"
  submitted :: "submission list"
  finished :: nat

definition processor0 :: processor where
  "processor0 =
     \<lparr> jobQueue = [], isProcessingQueue = False, activeKeys = [], running = [],
       immediates = 0, callback_log = [], submitted = [], finished = 0 \<rparr>"

text \<open>\<open>activeJobs.set(key, true)\<close> on the keys of the map, in insertion order.\<close>

definition map_set_key :: "jsstring \<Rightarrow> jsstring list \<Rightarrow> jsstring list" where
  "map_set_key k ks = (if k \<in> set ks then ks else ks @ [k])"

text \<open>
  \<open>processQueue\<close>, up to its \<open>await\<close>: the call of \<open>executeJob\<close> enters the job in
  \<open>activeJobs\<close> before it gives way for the first time.
\<close>

definition processQueue :: "processor \<Rightarrow> processor" where
  "processQueue s =
     (if isProcessingQueue s \<or> length (activeKeys s) \<ge> MAX_CONCURRENT_JOBS then s
      else case jobQueue s of
             [] \<Rightarrow> s
           | queuedJob # rest \<Rightarrow>
               s\<lparr> jobQueue := rest, isProcessingQueue := True,
                  activeKeys := map_set_key (projectId (sub_job (snd queuedJob))) (activeKeys s),
                  running := running s
                    @ [\<lparr> exec_ticket = fst queuedJob, exec_sub = snd queuedJob,
                          pending = job_reports (snd queuedJob), exec_phase = Executing \<rparr>] \<rparr>)"

definition processVideo :: "submission \<Rightarrow> processor \<Rightarrow> processor" where
  "processVideo sub s =
     processQueue (s\<lparr> jobQueue := jobQueue s @ [(length (submitted s), sub)],
                      submitted := submitted s @ [sub] \<rparr>)"

text \<open>
  The turns: a job is submitted; a call in flight makes its next report; a call that has
  made all its reports settles; the \<open>processQueue\<close> awaiting a settled call runs its
  \<open>finally\<close> block, which clears the flag and, if jobs are waiting, asks for another
  \<open>processQueue\<close> with \<open>setImmediate\<close>; such a request is served.
\<close>

inductive proc_step :: "processor \<Rightarrow> processor \<Rightarrow> bool" where
  submit: "proc_step s (processVideo sub s)"
| report:
    "running s = us @ e # vs \<Longrightarrow> exec_phase e = Executing \<Longrightarrow> pending e = x # xs \<Longrightarrow>
     proc_step s (s\<lparr> running := us @ e\<lparr>pending := xs\<rparr> # vs,
                callback_log := callback_log s @ [(exec_ticket e, x)] \<rparr>)"
| settle:
    "running s = us @ e # vs \<Longrightarrow> exec_phase e = Executing \<Longrightarrow> pending e = [] \<Longrightarrow>
     proc_step s (s\<lparr> running := us @ e\<lparr>exec_phase := Settled\<rparr> # vs,
                activeKeys := removeAll (projectId (sub_job (exec_sub e))) (activeKeys s) \<rparr>)"
| worker_finally:
    "running s = us @ e # vs \<Longrightarrow> exec_phase e = Settled \<Longrightarrow>
     proc_step s (s\<lparr> running := us @ vs, isProcessingQueue := False,
                immediates := (if jobQueue s \<noteq> [] then Suc (immediates s) else immediates s),
                finished := Suc (finished s) \<rparr>)"
| immediate:
    "immediates s = Suc n \<Longrightarrow> proc_step s (processQueue (s\<lparr> immediates := n \<rparr>))"

inductive reachable :: "processor \<Rightarrow> bool" where
  start: "reachable processor0"
| turn: "reachable s \<Longrightarrow> proc_step s s' \<Longrightarrow> reachable s'"

text \<open>
  The reports of the submissions with tickets from \<open>i\<close> up to \<open>j\<close>, each job's reports
  in one block, the blocks in the order of the tickets.
\<close>

definition events_range :: "nat \<Rightarrow> nat \<Rightarrow> submission list \<Rightarrow> (nat \<times> ProcessingStatus) list" where
  "events_range i j subs = concat (map (\<lambda>t. map (Pair t) (job_reports (subs ! t))) [i..<j])"

text \<open>What holds between the turns.\<close>

definition between_turns :: "processor \<Rightarrow> bool" where
  "between_turns s \<longleftrightarrow>
     finished s + length (running s) \<le> length (submitted s)
     \<and> jobQueue s = map (\<lambda>t. (t, submitted s ! t))
                       [finished s + length (running s)..<length (submitted s)]
     \<and> (isProcessingQueue s \<longleftrightarrow> running s \<noteq> [])
     \<and> (case running s of
           [] \<Rightarrow> activeKeys s = []
                 \<and> callback_log s = events_range 0 (finished s) (submitted s)
         | e # es \<Rightarrow>
             es = [] \<and> exec_ticket e = finished s \<and> exec_sub e = submitted s ! finished s
             \<and> (\<exists>em. job_reports (exec_sub e) = em @ pending e
                      \<and> callback_log s = events_range 0 (finished s) (submitted s)
                                         @ map (Pair (finished s)) em)
             \<and> (case exec_phase e of
                   Executing \<Rightarrow> activeKeys s = [projectId (sub_job (exec_sub e))]
                 | Settled \<Rightarrow> activeKeys s = [] \<and> pending e = []))"

section \<open>Notions used to state the properties\<close>

text \<open>The code units of a string that are not white space, in order.\<close>

definition nonspace :: "jsstring \<Rightarrow> jsstring" where
  "nonspace s = filter (\<lambda>c. \<not> is_space c) s"

text \<open>
  The seven reports of a run without error, in the order in which \<open>executeJob\<close>
  makes them, and the report of an error.
\<close>

definition report ::
  "jsstring \<Rightarrow> ProcessingStage \<Rightarrow> nat \<Rightarrow> string \<Rightarrow> string option \<Rightarrow> ProcessingStatus" where
  "report pid stg prog step err =
     \<lparr> statusProjectId = pid, stage = stg, progress = prog, currentStep = step,
       errorMessage = err \<rparr>"

definition plan :: "jsstring \<Rightarrow> ProcessingStatus list" where
  "plan pid =
     [report pid analyzing 10 ''Extracting key themes and emotional beats'' None,
      report pid generating_tts 30 ''Synthesizing voiceover narration'' None,
      report pid generating_music 50 ''Composing background music'' None,
      report pid generating_video 70 ''Creating visual content with Sora 2'' None,
      report pid composing 85 ''Adding subtitles and compositing layers'' None,
      report pid composing 95 ''Finalizing video'' None,
      report pid complete 100 ''Video generation complete'' None]"

text \<open>
  An action reports the list \<open>xs\<close> for a project when, from every world, it appends a
  prefix of \<open>xs\<close> to the calls of the progress callback, the whole of \<open>xs\<close> if it does not
  throw, and leaves the last status of that prefix in the status store.
\<close>

definition reports :: "jsstring \<Rightarrow> 'a action \<Rightarrow> ProcessingStatus list \<Rightarrow> bool" where
  "reports pid m xs \<longleftrightarrow>
     (\<forall>w. \<exists>k\<le>length xs.
        notified (snd (m w)) = notified w @ take k xs
        \<and> (isl (fst (m w)) \<or> k = length xs)
        \<and> statuses (snd (m w)) pid = (if k = 0 then statuses w pid else Some (xs ! (k - 1))))"

text \<open>
  An action keeps the callback and the store in step when every status it passes to
  the progress callback is, at the moment of the call, the status that the store holds
  for that project.
\<close>

definition in_step :: "'a action \<Rightarrow> bool" where
  "in_step m \<longleftrightarrow>
     (\<forall>w. \<exists>xs. notified (snd (m w)) = notified w @ xs
                \<and> observed (snd (m w)) = observed w @ map Some xs)"

text \<open>
  What the speech stage leaves behind, read off the outcomes: the real duration of the
  audio it writes (none if even the silent track cannot be made) and the calls it makes.
\<close>

definition tts_duration :: "outcomes \<Rightarrow> jsstring \<Rightarrow> real option" where
  "tts_duration out scr =
     (case edge_result out of
        Inr d \<Rightarrow> Some d
      | Inl e1 \<Rightarrow>
         (case k2fsa_result out of
            Inr d \<Rightarrow> Some d
          | Inl e2 \<Rightarrow>
             (case silence_error out of
                None \<Rightarrow> Some (targetDuration (estimateSpeechDuration scr))
              | Some e3 \<Rightarrow> None)))"

definition tts_calls :: "outcomes \<Rightarrow> jsstring \<Rightarrow> call list" where
  "tts_calls out scr =
     (case edge_result out of
        Inr d \<Rightarrow> [EdgeTTS]
      | Inl e1 \<Rightarrow>
         (case k2fsa_result out of
            Inr d \<Rightarrow> [EdgeTTS, K2FSA]
          | Inl e2 \<Rightarrow>
              [EdgeTTS, K2FSA, SynthSilence (targetDuration (estimateSpeechDuration scr))]))"

text \<open>The duration that \<open>getAudioDuration\<close> reports for audio of real duration \<open>d\<close>.\<close>

definition measured :: "real \<Rightarrow> real" where
  "measured d = Math_ceil (d * 10) / 10 + 1 / 10"

section \<open>Example inputs\<close>

text \<open>
  A job, and outcomes for a run of it: every collaborator succeeds, the speech provider
  delivering audio of the given real duration and the video generator a clip of the
  duration it is asked for; then variants in which collaborators fail.
\<close>

definition example_job :: ProcessingJob where
  "example_job =
     \<lparr> projectId = js ''p1'', title = js ''Demo'',
       script = js ''Hello world, this is a test.'',
       videoType = informative, emotions = None \<rparr>"

definition all_ok :: "real \<Rightarrow> outcomes" where
  "all_ok d =
     \<lparr> edge_result = Inr d, k2fsa_result = Inr d, silence_error = None,
       ffprobe_error = None, music_error = None, sora_result = (\<lambda>t. Inr t),
       extend_error = None, subtitle_write_error = None, compose_error = None,
       upload_result = Inr \<lparr> fileId = js ''f1'', webViewLink = js ''view'',
                               webContentLink = js ''content'' \<rparr>,
       db_error_drive = None, db_error_local = None \<rparr>"

definition providers_down :: outcomes where
  "providers_down =
     (all_ok 1)\<lparr> edge_result := Inl ''service unavailable'',
                 k2fsa_result := Inl ''space is sleeping'' \<rparr>"

definition speech_down :: outcomes where
  "speech_down = providers_down\<lparr> silence_error := Some ''ffmpeg exited with code 1'' \<rparr>"

definition drive_down :: "real \<Rightarrow> outcomes" where
  "drive_down d = (all_ok d)\<lparr> upload_result := Inl ''Google Drive not connected'' \<rparr>"

text \<open>
  The project store refuses the update after the upload has failed; and a video
  generator that delivers 5 s whatever it is asked for, with speech of 7 s and the
  asset kept in the working directory.
\<close>

definition store_down :: "real \<Rightarrow> outcomes" where
  "store_down d = (drive_down d)\<lparr> db_error_local := Some ''database connection lost'' \<rparr>"

definition short_clip :: outcomes where
  "short_clip = (drive_down 7)\<lparr> sora_result := (\<lambda>t. Inr 5) \<rparr>"

text \<open>The calls of the freeze-frame extension.\<close>

fun is_extension :: "call \<Rightarrow> bool" where
  "is_extension (ExtendVideo p t) = True"
| "is_extension c = False"

text \<open>The calls that ask a speech provider for audio.\<close>

fun is_speech_provider :: "call \<Rightarrow> bool" where
  "is_speech_provider EdgeTTS = True"
| "is_speech_provider K2FSA = True"
| "is_speech_provider c = False"

definition example_submission :: submission where
  "example_submission =
     \<lparr> sub_job = example_job, sub_outcomes = all_ok 3, sub_world = world0 \<rparr>"

text \<open>
  The processor after the example job was submitted twice in a row, the first run has
  made all its reports and ended, and the second run has made its first report.
\<close>

definition two_jobs_state :: processor where
  "two_jobs_state =
     \<lparr> jobQueue = [], isProcessingQueue = True, activeKeys = [js ''p1''],
       running = [\<lparr> exec_ticket = 1, exec_sub = example_submission,
                    pending = tl (plan (js ''p1'')), exec_phase = Executing \<rparr>],
       immediates = 0,
       callback_log = map (Pair 0) (plan (js ''p1'')) @ [(1, hd (plan (js ''p1'')))],
       submitted = [example_submission, example_submission], finished = 1 \<rparr>"

section \<open>Properties of the duration policy\<close>

lemma round_tenth_le:
  fixes d :: real and z :: int
  shows "Math_round (d * 10) / 10 \<le> of_int z \<longleftrightarrow> d < of_int z + 1 / 20"
proof -
  have "Math_round (d * 10) / 10 \<le> of_int z \<longleftrightarrow> \<lfloor>d * 10 + 1 / 2\<rfloor> \<le> 10 * z"
    unfolding Math_round_def by (simp add: field_simps) linarith
  also have "\<dots> \<longleftrightarrow> d * 10 + 1 / 2 < of_int (10 * z) + 1"
    by (simp add: floor_le_iff)
  also have "\<dots> \<longleftrightarrow> d < of_int z + 1 / 20"
    by (simp add: field_simps)
  finally show ?thesis .
qed

lemma target_cases:
  "targetDuration (decideSoraDuration d) =
     (if d < 4 + 1 / 20 then 4 else if d < 8 + 1 / 20 then 8 else 12)"
  using round_tenth_le [of d 4] round_tenth_le [of d 8]
  by (simp add: decideSoraDuration_def Let_def)

text \<open>
  Claim C1 fails on the code. The source comments the choice as the smallest clip
  duration that fits the audio, 4 s for audio of at most 4 s and 8 s for audio of at
  most 8 s, and so does the claim; but the comparison is made on the duration rounded
  to the nearest tenth of a second. Speech of 4.03125 s lies strictly between the tiers
  4 and 8; ten times it is 40.3125, which rounds to 40, and the policy answers 4: a clip
  shorter than the speech, with an extension of 0.03125 s reported as needed. (The
  numbers 4.03125, 40.3125, 40 and 4 are binary fractions, so the code's floating-point
  arithmetic makes no rounding error on this input.)
\<close>

theorem decideSoraDuration_below_duration:
  "targetDuration (decideSoraDuration (129 / 32)) = 4
   \<and> (4 :: real) < 129 / 32 \<and> (129 / 32 :: real) < 8
   \<and> extensionNeeded (decideSoraDuration (129 / 32)) = 1 / 32
   \<and> \<not> shouldWarn (decideSoraDuration (129 / 32))"
  by (simp add: decideSoraDuration_def Let_def Math_round_def)

section \<open>Properties of the caption segmenter\<close>

text \<open>
  The segmenter keeps every code unit of the script that is not white space, in order:
  splitting, trimming and joining only remove or insert white space. So a script that is
  not blank has a segment.
\<close>

lemma nonspace_append [simp]: "nonspace (xs @ ys) = nonspace xs @ nonspace ys"
  by (simp add: nonspace_def)

lemma nonspace_rev [simp]: "nonspace (rev xs) = rev (nonspace xs)"
  by (simp add: nonspace_def rev_filter)

lemma nonspace_Nil [simp]: "nonspace [] = []"
  by (simp add: nonspace_def)

lemma nonspace_Cons: "nonspace (c # cs) = (if is_space c then nonspace cs else c # nonspace cs)"
  by (simp add: nonspace_def)

lemma nonspace_dropWhile [simp]: "nonspace (dropWhile is_space s) = nonspace s"
  by (induction s) (simp_all add: nonspace_Cons)

lemma nonspace_trim [simp]: "nonspace (trim s) = nonspace s"
  by (simp add: trim_def)

lemma nonspace_empty_iff: "nonspace s = [] \<longleftrightarrow> (\<forall>c\<in>set s. is_space c)"
  by (simp add: nonspace_def filter_empty_conv)

lemma trim_empty_iff: "trim s = [] \<longleftrightarrow> nonspace s = []"
  by (auto simp: trim_def nonspace_empty_iff dest: set_dropWhileD)
    (metis dropWhile_eq_Nil_conv set_rev dropWhile_eq_Cons_conv list.exhaust list.set_intros(1))

lemma nonspace_concat: "nonspace (concat xss) = concat (map nonspace xss)"
  by (induction xss) simp_all

lemma nonspace_splitSentences:
  "nonspace (concat (splitSentences lb cur s)) = nonspace (rev cur @ s)"
  by (induction lb cur s rule: splitSentences.induct) (simp_all add: nonspace_Cons)

lemma nonspace_splitClauses:
  "nonspace (concat (splitClauses lb cur s)) = nonspace (rev cur @ s)"
  by (induction lb cur s rule: splitClauses.induct) (simp_all add: nonspace_Cons)

lemma nonspace_join_space: "nonspace (join_space xs) = nonspace (concat xs)"
  by (induction xs rule: join_space.induct) (simp_all add: nonspace_Cons is_space_def)


lemma nonspace_clause_step:
  "clause_step (segs, cur, n) clause = (segs', cur', n') \<Longrightarrow>
   nonspace (concat segs') @ nonspace (concat cur')
   = nonspace (concat segs) @ nonspace (concat cur) @ nonspace clause"
  by (auto simp: clause_step_def Let_def nonspace_join_space trim_empty_iff split: if_splits)

lemma nonspace_clause_loop:
  "foldl clause_step (segs, cur, n) clauses = (segs', cur', n') \<Longrightarrow>
   nonspace (concat segs') @ nonspace (concat cur')
   = nonspace (concat segs) @ nonspace (concat cur) @ nonspace (concat clauses)"
proof (induction clauses arbitrary: segs cur n)
  case Nil
  then show ?case by simp
next
  case (Cons c cs)
  obtain s1 c1 n1 where st: "clause_step (segs, cur, n) c = (s1, c1, n1)"
    by (cases "clause_step (segs, cur, n) c") auto
  from Cons.prems have "foldl clause_step (s1, c1, n1) cs = (segs', cur', n')"
    by (simp add: st)
  from Cons.IH [OF this] nonspace_clause_step [OF st] show ?case by simp
qed

lemma nonspace_sentence_step:
  "nonspace (concat (sentence_step segs sentence)) = nonspace (concat segs) @ nonspace sentence"
proof (cases "length (split_ws (trim sentence)) \<le> MAX_WORDS_PER_SEGMENT")
  case True
  then show ?thesis
    by (auto simp: sentence_step_def Let_def trim_empty_iff)
next
  case False
  obtain s1 c1 n1 where
    loop: "foldl clause_step (segs, [], 0) (splitClauses False [] sentence) = (s1, c1, n1)"
    by (cases "foldl clause_step (segs, [], 0) (splitClauses False [] sentence)") auto
  from nonspace_clause_loop [OF loop]
  have "nonspace (concat s1) @ nonspace (concat c1) = nonspace (concat segs) @ nonspace sentence"
    by (simp add: nonspace_splitClauses)
  with False loop show ?thesis
    by (auto simp: sentence_step_def Let_def nonspace_join_space)
qed

lemma nonspace_sentence_loop:
  "nonspace (concat (foldl sentence_step segs sentences))
   = nonspace (concat segs) @ nonspace (concat sentences)"
  by (induction sentences arbitrary: segs) (simp_all add: nonspace_sentence_step)

lemma concat_filter_nonempty: "concat (filter (\<lambda>s. s \<noteq> []) xss) = concat xss"
  by (induction xss) simp_all

lemma nonspace_splitIntoSegments:
  "nonspace (concat (splitIntoSegments scr)) = nonspace scr"
  by (simp add: splitIntoSegments_def Let_def concat_filter_nonempty nonspace_sentence_loop
      nonspace_splitSentences)

lemma splitIntoSegments_nonempty:
  assumes "trim scr \<noteq> []"
  shows "splitIntoSegments scr \<noteq> []"
proof
  assume "splitIntoSegments scr = []"
  then have "nonspace (concat (splitIntoSegments scr)) = []" by simp
  then have "nonspace scr = []" by (simp add: nonspace_splitIntoSegments)
  with assms show False by (simp add: trim_empty_iff)
qed

lemma length_rawDurations [simp]: "length (rawDurations segs T) = length segs"
  by (simp add: rawDurations_def Let_def)

lemma max_floor_12: "(4 / 5 :: real) \<le> max (12 / 10) y"
  by simp

lemma max_floor_8: "(4 / 5 :: real) \<le> max (8 / 10) y"
  by simp

lemma rawDurations_lower: "d \<in> set (rawDurations segs T) \<Longrightarrow> 4 / 5 \<le> d"
  unfolding rawDurations_def Let_def
  by (auto simp only: set_map max_floor_12 max_floor_8 split: if_splits)

lemma length_timedSegments [simp]: "length (timedSegments T t xs) = length xs"
  by (induction T t xs rule: timedSegments.induct) (simp_all add: Let_def)

lemma timedSegments_end_le: "seg \<in> set (timedSegments T t xs) \<Longrightarrow> endTime seg \<le> T - 1 / 5"
  by (induction T t xs rule: timedSegments.induct) (auto simp: Let_def)

lemma timedSegments_start_ge:
  "\<forall>d\<in>set (map snd xs). 0 < d \<Longrightarrow> seg \<in> set (timedSegments T t xs) \<Longrightarrow> t \<le> startTime seg"
  by (induction T t xs rule: timedSegments.induct) (fastforce simp: Let_def)+

lemma timedSegments_end_ge:
  "\<forall>d\<in>set (map snd xs). 4 / 5 \<le> d \<Longrightarrow> seg \<in> set (timedSegments T t xs)
   \<Longrightarrow> min (t + 4 / 5) (T - 1 / 5) \<le> endTime seg"
  by (induction T t xs rule: timedSegments.induct) (fastforce simp: Let_def)+

lemma timedSegments_span:
  "\<forall>d\<in>set (map snd xs). 0 < d \<Longrightarrow> seg \<in> set (timedSegments T t xs)
   \<Longrightarrow> startTime seg < endTime seg \<longleftrightarrow> startTime seg < T - 1 / 5"
  by (induction T t xs rule: timedSegments.induct) (fastforce simp: Let_def)+

lemma timedSegments_starts_increasing:
  "\<forall>d\<in>set (map snd xs). 0 < d \<Longrightarrow> sorted_wrt (<) (map startTime (timedSegments T t xs))"
proof (induction T t xs rule: timedSegments.induct)
  case (1 T t)
  then show ?case by simp
next
  case (2 T t s d rest)
  have "\<forall>seg\<in>set (timedSegments T (t + d) rest). t < startTime seg"
    using timedSegments_start_ge [of rest _ T "t + d"] 2 by fastforce
  with 2 show ?case by (simp add: Let_def)
qed

lemma timedSegments_ends_nondecreasing:
  "\<forall>d\<in>set (map snd xs). 4 / 5 \<le> d \<Longrightarrow> sorted_wrt (\<le>) (map endTime (timedSegments T t xs))"
proof (induction T t xs rule: timedSegments.induct)
  case (1 T t)
  then show ?case by simp
next
  case (2 T t s d rest)
  have "\<forall>seg\<in>set (timedSegments T (t + d) rest). min (t + d + 4 / 5) (T - 1 / 5) \<le> endTime seg"
    using timedSegments_end_ge [of rest _ T "t + d"] 2 by fastforce
  with 2 show ?case by (fastforce simp: Let_def)
qed

lemma splitIntoSegments_Hi: "splitIntoSegments (js ''Hi'') = [js ''Hi'']"
  by (simp add: splitIntoSegments_def sentence_step_def js_def trim_def split_ws_def
      is_space_def is_sentence_end_def MAX_WORDS_PER_SEGMENT_def Let_def)

lemma timing_Hi_short:
  "calculateTiming [js ''Hi''] (1 / 2)
   = [\<lparr> text_of = js ''Hi'', startTime = 1 / 2, endTime = 3 / 10 \<rparr>]"
  by (simp add: calculateTiming_def rawDurations_def js_def split_ws_def is_space_def Let_def)

text \<open>
  Claim C5, as the code has it. For every script with a code unit that is not white space
  and every positive total duration, the timing has as many segments as the splitter
  found, at least one; the first starts at the start buffer 0.5; every segment, the last
  one included, ends no later than the total duration less the end buffer 0.2; the start
  times increase strictly and the end times never decrease; and a segment starts before
  it ends exactly when it starts before the total duration less the end buffer.
\<close>

theorem calculateTiming_spans:
  assumes "nonspace scr \<noteq> []" and "0 < T"
  shows "calculateTiming (splitIntoSegments scr) T \<noteq> []
    \<and> length (calculateTiming (splitIntoSegments scr) T) = length (splitIntoSegments scr)
    \<and> startTime (hd (calculateTiming (splitIntoSegments scr) T)) = 5 / 10
    \<and> endTime (last (calculateTiming (splitIntoSegments scr) T)) \<le> T - 2 / 10
    \<and> (\<forall>seg\<in>set (calculateTiming (splitIntoSegments scr) T). endTime seg \<le> T - 2 / 10)
    \<and> sorted_wrt (<) (map startTime (calculateTiming (splitIntoSegments scr) T))
    \<and> sorted_wrt (\<le>) (map endTime (calculateTiming (splitIntoSegments scr) T))
    \<and> (\<forall>seg\<in>set (calculateTiming (splitIntoSegments scr) T).
          startTime seg < endTime seg \<longleftrightarrow> startTime seg < T - 2 / 10)"
proof -
  let ?segs = "splitIntoSegments scr"
  let ?xs = "zip ?segs (rawDurations ?segs T)"
  let ?out = "calculateTiming ?segs T"
  from assms(1) have ne: "?segs \<noteq> []"
    by (simp add: splitIntoSegments_nonempty trim_empty_iff)
  with assms(2) have out: "?out = timedSegments T (5 / 10) ?xs"
    by (simp add: calculateTiming_def)
  have snd_xs: "map snd ?xs = rawDurations ?segs T" by simp
  have low: "\<forall>d\<in>set (map snd ?xs). 4 / 5 \<le> d"
    unfolding snd_xs using rawDurations_lower by blast
  then have pos: "\<forall>d\<in>set (map snd ?xs). 0 < d" by fastforce
  have len: "length ?out = length ?segs" by (simp add: out)
  with ne have nonempty: "?out \<noteq> []" by auto
  have "length ?xs = length ?segs" by simp
  with ne have "?xs \<noteq> []" by (metis length_0_conv)
  then obtain s d rest where xs: "?xs = (s, d) # rest"
    by (cases ?xs) auto
  have first: "startTime (hd ?out) = 5 / 10"
    by (simp add: out xs Let_def)
  have ends: "\<forall>seg\<in>set ?out. endTime seg \<le> T - 2 / 10"
    using timedSegments_end_le [of _ T "5 / 10" ?xs] by (simp add: out)
  with nonempty have lastend: "endTime (last ?out) \<le> T - 2 / 10"
    using last_in_set by blast
  have starts: "sorted_wrt (<) (map startTime ?out)"
    unfolding out by (rule timedSegments_starts_increasing [OF pos])
  have endsorted: "sorted_wrt (\<le>) (map endTime ?out)"
    unfolding out by (rule timedSegments_ends_nondecreasing [OF low])
  have span: "\<forall>seg\<in>set ?out. startTime seg < endTime seg \<longleftrightarrow> startTime seg < T - 2 / 10"
    using timedSegments_span [OF pos, of _ T "5 / 10"] by (simp add: out)
  from nonempty len first lastend ends starts endsorted span show ?thesis by blast
qed

theorem calculateTiming_spans_witness:
  "nonspace (js ''Hi'') \<noteq> [] \<and> (0::real) < 1 / 2
   \<and> calculateTiming (splitIntoSegments (js ''Hi'')) (1 / 2) \<noteq> []
   \<and> startTime (hd (calculateTiming (splitIntoSegments (js ''Hi'')) (1 / 2))) = 1 / 2
   \<and> endTime (last (calculateTiming (splitIntoSegments (js ''Hi'')) (1 / 2))) \<le> 1 / 2 - 2 / 10"
proof -
  have h: "nonspace (js ''Hi'') \<noteq> []" by (simp add: nonspace_def js_def is_space_def)
  have p: "(0::real) < 1 / 2" by simp
  from calculateTiming_spans [OF h p] h p show ?thesis by simp
qed

text \<open>
  Claim C5 as the specification words it fails: with a total duration of half a second
  the only segment of the script \<open>Hi\<close> starts at 0.5 and is cut to end at 0.3.
\<close>

theorem caption_start_before_end_counterexample:
  "\<not> (\<forall>seg\<in>set (calculateTiming (splitIntoSegments (js ''Hi'')) (1 / 2)).
        startTime seg < endTime seg)"
  by (simp add: splitIntoSegments_Hi timing_Hi_short)

section \<open>Properties of the orchestrator\<close>

subsection \<open>What a run reports\<close>

lemma updateProgress_eq:
  "updateProgress pid stg prog step err w
   = (Inr (), w\<lparr> statuses := (statuses w)(pid \<mapsto> report pid stg prog step err),
                  notified := notified w @ [report pid stg prog step err],
                  observed := observed w @ [Some (report pid stg prog step err)] \<rparr>)"
  by (simp add: updateProgress_def report_def Let_def)

lemma reports_updateProgress:
  "reports pid (updateProgress pid stg prog step err) [report pid stg prog step err]"
  unfolding reports_def
proof
  fix w
  show "\<exists>k\<le>length [report pid stg prog step err].
        notified (snd (updateProgress pid stg prog step err w))
          = notified w @ take k [report pid stg prog step err]
        \<and> (isl (fst (updateProgress pid stg prog step err w))
            \<or> k = length [report pid stg prog step err])
        \<and> statuses (snd (updateProgress pid stg prog step err w)) pid
          = (if k = 0 then statuses w pid else Some ([report pid stg prog step err] ! (k - 1)))"
    by (rule exI [of _ 1]) (simp add: updateProgress_eq)
qed

lemma reports_silent:
  assumes "\<And>w. notified (snd (m w)) = notified w" "\<And>w. statuses (snd (m w)) = statuses w"
  shows "reports pid m []"
  unfolding reports_def using assms by simp

lemma reports_thenE:
  assumes m: "reports pid m xs" and f: "\<And>a. reports pid (f a) ys"
  shows "reports pid (thenE m f) (xs @ ys)"
  unfolding reports_def
proof
  fix w
  from m obtain k where k: "k \<le> length xs"
    "notified (snd (m w)) = notified w @ take k xs"
    "isl (fst (m w)) \<or> k = length xs"
    "statuses (snd (m w)) pid = (if k = 0 then statuses w pid else Some (xs ! (k - 1)))"
    unfolding reports_def by blast
  show "\<exists>n\<le>length (xs @ ys).
        notified (snd (thenE m f w)) = notified w @ take n (xs @ ys)
        \<and> (isl (fst (thenE m f w)) \<or> n = length (xs @ ys))
        \<and> statuses (snd (thenE m f w)) pid
          = (if n = 0 then statuses w pid else Some ((xs @ ys) ! (n - 1)))"
  proof (cases "fst (m w)")
    case (Inl e)
    then have t: "thenE m f w = (Inl e, snd (m w))"
      by (cases "m w") (simp add: thenE_def)
    from k show ?thesis
      by (intro exI [of _ k]) (auto simp: t nth_append)
  next
    case (Inr a)
    then have t: "thenE m f w = f a (snd (m w))"
      by (cases "m w") (simp add: thenE_def)
    from Inr k have kx: "k = length xs" by simp
    from f [of a] obtain j where j: "j \<le> length ys"
      "notified (snd (f a (snd (m w)))) = notified (snd (m w)) @ take j ys"
      "isl (fst (f a (snd (m w)))) \<or> j = length ys"
      "statuses (snd (f a (snd (m w)))) pid
        = (if j = 0 then statuses (snd (m w)) pid else Some (ys ! (j - 1)))"
      unfolding reports_def by blast
    from k j kx show ?thesis
      by (intro exI [of _ "length xs + j"]) (auto simp: t nth_append)
  qed
qed

lemma reports_catchE_silent:
  assumes m: "reports pid m []" and h: "\<And>e. reports pid (h e) []"
  shows "reports pid (catchE m h) []"
  unfolding reports_def
proof
  fix w
  show "\<exists>k\<le>length []. notified (snd (catchE m h w)) = notified w @ take k []
        \<and> (isl (fst (catchE m h w)) \<or> k = length [])
        \<and> statuses (snd (catchE m h w)) pid
           = (if k = 0 then statuses w pid else Some ([] ! (k - 1)))"
  proof (cases "fst (m w)")
    case (Inl e)
    then have t: "catchE m h w = h e (snd (m w))"
      by (cases "m w") (simp add: catchE_def)
    from m h [of e] show ?thesis by (simp add: reports_def t)
  next
    case (Inr a)
    then have t: "catchE m h w = (Inr a, snd (m w))"
      by (cases "m w") (simp add: catchE_def)
    from m show ?thesis by (simp add: reports_def t)
  qed
qed

lemma reports_if:
  "reports pid m xs \<Longrightarrow> reports pid n xs \<Longrightarrow> reports pid (if c then m else n) xs"
  by simp

lemma reports_returnE: "reports pid (returnE x) []"
  by (simp add: reports_def returnE_def)

lemma reports_throwE: "reports pid (throwE e) []"
  by (simp add: reports_def throwE_def)

lemma reports_cons:
  "reports pid m [x] \<Longrightarrow> (\<And>a. reports pid (f a) ys) \<Longrightarrow> reports pid (thenE m f) (x # ys)"
  using reports_thenE [of pid m "[x]" f ys] by simp

lemma reports_skip:
  "reports pid m [] \<Longrightarrow> (\<And>a. reports pid (f a) ys) \<Longrightarrow> reports pid (thenE m f) ys"
  using reports_thenE [of pid m "[]" f ys] by simp


lemma cleanup_frame [simp]:
  "notified (cleanupTempFiles ps w) = notified w"
  "observed (cleanupTempFiles ps w) = observed w"
  "statuses (cleanupTempFiles ps w) = statuses w"
  "activeJobs (cleanupTempFiles ps w) = activeJobs w"
  "calls (cleanupTempFiles ps w) = calls w"
  by (induction ps arbitrary: w) (simp_all add: cleanupTempFiles_def unlink_def)

lemma files_cleanup [simp]:
  "files (cleanupTempFiles ps w) p = (if p \<in> set ps then None else files w p)"
  by (induction ps arbitrary: w) (simp_all add: cleanupTempFiles_def unlink_def)

lemma writeFile_sel [simp]:
  "notified (writeFile p m w) = notified w"
  "observed (writeFile p m w) = observed w"
  "statuses (writeFile p m w) = statuses w"
  "activeJobs (writeFile p m w) = activeJobs w"
  "calls (writeFile p m w) = calls w"
  "files (writeFile p m w) = (files w)(p \<mapsto> m)"
  by (simp_all add: writeFile_def)

lemma logCall_sel [simp]:
  "notified (logCall c w) = notified w"
  "observed (logCall c w) = observed w"
  "statuses (logCall c w) = statuses w"
  "activeJobs (logCall c w) = activeJobs w"
  "calls (logCall c w) = calls w @ [c]"
  "files (logCall c w) = files w"
  by (simp_all add: logCall_def)

lemma silent_edge: "reports pid (generateSpeechWithEdgeTTS out path) []"
  by (rule reports_silent) (simp_all add: generateSpeechWithEdgeTTS_def Let_def split: sum.splits)

lemma silent_k2fsa: "reports pid (generateSpeechWithK2FSA out path) []"
  by (rule reports_silent) (simp_all add: generateSpeechWithK2FSA_def Let_def split: sum.splits)

lemma silent_silence: "reports pid (synthSilence out s path) []"
  by (rule reports_silent) (simp_all add: synthSilence_def Let_def split: option.splits)

lemma silent_tts: "reports pid (generateTTSPlaceholder out p scr emo) []"
  unfolding generateTTSPlaceholder_def Let_def
  by (intro reports_catchE_silent silent_edge silent_k2fsa silent_silence)

lemma silent_probe: "reports pid (getAudioDuration out path) []"
  by (rule reports_silent) (simp_all add: getAudioDuration_def split: option.splits)

lemma silent_music: "reports pid (generateMusicPlaceholder out p vt s) []"
  by (rule reports_silent) (simp_all add: generateMusicPlaceholder_def Let_def split: option.splits)

lemma silent_video: "reports pid (generateVideoPlaceholder out p scr s) []"
  by (rule reports_silent) (simp_all add: generateVideoPlaceholder_def Let_def split: sum.splits)

lemma silent_extend: "reports pid (extendVideoToAudioLength out path t) []"
  by (rule reports_silent)
     (simp_all add: extendVideoToAudioLength_def Let_def split: option.splits)

lemma silent_subtitles: "reports pid (generateSubtitleFile out scr d path) []"
  by (rule reports_silent) (simp_all add: generateSubtitleFile_def Let_def split: option.splits)

lemma silent_compose: "reports pid (composeVideo out p a m b scr ttl sub) []"
  by (rule reports_silent) (simp_all add: composeVideo_def Let_def split: option.splits)

lemma silent_upload: "reports pid (uploadVideoToDrive out path name) []"
  by (rule reports_silent) (simp_all add: uploadVideoToDrive_def Let_def split: sum.splits)

lemma silent_updateProject: "reports pid (updateProject f p d) []"
  by (rule reports_silent) (simp_all add: updateProject_def Let_def split: option.splits)

lemma silent_cleanup: "reports pid (liftE (cleanupTempFiles ps)) []"
  by (rule reports_silent) (simp_all add: liftE_def)

lemmas report_steps =
  reports_cons [OF reports_updateProgress]
  reports_skip [OF silent_tts] reports_skip [OF silent_probe] reports_skip [OF silent_music]
  reports_skip [OF silent_video] reports_skip [OF silent_subtitles]
  reports_skip [OF reports_if [OF silent_extend reports_returnE]]
  reports_skip [OF silent_upload] reports_skip [OF silent_updateProject]

lemma reports_produce: "reports (projectId job) (produce out job) (take 5 (plan (projectId job)))"
  unfolding produce_def Let_def plan_def
  apply simp
  apply (intro report_steps silent_compose)
  done

lemma reports_upload:
  "reports pid
     (catchE
        (thenE (uploadVideoToDrive out outputPath fileName) (\<lambda>driveResult.
         thenE (updateProject f1 pid (Some (fileId driveResult))) (\<lambda>_.
         liftE (cleanupTempFiles [outputPath]))))
        (\<lambda>driveError. updateProject f2 pid None)) []"
  by (intro reports_catchE_silent report_steps silent_cleanup silent_updateProject)

lemma reports_deliver:
  "reports (projectId job) (deliver out job outputPath) (drop 5 (plan (projectId job)))"
  unfolding deliver_def Let_def plan_def
  apply simp
  apply (intro report_steps reports_skip [OF reports_upload] reports_returnE)
  done

lemma reports_pipeline: "reports (projectId job) (pipeline out job) (plan (projectId job))"
proof -
  have "reports (projectId job) (thenE (produce out job) (deliver out job))
          (take 5 (plan (projectId job)) @ drop 5 (plan (projectId job)))"
    by (rule reports_thenE [OF reports_produce reports_deliver])
  then show ?thesis by (simp add: pipeline_def)
qed

lemma match_extension_suffix:
  assumes "ext \<noteq> []" "\<forall>c\<in>set ext. is_word_char c"
  shows "match_extension (xs @ 46 # ext) = Some (xs, 46 # ext)"
proof -
  have w: "\<forall>c\<in>set (rev ext). is_word_char c" using assms(2) by simp
  have n: "\<not> is_word_char 46" by (simp add: is_word_char_def)
  have 1: "takeWhile is_word_char (rev ext @ 46 # rev xs) = rev ext"
    by (subst takeWhile_append2) (use w n in auto)
  have 2: "dropWhile is_word_char (rev ext @ 46 # rev xs) = 46 # rev xs"
    by (subst dropWhile_append2) (use w n in auto)
  have r: "rev (xs @ 46 # ext) = rev ext @ 46 # rev xs" by simp
  show ?thesis unfolding match_extension_def Let_def r 1 2 using assms(1) by simp
qed

lemma extended_bg: "extended_path (temp_path (pid @ js ''_bg.mp4'')) = temp_path (pid @ js ''_bg_extended.mp4'')"
  using match_extension_suffix [of "[109,112,52]" "TEMP_DIR @ js ''/'' @ pid @ js ''_bg''"]
  by (simp add: extended_path_def temp_path_def js_def is_word_char_def)

lemma ass_subtitles: "ass_path (temp_path (pid @ js ''_subtitles.ass'')) = temp_path (pid @ js ''_subtitles.ass'')"
  using match_extension_suffix [of "[97,115,115]" "TEMP_DIR @ js ''/'' @ pid @ js ''_subtitles''"]
  by (simp add: ass_path_def temp_path_def js_def is_word_char_def)

lemma temp_path_inj [simp]: "temp_path a = temp_path b \<longleftrightarrow> a = b"
  by (simp add: temp_path_def)

lemma js_eq_iff [simp]: "js a = js b \<longleftrightarrow> a = b"
proof -
  have "inj (of_char :: char \<Rightarrow> nat)" by (rule inj_of_char)
  then have "inj (map (of_char :: char \<Rightarrow> nat))" by simp
  then show ?thesis unfolding js_def by (simp add: inj_eq)
qed




subsection \<open>Running the actions\<close>

lemma thenE_exec:
  "thenE m f w = (case fst (m w) of Inl e \<Rightarrow> (Inl e, snd (m w)) | Inr a \<Rightarrow> f a (snd (m w)))"
  by (cases "m w") (simp add: thenE_def split: sum.splits)

lemma catchE_exec:
  "catchE m h w = (case fst (m w) of Inl e \<Rightarrow> h e (snd (m w)) | Inr a \<Rightarrow> (Inr a, snd (m w)))"
  by (cases "m w") (simp add: catchE_def split: sum.splits)

lemma finallyE_exec: "finallyE m fin w = (fst (m w), fin (snd (m w)))"
  by (cases "m w") (simp add: finallyE_def)

lemma updateProgress_run [simp]:
  "fst (updateProgress pid stg prog step err w) = Inr ()"
  "notified (snd (updateProgress pid stg prog step err w))
     = notified w @ [report pid stg prog step err]"
  "statuses (snd (updateProgress pid stg prog step err w))
     = (statuses w)(pid \<mapsto> report pid stg prog step err)"
  "observed (snd (updateProgress pid stg prog step err w))
     = observed w @ [Some (report pid stg prog step err)]"
  "files (snd (updateProgress pid stg prog step err w)) = files w"
  "calls (snd (updateProgress pid stg prog step err w)) = calls w"
  "activeJobs (snd (updateProgress pid stg prog step err w)) = activeJobs w"
  by (simp_all add: updateProgress_eq)

lemma tts_run:
  "fst (generateTTSPlaceholder out pid scr emo w)
     = (case tts_duration out scr of
          Some d \<Rightarrow> Inr (temp_path (pid @ js ''_audio.wav''))
        | None \<Rightarrow> Inl (the (silence_error out)))"
  "files (snd (generateTTSPlaceholder out pid scr emo w))
     = (case tts_duration out scr of
          Some d \<Rightarrow> (files w)(temp_path (pid @ js ''_audio.wav'') \<mapsto> Audio d)
        | None \<Rightarrow> files w)"
  "calls (snd (generateTTSPlaceholder out pid scr emo w)) = calls w @ tts_calls out scr"
  by (simp_all add: generateTTSPlaceholder_def catchE_exec generateSpeechWithEdgeTTS_def
      generateSpeechWithK2FSA_def synthSilence_def tts_duration_def tts_calls_def Let_def
      split: sum.splits option.splits)

lemma probe_run:
  "snd (getAudioDuration out path w) = w"
  "ffprobe_error out = None \<Longrightarrow> files w path = Some (Audio d) \<Longrightarrow> d \<noteq> 0 \<Longrightarrow>
   fst (getAudioDuration out path w) = Inr (measured d)"
  by (simp_all add: getAudioDuration_def measured_def split: option.splits)

lemma music_run:
  "fst (generateMusicPlaceholder out pid vt s w)
     = (case music_error out of None \<Rightarrow> Inr (temp_path (pid @ js ''_music.mp3''))
        | Some e \<Rightarrow> Inl e)"
  "files (snd (generateMusicPlaceholder out pid vt s w))
     = (case music_error out of
          None \<Rightarrow> (files w)(temp_path (pid @ js ''_music.mp3'') \<mapsto> Audio s)
        | Some e \<Rightarrow> files w)"
  "calls (snd (generateMusicPlaceholder out pid vt s w)) = calls w @ [SynthMusic s]"
  by (simp_all add: generateMusicPlaceholder_def Let_def split: option.splits)

lemma video_run:
  "fst (generateVideoPlaceholder out pid scr s w)
     = (case sora_result out s of
          Inr v \<Rightarrow> Inr (temp_path (pid @ js ''_bg.mp4''))
        | Inl e \<Rightarrow> Inl (''Failed to generate video with Sora 2: '' @ e))"
  "files (snd (generateVideoPlaceholder out pid scr s w))
     = (case sora_result out s of
          Inr v \<Rightarrow> (files w)(temp_path (pid @ js ''_bg.mp4'') \<mapsto> Video v)
        | Inl e \<Rightarrow> files w)"
  "calls (snd (generateVideoPlaceholder out pid scr s w)) = calls w @ [SoraGenerate s]"
  by (simp_all add: generateVideoPlaceholder_def Let_def split: sum.splits)

lemma extend_run:
  assumes "extend_error out = None" "files w path = Some (Video v)"
  shows "fst (extendVideoToAudioLength out path t w)
           = Inr (if t \<le> v then path else extended_path path)"
    and "files (snd (extendVideoToAudioLength out path t w))
           = (if t \<le> v then files w
              else (files w)(extended_path path \<mapsto> Video (v + (1 / 10 + (t - v)))))"
    and "calls (snd (extendVideoToAudioLength out path t w)) = calls w @ [ExtendVideo path t]"
  using assms by (simp_all add: extendVideoToAudioLength_def Let_def)


lemma length_calculateTiming:
  "0 < T \<Longrightarrow> length (calculateTiming segs T) = length segs"
  by (simp add: calculateTiming_def)

lemma blank_iff: "scr = [] \<or> trim scr = [] \<longleftrightarrow> nonspace scr = []"
  by (auto simp: trim_empty_iff)

lemma subtitles_run:
  "fst (generateSubtitleFile out scr T path w)
     = (if nonspace scr = [] \<or> T \<le> 0 then Inr None
        else case subtitle_write_error out of
               None \<Rightarrow> Inr (Some (ass_path path)) | Some e \<Rightarrow> Inl e)"
  "files (snd (generateSubtitleFile out scr T path w))
     = (if nonspace scr \<noteq> [] \<and> 0 < T \<and> subtitle_write_error out = None
        then (files w)(ass_path path \<mapsto> SubtitleFile (calculateTiming (splitIntoSegments scr) T))
        else files w)"
  "calls (snd (generateSubtitleFile out scr T path w)) = calls w"
proof -
  have seg: "nonspace scr \<noteq> [] \<Longrightarrow> length (splitIntoSegments scr) \<noteq> 0"
    using splitIntoSegments_nonempty [of scr] by (simp add: trim_empty_iff)
  have tim: "nonspace scr \<noteq> [] \<Longrightarrow> 0 < T \<Longrightarrow>
             length (calculateTiming (splitIntoSegments scr) T) \<noteq> 0"
    using seg by (simp add: length_calculateTiming)
  have no: "T \<le> 0 \<Longrightarrow> calculateTiming (splitIntoSegments scr) T = []"
    by (simp add: calculateTiming_def)
  show "fst (generateSubtitleFile out scr T path w)
     = (if nonspace scr = [] \<or> T \<le> 0 then Inr None
        else case subtitle_write_error out of
               None \<Rightarrow> Inr (Some (ass_path path)) | Some e \<Rightarrow> Inl e)"
    using seg tim no unfolding generateSubtitleFile_def Let_def blank_iff
    by (cases "0 < T") (simp_all split: option.splits)
  show "files (snd (generateSubtitleFile out scr T path w))
     = (if nonspace scr \<noteq> [] \<and> 0 < T \<and> subtitle_write_error out = None
        then (files w)(ass_path path \<mapsto> SubtitleFile (calculateTiming (splitIntoSegments scr) T))
        else files w)"
    using seg tim no unfolding generateSubtitleFile_def Let_def blank_iff
    by (cases "0 < T") (simp_all split: option.splits)
  show "calls (snd (generateSubtitleFile out scr T path w)) = calls w"
    unfolding generateSubtitleFile_def Let_def
    by (simp split: option.splits)
qed

lemma compose_run:
  assumes "compose_error out = None"
    and "files w audio = Some (Audio d)" "files w music = Some (Audio m)"
    and "files w bg = Some (Video v)"
  shows "fst (composeVideo out pid audio music bg scr ttl sub w)
           = Inr (temp_path (pid @ js ''_final.mp4''))"
    and "files (snd (composeVideo out pid audio music bg scr ttl sub w)) p
           = (if p \<in> set ([audio, music, bg] @ (case truthy sub of Some q \<Rightarrow> [q] | None \<Rightarrow> []))
              then None
              else if p = temp_path (pid @ js ''_final.mp4'') then Some (Composed v d)
              else files w p)"
    and "calls (snd (composeVideo out pid audio music bg scr ttl sub w))
           = calls w @ [FfmpegCompose (compose_command_of pid audio music bg scr ttl sub)]"
proof -
  have r: "run_compose (files w) (compose_command_of pid audio music bg scr ttl sub)
           = Some (Composed v d)"
    using assms(2-4)
    by (simp add: run_compose_def compose_command_of_def stream_length_def Let_def
        split: option.splits)
  have o: "cmd_output (compose_command_of pid audio music bg scr ttl sub)
           = temp_path (pid @ js ''_final.mp4'')"
    by (simp add: compose_command_of_def Let_def split: option.splits)
  show "fst (composeVideo out pid audio music bg scr ttl sub w)
           = Inr (temp_path (pid @ js ''_final.mp4''))"
    using assms(1) by (simp add: composeVideo_def Let_def r o)
  show "files (snd (composeVideo out pid audio music bg scr ttl sub w)) p
           = (if p \<in> set ([audio, music, bg] @ (case truthy sub of Some q \<Rightarrow> [q] | None \<Rightarrow> []))
              then None
              else if p = temp_path (pid @ js ''_final.mp4'') then Some (Composed v d)
              else files w p)"
    using assms(1) by (simp add: composeVideo_def Let_def r o)
  show "calls (snd (composeVideo out pid audio music bg scr ttl sub w))
           = calls w @ [FfmpegCompose (compose_command_of pid audio music bg scr ttl sub)]"
    using assms(1) by (simp add: composeVideo_def Let_def r o)
qed


lemma length_plan [simp]: "length (plan pid) = 7"
  by (simp add: plan_def)

lemma measured_ge: "d + 1 / 10 \<le> measured d"
proof -
  have "d * 10 \<le> of_int \<lceil>d * 10\<rceil>" by (rule le_of_int_ceiling)
  then show ?thesis by (simp add: measured_def Math_ceil_def field_simps)
qed

lemma produce_run:
  assumes tts: "tts_duration out (script job) = Some d" and d: "d \<noteq> 0"
    and ok: "ffprobe_error out = None" "music_error out = None"
      "1 / 10 < measured d - targetDuration (decideSoraDuration (measured d))
       \<Longrightarrow> extend_error out = None"
      "nonspace (script job) \<noteq> [] \<Longrightarrow> 0 < measured d \<Longrightarrow> subtitle_write_error out = None"
      "compose_error out = None"
    and sora: "sora_result out (targetDuration (decideSoraDuration (measured d))) = Inr v"
  shows "fst (produce out job w) = Inr (temp_path (projectId job @ js ''_final.mp4''))"
    and "files (snd (produce out job w)) (temp_path (projectId job @ js ''_final.mp4''))
         = Some (Composed
             (if 1 / 10 < measured d - targetDuration (decideSoraDuration (measured d))
                 \<and> v < measured d
              then measured d + 1 / 10 else v) d)"
    and "calls (snd (produce out job w))
         = calls w @ tts_calls out (script job)
           @ [SynthMusic (measured d),
              SoraGenerate (targetDuration (decideSoraDuration (measured d)))]
           @ (if 1 / 10 < measured d - targetDuration (decideSoraDuration (measured d))
              then [ExtendVideo (temp_path (projectId job @ js ''_bg.mp4'')) (measured d)]
              else [])
           @ [FfmpegCompose
               (compose_command_of (projectId job)
                  (temp_path (projectId job @ js ''_audio.wav''))
                  (temp_path (projectId job @ js ''_music.mp3''))
                  (if 1 / 10 < measured d - targetDuration (decideSoraDuration (measured d))
                      \<and> v < measured d
                   then temp_path (projectId job @ js ''_bg_extended.mp4'')
                   else temp_path (projectId job @ js ''_bg.mp4''))
                  (script job) (title job)
                  (if nonspace (script job) = [] \<or> measured d \<le> 0 then None
                   else Some (temp_path (projectId job @ js ''_subtitles.ass''))))]"
    and "notified (snd (produce out job w)) = notified w @ take 5 (plan (projectId job))"
proof -
  let ?pid = "projectId job" and ?scr = "script job"
  let ?m = "measured d"
  let ?t = "targetDuration (decideSoraDuration ?m)"
  let ?A = "temp_path (?pid @ js ''_audio.wav'')"
  let ?M = "temp_path (?pid @ js ''_music.mp3'')"
  let ?B = "temp_path (?pid @ js ''_bg.mp4'')"
  let ?BX = "temp_path (?pid @ js ''_bg_extended.mp4'')"
  let ?S = "temp_path (?pid @ js ''_subtitles.ass'')"
  let ?F = "temp_path (?pid @ js ''_final.mp4'')"
  let ?c = "1 / 10 < max 0 (?m - ?t)"
  let ?x = "1 / 10 < ?m - ?t \<and> v < ?m"
  let ?ext = "if ?c then extendVideoToAudioLength out ?B ?m else returnE ?B"
  let ?sub = "generateSubtitleFile out ?scr ?m ?S"
  let ?bg = "if ?x then ?BX else ?B"
  let ?sp = "if nonspace ?scr = [] \<or> ?m \<le> 0 then None else Some ?S"
  define w1 where "w1 = snd (updateProgress ?pid analyzing 10 ''Extracting key themes and emotional beats'' None w)"
  define w2 where "w2 = snd (updateProgress ?pid generating_tts 30 ''Synthesizing voiceover narration'' None w1)"
  define w3 where "w3 = snd (generateTTSPlaceholder out ?pid ?scr (emotions job) w2)"
  define w4 where "w4 = snd (getAudioDuration out ?A w3)"
  define w5 where "w5 = snd (updateProgress ?pid generating_music 50 ''Composing background music'' None w4)"
  define w6 where "w6 = snd (generateMusicPlaceholder out ?pid (videoType job) ?m w5)"
  define w7 where "w7 = snd (updateProgress ?pid generating_video 70 ''Creating visual content with Sora 2'' None w6)"
  define w8 where "w8 = snd (generateVideoPlaceholder out ?pid ?scr ?t w7)"
  define w9 where "w9 = snd (?ext w8)"
  define w10 where "w10 = snd (updateProgress ?pid composing 85 ''Adding subtitles and compositing layers'' None w9)"
  define w11 where "w11 = snd (?sub w10)"
  note folds = w1_def [symmetric] w2_def [symmetric] w3_def [symmetric] w4_def [symmetric]
    w5_def [symmetric] w6_def [symmetric] w7_def [symmetric] w8_def [symmetric]
    w9_def [symmetric] w10_def [symmetric] w11_def [symmetric]
  have cx: "?c \<longleftrightarrow> 1 / 10 < ?m - ?t" by (simp add: max_def)
  have f3: "fst (generateTTSPlaceholder out ?pid ?scr (emotions job) w2) = Inr ?A"
    by (simp add: tts_run tts)
  have files3: "files w3 = (files w)(?A \<mapsto> Audio d)"
    by (simp add: w3_def w2_def w1_def tts_run tts)
  have f4: "fst (getAudioDuration out ?A w3) = Inr ?m"
    using ok(1) d by (intro probe_run) (simp_all add: files3)
  have w4: "w4 = w3" by (simp add: w4_def probe_run)
  have f6: "fst (generateMusicPlaceholder out ?pid (videoType job) ?m w5) = Inr ?M"
    by (simp add: music_run ok)
  have files6: "files w6 = (files w)(?A \<mapsto> Audio d, ?M \<mapsto> Audio ?m)"
    by (simp add: w6_def w5_def music_run ok w4 files3)
  have f8: "fst (generateVideoPlaceholder out ?pid ?scr ?t w7) = Inr ?B"
    by (simp add: video_run sora)
  have files8: "files w8 = (files w)(?A \<mapsto> Audio d, ?M \<mapsto> Audio ?m, ?B \<mapsto> Video v)"
    by (simp add: w8_def w7_def video_run sora files6)
  have B8: "files w8 ?B = Some (Video v)" by (simp add: files8)
  have f9: "fst (?ext w8) = Inr ?bg"
  proof (cases "1 / 10 < ?m - ?t")
    case True
    with extend_run(1) [OF ok(3) B8, of ?m] cx show ?thesis
      by (auto simp: extended_bg)
  next
    case False
    with cx show ?thesis by (simp add: returnE_def)
  qed
  have files9: "files w9 = (if ?x then (files w8)(?BX \<mapsto> Video (?m + 1 / 10)) else files w8)"
  proof (cases "1 / 10 < ?m - ?t")
    case True
    with extend_run(2) [OF ok(3) B8, of ?m] cx show ?thesis
      unfolding w9_def by (auto simp: extended_bg)
  next
    case False
    with cx show ?thesis unfolding w9_def by (simp add: returnE_def)
  qed
  have f11: "fst (?sub w10) = Inr ?sp"
    using ok(4) by (auto simp: subtitles_run(1) ass_subtitles)
  have files11: "files w11
      = (if nonspace ?scr \<noteq> [] \<and> 0 < ?m
         then (files w9)(?S \<mapsto> SubtitleFile (calculateTiming (splitIntoSegments ?scr) ?m))
         else files w9)"
    using ok(4) by (auto simp: w11_def w10_def subtitles_run(2) ass_subtitles)
  have tsp: "truthy ?sp = ?sp"
    by (simp add: truthy_def temp_path_def js_def)
  have main: "produce out job w
      = composeVideo out ?pid ?A ?M ?bg ?scr (title job) ?sp w11"
    unfolding produce_def Let_def
    by (simp only: thenE_exec updateProgress_run(1) folds f3 f4 f6 f8 f9 f11 tsp sum.case)
  have A11: "files w11 ?A = Some (Audio d)"
    by (simp add: files11 files9 files8)
  have M11: "files w11 ?M = Some (Audio ?m)"
    by (simp add: files11 files9 files8)
  have B11: "files w11 ?bg = Some (Video (if ?x then ?m + 1 / 10 else v))"
    by (simp add: files11 files9 files8)
  show res: "fst (produce out job w) = Inr ?F"
    unfolding main by (rule compose_run(1) [OF ok(5) A11 M11 B11])
  show "files (snd (produce out job w)) ?F = Some (Composed (if ?x then ?m + 1 / 10 else v) d)"
    unfolding main compose_run(2) [OF ok(5) A11 M11 B11]
    by (simp add: truthy_def)
  have calls9: "calls w9 = calls w8 @ (if 1 / 10 < ?m - ?t then [ExtendVideo ?B ?m] else [])"
  proof (cases "1 / 10 < ?m - ?t")
    case True
    with extend_run(3) [OF ok(3) B8, of ?m] cx show ?thesis
      unfolding w9_def by auto
  next
    case False
    with cx show ?thesis unfolding w9_def by (simp add: returnE_def)
  qed
  have calls11: "calls w11 = calls w @ tts_calls out ?scr @ [SynthMusic ?m, SoraGenerate ?t]
      @ (if 1 / 10 < ?m - ?t then [ExtendVideo ?B ?m] else [])"
    by (simp add: w11_def w10_def subtitles_run(3) calls9 w8_def w7_def w6_def w5_def
        w4 w3_def w2_def w1_def video_run music_run tts_run)
  show "calls (snd (produce out job w))
         = calls w @ tts_calls out ?scr @ [SynthMusic ?m, SoraGenerate ?t]
           @ (if 1 / 10 < ?m - ?t then [ExtendVideo ?B ?m] else [])
           @ [FfmpegCompose (compose_command_of ?pid ?A ?M ?bg ?scr (title job) ?sp)]"
    unfolding main compose_run(3) [OF ok(5) A11 M11 B11] calls11 by simp
  from reports_produce [of job out] obtain k where k: "k \<le> length (take 5 (plan ?pid))"
    "notified (snd (produce out job w)) = notified w @ take k (take 5 (plan ?pid))"
    "isl (fst (produce out job w)) \<or> k = length (take 5 (plan ?pid))"
    unfolding reports_def by blast
  have "\<not> isl (fst (produce out job w))"
    by (simp add: res)
  with k show "notified (snd (produce out job w)) = notified w @ take 5 (plan ?pid)"
    by simp
qed


lemmas deliver_defs = deliver_def thenE_exec catchE_exec uploadVideoToDrive_def updateProject_def
  liftE_def returnE_def Let_def plan_def

lemma deliver_upload_ok:
  assumes "upload_result out = Inr r" "db_error_drive out = None"
  shows "fst (deliver out job p w) = Inr (projectId job)"
    and "files (snd (deliver out job p w)) = (files w)(p := None)"
    and "notified (snd (deliver out job p w)) = notified w @ drop 5 (plan (projectId job))"
    and "statuses (snd (deliver out job p w)) (projectId job)
         = Some (report (projectId job) complete 100 ''Video generation complete'' None)"
  using assms by (simp_all add: deliver_defs fun_eq_iff)

lemma deliver_upload_failed:
  assumes "upload_result out = Inl e" "db_error_local out = None"
  shows "fst (deliver out job p w) = Inr (projectId job)"
    and "files (snd (deliver out job p w)) = files w"
    and "notified (snd (deliver out job p w)) = notified w @ drop 5 (plan (projectId job))"
    and "statuses (snd (deliver out job p w)) (projectId job)
         = Some (report (projectId job) complete 100 ''Video generation complete'' None)"
    and "calls (snd (deliver out job p w))
         = calls w @ [UploadToDrive p (sanitize_title (title job) @ js ''_'' @ projectId job @ js ''.mp4''),
                      UpdateProject (projectId job) None]"
  using assms by (simp_all add: deliver_defs)

lemma deliver_result:
  "fst (deliver out job p w) = Inr r \<Longrightarrow> r = projectId job"
  by (auto simp: deliver_defs split: sum.splits option.splits)

lemma deliver_failed:
  "fst (deliver out job p w) = Inl e \<Longrightarrow>
   notified (snd (deliver out job p w)) = notified w @ [plan (projectId job) ! 5]"
  by (auto simp: deliver_defs split: sum.splits option.splits)


lemma reportsD:
  assumes "reports pid m xs"
  obtains k where "k \<le> length xs" "notified (snd (m w)) = notified w @ take k xs"
    "isl (fst (m w)) \<or> k = length xs"
    "statuses (snd (m w)) pid = (if k = 0 then statuses w pid else Some (xs ! (k - 1)))"
  using assms unfolding reports_def by blast

lemma pipeline_failed_length:
  assumes "fst (pipeline out job w) = Inl e"
  shows "length (notified (snd (pipeline out job w))) \<le> length (notified w) + 6"
proof (cases "fst (produce out job w)")
  case (Inl e')
  then have p: "pipeline out job w = (Inl e', snd (produce out job w))"
    by (simp add: pipeline_def thenE_exec)
  from reports_produce [of job out] obtain k where
    "notified (snd (produce out job w)) = notified w @ take k (take 5 (plan (projectId job)))"
    by (rule reportsD)
  then show ?thesis by (simp add: p)
next
  case (Inr path)
  then have p: "pipeline out job w = deliver out job path (snd (produce out job w))"
    by (simp add: pipeline_def thenE_exec)
  from reports_produce [of job out] obtain k where k:
    "notified (snd (produce out job w)) = notified w @ take k (take 5 (plan (projectId job)))"
    by (rule reportsD)
  from assms have "fst (deliver out job path (snd (produce out job w))) = Inl e"
    by (simp add: p)
  from deliver_failed [OF this] k show ?thesis by (simp add: p)
qed

lemma pipeline_result:
  assumes "fst (pipeline out job w) = Inr r"
  shows "r = projectId job"
proof (cases "fst (produce out job w)")
  case (Inl e')
  with assms show ?thesis by (simp add: pipeline_def thenE_exec)
next
  case (Inr path)
  with assms have "fst (deliver out job path (snd (produce out job w))) = Inr r"
    by (simp add: pipeline_def thenE_exec)
  then show ?thesis by (rule deliver_result)
qed

lemma executeJob_exec:
  "executeJob out job w =
     (let w0 = w\<lparr>activeJobs := insert (projectId job) (activeJobs w)\<rparr>;
          r = fst (pipeline out job w0); w1 = snd (pipeline out job w0)
      in case r of
           Inr x \<Rightarrow> (Inr x, w1\<lparr>activeJobs := activeJobs w1 - {projectId job}\<rparr>)
         | Inl e \<Rightarrow>
            (Inl e,
             (snd (updateProgress (projectId job) error 0 e (Some e) w1))
               \<lparr>activeJobs := activeJobs (snd (updateProgress (projectId job) error 0 e (Some e) w1))
                               - {projectId job}\<rparr>))"
  by (simp add: executeJob_def finallyE_exec catchE_exec thenE_exec liftE_def throwE_def Let_def
      split: sum.splits)


lemma thenE_InrE:
  assumes "fst (thenE m f w) = Inr r"
  obtains a where "fst (m w) = Inr a" "fst (f a (snd (m w))) = Inr r"
  using assms by (cases "fst (m w)") (simp_all add: thenE_exec)

lemma probe_InrD:
  assumes "fst (getAudioDuration out path w) = Inr m" "files w path = Some (Audio d)"
  shows "ffprobe_error out = None \<and> d \<noteq> 0 \<and> m = measured d"
  using assms by (auto simp: getAudioDuration_def measured_def split: option.splits if_splits)

lemma extend_InrD:
  "fst (extendVideoToAudioLength out path t w) = Inr b \<Longrightarrow> extend_error out = None"
  by (auto simp: extendVideoToAudioLength_def Let_def split: option.splits)

lemma compose_InrD:
  "fst (composeVideo out pid a m b scr ttl sub w) = Inr p \<Longrightarrow> compose_error out = None"
  by (auto simp: composeVideo_def Let_def split: option.splits)

lemma probe_fst:
  "fst (getAudioDuration out path w)
   = (case ffprobe_error out of
        Some err \<Rightarrow> Inl err
      | None \<Rightarrow>
         (case files w path of
            None \<Rightarrow> Inl ''ffprobe: no such file''
          | Some m \<Rightarrow>
             (case media_duration m of
                None \<Rightarrow> Inl ''Could not determine audio duration''
              | Some duration \<Rightarrow>
                  if duration = 0 then Inl ''Could not determine audio duration''
                  else Inr (measured duration))))"
  by (simp add: getAudioDuration_def measured_def split: option.splits)

lemma excess_max: "(1 / 10 < max 0 (x - y)) = (1 / 10 < x - (y::real))"
  by (simp add: max_def)

lemma produce_InrD:
  assumes "fst (produce out job w) = Inr p"
  shows "\<exists>d v. tts_duration out (script job) = Some d \<and> d \<noteq> 0
      \<and> ffprobe_error out = None \<and> music_error out = None
      \<and> (1 / 10 < measured d - targetDuration (decideSoraDuration (measured d))
           \<longrightarrow> extend_error out = None)
      \<and> (nonspace (script job) \<noteq> [] \<and> 0 < measured d \<longrightarrow> subtitle_write_error out = None)
      \<and> compose_error out = None
      \<and> sora_result out (targetDuration (decideSoraDuration (measured d))) = Inr v"
  using assms unfolding produce_def Let_def excess_max
  apply (elim thenE_InrE)
  apply (drule compose_InrD)
  apply (simp only: tts_run probe_fst probe_run(1) music_run video_run subtitles_run(1)
      updateProgress_run)
  apply (auto dest: extend_InrD split: option.splits sum.splits if_splits)
  done

lemma tts_notified:
  "notified (snd (generateTTSPlaceholder out pid scr emo w)) = notified w"
  using silent_tts [of pid out pid scr emo] by (rule reportsD) simp

lemma produce_tts_failed:
  assumes "tts_duration out (script job) = None"
  shows "fst (produce out job w) = Inl (the (silence_error out))"
    and "notified (snd (produce out job w)) = notified w @ take 2 (plan (projectId job))"
  using assms
  by (simp_all add: produce_def Let_def thenE_exec tts_run tts_notified plan_def)

subsection \<open>Callback and store\<close>

lemma in_step_updateProgress: "in_step (updateProgress pid stg prog step err)"
  unfolding in_step_def
  by (intro allI exI [of _ "[report pid stg prog step err]"]) simp

lemma in_step_silent:
  assumes "\<And>w. notified (snd (m w)) = notified w" "\<And>w. observed (snd (m w)) = observed w"
  shows "in_step m"
  unfolding in_step_def using assms by simp

lemma in_step_thenE:
  assumes m: "in_step m" and f: "\<And>a. in_step (f a)"
  shows "in_step (thenE m f)"
  unfolding in_step_def
proof
  fix w
  from m obtain xs where xs: "notified (snd (m w)) = notified w @ xs"
    "observed (snd (m w)) = observed w @ map Some xs"
    unfolding in_step_def by blast
  show "\<exists>zs. notified (snd (thenE m f w)) = notified w @ zs
            \<and> observed (snd (thenE m f w)) = observed w @ map Some zs"
  proof (cases "fst (m w)")
    case (Inl e)
    with xs show ?thesis by (simp add: thenE_exec)
  next
    case (Inr a)
    from f [of a] obtain ys where
      "notified (snd (f a (snd (m w)))) = notified (snd (m w)) @ ys"
      "observed (snd (f a (snd (m w)))) = observed (snd (m w)) @ map Some ys"
      unfolding in_step_def by blast
    with xs Inr show ?thesis
      by (intro exI [of _ "xs @ ys"]) (simp add: thenE_exec)
  qed
qed

lemma in_step_catchE:
  assumes m: "in_step m" and h: "\<And>e. in_step (h e)"
  shows "in_step (catchE m h)"
  unfolding in_step_def
proof
  fix w
  from m obtain xs where xs: "notified (snd (m w)) = notified w @ xs"
    "observed (snd (m w)) = observed w @ map Some xs"
    unfolding in_step_def by blast
  show "\<exists>zs. notified (snd (catchE m h w)) = notified w @ zs
            \<and> observed (snd (catchE m h w)) = observed w @ map Some zs"
  proof (cases "fst (m w)")
    case (Inr a)
    with xs show ?thesis by (simp add: catchE_exec)
  next
    case (Inl e)
    from h [of e] obtain ys where
      "notified (snd (h e (snd (m w)))) = notified (snd (m w)) @ ys"
      "observed (snd (h e (snd (m w)))) = observed (snd (m w)) @ map Some ys"
      unfolding in_step_def by blast
    with xs Inl show ?thesis
      by (intro exI [of _ "xs @ ys"]) (simp add: catchE_exec)
  qed
qed

lemma in_step_finallyE:
  assumes "in_step m" "\<And>w. notified (fin w) = notified w" "\<And>w. observed (fin w) = observed w"
  shows "in_step (finallyE m fin)"
  using assms unfolding in_step_def by (simp add: finallyE_exec)

lemma in_step_if: "in_step m \<Longrightarrow> in_step n \<Longrightarrow> in_step (if c then m else n)"
  by simp

lemma in_step_returnE: "in_step (returnE x)"
  by (rule in_step_silent) (simp_all add: returnE_def)

lemma in_step_throwE: "in_step (throwE e)"
  by (rule in_step_silent) (simp_all add: throwE_def)

lemma in_step_tts: "in_step (generateTTSPlaceholder out p scr emo)"
  unfolding generateTTSPlaceholder_def Let_def
  by (intro in_step_catchE in_step_silent)
     (simp_all add: generateSpeechWithEdgeTTS_def generateSpeechWithK2FSA_def synthSilence_def
        Let_def split: sum.splits option.splits)

lemma in_step_probe: "in_step (getAudioDuration out path)"
  by (rule in_step_silent) (simp_all add: getAudioDuration_def split: option.splits)

lemma in_step_music: "in_step (generateMusicPlaceholder out p vt s)"
  by (rule in_step_silent) (simp_all add: generateMusicPlaceholder_def Let_def split: option.splits)

lemma in_step_video: "in_step (generateVideoPlaceholder out p scr s)"
  by (rule in_step_silent) (simp_all add: generateVideoPlaceholder_def Let_def split: sum.splits)

lemma in_step_extend: "in_step (extendVideoToAudioLength out path t)"
  by (rule in_step_silent)
     (simp_all add: extendVideoToAudioLength_def Let_def split: option.splits)

lemma in_step_subtitles: "in_step (generateSubtitleFile out scr d path)"
  by (rule in_step_silent) (simp_all add: generateSubtitleFile_def Let_def split: option.splits)

lemma in_step_compose: "in_step (composeVideo out p a m b scr ttl sub)"
  by (rule in_step_silent) (simp_all add: composeVideo_def Let_def split: option.splits)

lemma in_step_upload: "in_step (uploadVideoToDrive out path name)"
  by (rule in_step_silent) (simp_all add: uploadVideoToDrive_def Let_def split: sum.splits)

lemma in_step_updateProject: "in_step (updateProject f p d)"
  by (rule in_step_silent) (simp_all add: updateProject_def Let_def split: option.splits)

lemma in_step_liftE:
  assumes "\<And>w. notified (g w) = notified w" "\<And>w. observed (g w) = observed w"
  shows "in_step (liftE g)"
  by (rule in_step_silent) (simp_all add: liftE_def assms)

lemmas in_step_rules =
  in_step_thenE in_step_catchE in_step_if in_step_returnE in_step_throwE
  in_step_updateProgress in_step_tts in_step_probe in_step_music in_step_video
  in_step_extend in_step_subtitles in_step_compose in_step_upload in_step_updateProject

lemma in_step_executeJob: "in_step (executeJob out job)"
  unfolding executeJob_def pipeline_def produce_def deliver_def Let_def
  by (intro in_step_finallyE in_step_liftE in_step_rules) simp_all

lemma executeJob_reports_shape:
  "\<exists>k. notified (snd (executeJob out job w))
          = notified w @ take k (plan (projectId job))
            @ (case fst (executeJob out job w) of
                 Inl e \<Rightarrow> [report (projectId job) error 0 e (Some e)] | Inr x \<Rightarrow> [])
      \<and> (case fst (executeJob out job w) of
            Inl e \<Rightarrow> k < 7 | Inr x \<Rightarrow> k = 7 \<and> x = projectId job)
      \<and> statuses (snd (executeJob out job w)) (projectId job)
          = Some (last (notified (snd (executeJob out job w))))
      \<and> map (\<lambda>s. (stage s, progress s)) (plan (projectId job))
          = [(analyzing, 10), (generating_tts, 30), (generating_music, 50),
             (generating_video, 70), (composing, 85), (composing, 95), (complete, 100)]"
proof -
  let ?pid = "projectId job"
  let ?w0 = "w\<lparr>activeJobs := insert ?pid (activeJobs w)\<rparr>"
  let ?w1 = "snd (pipeline out job ?w0)"
  have order: "map (\<lambda>s. (stage s, progress s)) (plan ?pid)
          = [(analyzing, 10), (generating_tts, 30), (generating_music, 50),
             (generating_video, 70), (composing, 85), (composing, 95), (complete, 100)]"
    by (simp add: plan_def report_def)
  from reports_pipeline [of job out] obtain k where k: "k \<le> length (plan ?pid)"
    "notified ?w1 = notified ?w0 @ take k (plan ?pid)"
    "isl (fst (pipeline out job ?w0)) \<or> k = length (plan ?pid)"
    "statuses ?w1 ?pid = (if k = 0 then statuses ?w0 ?pid else Some (plan ?pid ! (k - 1)))"
    by (rule reportsD)
  show ?thesis
  proof (cases "fst (pipeline out job ?w0)")
    case (Inr x)
    with k have k7: "k = 7" by simp
    from Inr have x: "x = ?pid" by (rule pipeline_result)
    have ex: "executeJob out job w = (Inr x, ?w1\<lparr>activeJobs := activeJobs ?w1 - {?pid}\<rparr>)"
      by (simp add: executeJob_exec Inr Let_def)
    have "last (notified w @ plan ?pid) = plan ?pid ! 6"
      by (simp add: plan_def)
    with k k7 x order show ?thesis
      by (intro exI [of _ 7]) (simp add: ex)
  next
    case (Inl e)
    let ?w2 = "snd (updateProgress ?pid error 0 e (Some e) ?w1)"
    have ex: "executeJob out job w = (Inl e, ?w2\<lparr>activeJobs := activeJobs ?w2 - {?pid}\<rparr>)"
      by (simp add: executeJob_exec Inl Let_def)
    from pipeline_failed_length [OF Inl] k have "k < 7" by simp
    with k order show ?thesis
      by (intro exI [of _ k]) (simp add: ex)
  qed
qed

text \<open>
  Claim C6, as the code has it. The calls to the progress callback made by one job are a
  prefix of the seven reports analyzing 10, generating_tts 30, generating_music 50,
  generating_video 70, composing 85, composing 95, complete 100, in this order; the job
  returns exactly when all seven were made; a job that throws has made fewer, and then
  makes one more report, of stage error with progress 0 and the message. Every report
  is stored as the job's status before it is handed to the callback: at each call of
  the callback the store holds the status passed, and when the job has ended the stored
  status is the last report.
\<close>

theorem executeJob_notifications:
  "\<exists>k. notified (snd (executeJob out job w))
          = notified w @ take k (plan (projectId job))
            @ (case fst (executeJob out job w) of
                 Inl e \<Rightarrow> [report (projectId job) error 0 e (Some e)] | Inr x \<Rightarrow> [])
      \<and> (case fst (executeJob out job w) of
            Inl e \<Rightarrow> k < 7 | Inr x \<Rightarrow> k = 7 \<and> x = projectId job)
      \<and> observed (snd (executeJob out job w))
          = observed w @ map Some (drop (length (notified w)) (notified (snd (executeJob out job w))))
      \<and> statuses (snd (executeJob out job w)) (projectId job)
          = Some (last (notified (snd (executeJob out job w))))
      \<and> map (\<lambda>s. (stage s, progress s)) (plan (projectId job))
          = [(analyzing, 10), (generating_tts, 30), (generating_music, 50),
             (generating_video, 70), (composing, 85), (composing, 95), (complete, 100)]"
proof -
  from in_step_executeJob [of out job] obtain xs where
    xs: "notified (snd (executeJob out job w)) = notified w @ xs"
        "observed (snd (executeJob out job w)) = observed w @ map Some xs"
    unfolding in_step_def by blast
  then have "observed (snd (executeJob out job w))
          = observed w @ map Some (drop (length (notified w)) (notified (snd (executeJob out job w))))"
    by simp
  with executeJob_reports_shape [of out job w] show ?thesis
    by (elim exE conjE) (intro exI conjI; assumption)
qed

text \<open>
  Claim C6 as the specification words it fails on a job that ends in an error: when both
  speech providers and the silent track fail, the progress values reported are 10, 30
  and then 0.
\<close>

theorem progress_drops_on_error_counterexample:
  "\<not> sorted (map progress (notified (snd (executeJob speech_down example_job world0))))"
proof -
  let ?w0 = "world0\<lparr>activeJobs := insert (projectId example_job) (activeJobs world0)\<rparr>"
  have t: "tts_duration speech_down (script example_job) = None"
    by (simp add: tts_duration_def speech_down_def providers_down_def all_ok_def)
  have e: "silence_error speech_down = Some ''ffmpeg exited with code 1''"
    by (simp add: speech_down_def)
  have p: "pipeline speech_down example_job ?w0
           = (Inl ''ffmpeg exited with code 1'', snd (produce speech_down example_job ?w0))"
    using produce_tts_failed(1) [OF t, of ?w0] by (simp add: pipeline_def thenE_exec e)
  have n: "notified (snd (produce speech_down example_job ?w0))
           = take 2 (plan (projectId example_job))"
    using produce_tts_failed(2) [OF t, of ?w0] by (simp add: world0_def)
  have "map progress (notified (snd (executeJob speech_down example_job world0))) = [10, 30, 0]"
    by (simp add: executeJob_exec p n Let_def plan_def report_def)
  then show ?thesis by simp
qed

subsection \<open>Complete runs\<close>

lemma deliver_calls_extend:
  "ExtendVideo a b \<in> set (calls (snd (deliver out job p w))) \<longleftrightarrow> ExtendVideo a b \<in> set (calls w)"
  by (auto simp: deliver_defs split: sum.splits option.splits)

lemma deliver_calls:
  "calls (snd (deliver out job p w))
   = calls w @ UploadToDrive p (sanitize_title (title job) @ js ''_'' @ projectId job @ js ''.mp4'')
     # (case upload_result out of
          Inr r \<Rightarrow> UpdateProject (projectId job) (Some (fileId r))
                   # (case db_error_drive out of
                        None \<Rightarrow> [] | Some e \<Rightarrow> [UpdateProject (projectId job) None])
        | Inl e \<Rightarrow> [UpdateProject (projectId job) None])"
  by (auto simp: deliver_defs split: sum.splits option.splits)

lemma deliver_ok:
  assumes "db_error_drive out = None" "db_error_local out = None"
  shows "fst (deliver out job p w) = Inr (projectId job)"
    and "notified (snd (deliver out job p w)) = notified w @ drop 5 (plan (projectId job))"
    and "statuses (snd (deliver out job p w)) (projectId job)
         = Some (report (projectId job) complete 100 ''Video generation complete'' None)"
    and "files (snd (deliver out job p w))
         = (case upload_result out of Inr r \<Rightarrow> (files w)(p := None) | Inl e \<Rightarrow> files w)"
  using assms by (auto simp: deliver_defs fun_eq_iff split: sum.splits)

lemma executeJob_InrD:
  assumes "fst (executeJob out job w) = Inr r"
  shows "\<exists>p. fst (produce out job (w\<lparr>activeJobs := insert (projectId job) (activeJobs w)\<rparr>)) = Inr p
    \<and> fst (deliver out job p
             (snd (produce out job (w\<lparr>activeJobs := insert (projectId job) (activeJobs w)\<rparr>))))
        = Inr r
    \<and> calls (snd (executeJob out job w))
        = calls (snd (deliver out job p
             (snd (produce out job (w\<lparr>activeJobs := insert (projectId job) (activeJobs w)\<rparr>)))))"
  using assms
  by (auto simp: executeJob_exec pipeline_def thenE_exec Let_def split: sum.splits)

lemma executeJob_run:
  assumes pr: "fst (produce out job (w\<lparr>activeJobs := insert (projectId job) (activeJobs w)\<rparr>)) = Inr p"
    and db: "db_error_drive out = None" "db_error_local out = None"
  shows "fst (executeJob out job w) = Inr (projectId job)"
    and "notified (snd (executeJob out job w))
         = notified (snd (produce out job (w\<lparr>activeJobs := insert (projectId job) (activeJobs w)\<rparr>)))
           @ drop 5 (plan (projectId job))"
    and "statuses (snd (executeJob out job w)) (projectId job)
         = Some (report (projectId job) complete 100 ''Video generation complete'' None)"
    and "files (snd (executeJob out job w))
         = files (snd (deliver out job p
             (snd (produce out job (w\<lparr>activeJobs := insert (projectId job) (activeJobs w)\<rparr>)))))"
    and "calls (snd (executeJob out job w))
         = calls (snd (deliver out job p
             (snd (produce out job (w\<lparr>activeJobs := insert (projectId job) (activeJobs w)\<rparr>)))))"
  using pr deliver_ok [OF db, of job p]
  by (simp_all add: executeJob_exec pipeline_def thenE_exec Let_def)


lemma upload_failed_run:
  assumes pr: "fst (produce out job (w\<lparr>activeJobs := insert (projectId job) (activeJobs w)\<rparr>)) = Inr p"
    and up: "upload_result out = Inl e" and db: "db_error_local out = None"
  shows "fst (executeJob out job w) = Inr (projectId job)"
    and "statuses (snd (executeJob out job w)) (projectId job)
         = Some (report (projectId job) complete 100 ''Video generation complete'' None)"
    and "last (notified (snd (executeJob out job w)))
         = report (projectId job) complete 100 ''Video generation complete'' None"
    and "files (snd (executeJob out job w))
         = files (snd (produce out job (w\<lparr>activeJobs := insert (projectId job) (activeJobs w)\<rparr>)))"
  using pr deliver_upload_failed [OF up db, of job p]
  by (simp_all add: executeJob_exec pipeline_def thenE_exec Let_def plan_def)

subsection \<open>Evaluations on the example inputs\<close>

lemma example_words: "length (split_ws (trim (script example_job))) = 6"
  by (simp add: example_job_def js_def trim_def split_ws_def is_space_def)

lemma example_estimate: "targetDuration (estimateSpeechDuration (script example_job)) = 4"
  by (simp add: estimateSpeechDuration_def example_words target_cases Let_def)

lemma measured_numeral:
  "measured 4 = 41 / 10" "measured 12 = 121 / 10" "measured 3 = 31 / 10"
  by (simp_all add: measured_def Math_ceil_def)

lemma target_numeral:
  "targetDuration (decideSoraDuration (41 / 10)) = 8"
  "targetDuration (decideSoraDuration (121 / 10)) = 12"
  "targetDuration (decideSoraDuration (31 / 10)) = 4"
  by (simp_all add: target_cases)

lemma example_nonblank: "nonspace (script example_job) \<noteq> []"
  by (simp add: example_job_def js_def nonspace_def is_space_def)

lemma all_ok_sel [simp]:
  "edge_result (all_ok d) = Inr d" "k2fsa_result (all_ok d) = Inr d"
  "silence_error (all_ok d) = None" "ffprobe_error (all_ok d) = None"
  "music_error (all_ok d) = None" "sora_result (all_ok d) = Inr"
  "extend_error (all_ok d) = None" "subtitle_write_error (all_ok d) = None"
  "compose_error (all_ok d) = None" "db_error_drive (all_ok d) = None"
  "db_error_local (all_ok d) = None"
  by (simp_all add: all_ok_def)

lemma providers_down_sel [simp]:
  "edge_result providers_down = Inl ''service unavailable''"
  "k2fsa_result providers_down = Inl ''space is sleeping''"
  "silence_error providers_down = None" "ffprobe_error providers_down = None"
  "music_error providers_down = None" "sora_result providers_down = Inr"
  "extend_error providers_down = None" "subtitle_write_error providers_down = None"
  "compose_error providers_down = None" "db_error_drive providers_down = None"
  "db_error_local providers_down = None"
  by (simp_all add: providers_down_def)

lemma drive_down_sel [simp]:
  "edge_result (drive_down d) = Inr d"
  "silence_error (drive_down d) = None" "ffprobe_error (drive_down d) = None"
  "music_error (drive_down d) = None" "sora_result (drive_down d) = Inr"
  "extend_error (drive_down d) = None" "subtitle_write_error (drive_down d) = None"
  "compose_error (drive_down d) = None"
  "upload_result (drive_down d) = Inl ''Google Drive not connected''"
  "db_error_local (drive_down d) = None"
  by (simp_all add: drive_down_def)

lemma measured_7: "measured 7 = 71 / 10"
  by (simp add: measured_def Math_ceil_def)

lemma target_7: "targetDuration (decideSoraDuration (71 / 10)) = 8"
  by (simp add: target_cases)

lemma short_clip_sel [simp]:
  "edge_result short_clip = Inr 7"
  "silence_error short_clip = None" "ffprobe_error short_clip = None"
  "music_error short_clip = None" "sora_result short_clip t = Inr 5"
  "extend_error short_clip = None" "subtitle_write_error short_clip = None"
  "compose_error short_clip = None"
  "upload_result short_clip = Inl ''Google Drive not connected''"
  "db_error_local short_clip = None"
  by (simp_all add: short_clip_def drive_down_def all_ok_def)

lemma store_down_sel [simp]:
  "edge_result (store_down d) = Inr d"
  "silence_error (store_down d) = None" "ffprobe_error (store_down d) = None"
  "music_error (store_down d) = None" "sora_result (store_down d) = Inr"
  "extend_error (store_down d) = None" "subtitle_write_error (store_down d) = None"
  "compose_error (store_down d) = None"
  "upload_result (store_down d) = Inl ''Google Drive not connected''"
  "db_error_local (store_down d) = Some ''database connection lost''"
  by (simp_all add: store_down_def drive_down_def all_ok_def)

lemma tts_short_clip: "tts_duration short_clip scr = Some 7"
  by (simp add: tts_duration_def)

lemma tts_store_down: "tts_duration (store_down d) scr = Some d"
  by (simp add: tts_duration_def)

lemma tier_by_words:
  "targetDuration (decideSoraDuration (real n / (5 / 2)))
   = (if n \<le> 10 then 4 else if n \<le> 20 then 8 else 12)"
proof -
  have a: "real n / (5 / 2) < 4 + 1 / 20 \<longleftrightarrow> n \<le> 10"
  proof
    assume "real n / (5 / 2) < 4 + 1 / 20"
    then have "real n < 11" by (simp add: field_simps)
    then show "n \<le> 10" by simp
  next
    assume "n \<le> 10"
    then have "real n \<le> 10" by simp
    then show "real n / (5 / 2) < 4 + 1 / 20" by (simp add: field_simps)
  qed
  have b: "real n / (5 / 2) < 8 + 1 / 20 \<longleftrightarrow> n \<le> 20"
  proof
    assume "real n / (5 / 2) < 8 + 1 / 20"
    then have "real n < 21" by (simp add: field_simps)
    then show "n \<le> 20" by simp
  next
    assume "n \<le> 20"
    then have "real n \<le> 20" by simp
    then show "real n / (5 / 2) < 8 + 1 / 20" by (simp add: field_simps)
  qed
  show ?thesis by (simp only: target_cases a b)
qed

text \<open>
  Claim C7, as the code has it. When both speech providers fail, the orchestrator has
  called Edge TTS and k2-fsa and then synthesizes silence whose length is not the
  word-count estimate but the clip tier that the duration policy picks for it: 4 s up to
  10 words, 8 s up to 20 words, 12 s beyond, the word count being that of the trimmed
  script split at white space and the estimate the count divided by 2.5. If the
  synthesis succeeds, the speech file holds silence of that length.
\<close>

theorem silent_fallback_duration:
  assumes "edge_result out = Inl e1" "k2fsa_result out = Inl e2"
  shows "calls (snd (generateTTSPlaceholder out pid scr emo w))
         = calls w @ [EdgeTTS, K2FSA,
                      SynthSilence (targetDuration (decideSoraDuration
                        (real (length (split_ws (trim scr))) / (5 / 2))))]
    \<and> targetDuration (decideSoraDuration (real (length (split_ws (trim scr))) / (5 / 2)))
       = (if length (split_ws (trim scr)) \<le> 10 then 4
          else if length (split_ws (trim scr)) \<le> 20 then 8 else 12)
    \<and> (silence_error out = None \<longrightarrow>
         fst (generateTTSPlaceholder out pid scr emo w) = Inr (temp_path (pid @ js ''_audio.wav''))
         \<and> files (snd (generateTTSPlaceholder out pid scr emo w)) (temp_path (pid @ js ''_audio.wav''))
           = Some (Audio (targetDuration (decideSoraDuration
                            (real (length (split_ws (trim scr))) / (5 / 2))))))"
proof -
  let ?tier = "targetDuration (decideSoraDuration (real (length (split_ws (trim scr))) / (5 / 2)))"
  have est: "targetDuration (estimateSpeechDuration scr) = ?tier"
    by (simp add: estimateSpeechDuration_def Let_def)
  have c: "calls (snd (generateTTSPlaceholder out pid scr emo w))
           = calls w @ [EdgeTTS, K2FSA, SynthSilence ?tier]"
    using assms by (simp only: tts_run tts_calls_def est sum.case)
  have t: "?tier = (if length (split_ws (trim scr)) \<le> 10 then 4
                    else if length (split_ws (trim scr)) \<le> 20 then 8 else 12)"
    by (rule tier_by_words)
  have f: "silence_error out = None \<longrightarrow>
         fst (generateTTSPlaceholder out pid scr emo w) = Inr (temp_path (pid @ js ''_audio.wav''))
         \<and> files (snd (generateTTSPlaceholder out pid scr emo w)) (temp_path (pid @ js ''_audio.wav''))
           = Some (Audio ?tier)"
    using assms by (simp add: tts_run tts_duration_def est del: of_nat_le_iff)
  from c t f show ?thesis by blast
qed

theorem silent_fallback_duration_witness:
  "edge_result providers_down = Inl ''service unavailable''
   \<and> k2fsa_result providers_down = Inl ''space is sleeping''
   \<and> calls (snd (generateTTSPlaceholder providers_down (projectId example_job)
                   (script example_job) None world0))
      = [EdgeTTS, K2FSA, SynthSilence 4]"
  using silent_fallback_duration [of providers_down "''service unavailable''"
      "''space is sleeping''" "projectId example_job" "script example_job" None world0]
  by (simp add: example_words world0_def)

text \<open>
  Claim C7 as the specification words it fails: the six words of the example script are
  estimated at 2.4 s, and the silent track is 4 s long.
\<close>

theorem silent_fallback_is_tier_counterexample:
  "\<not> (files (snd (generateTTSPlaceholder providers_down (projectId example_job)
                     (script example_job) None world0))
         (temp_path (projectId example_job @ js ''_audio.wav''))
       = Some (Audio (real (length (split_ws (trim (script example_job)))) / (5 / 2))))"
  by (simp add: tts_run tts_duration_def example_estimate example_words)

lemma produce_done:
  assumes "fst (produce out job w) = Inr p"
  obtains d v where "tts_duration out (script job) = Some d" "d \<noteq> 0"
    "sora_result out (targetDuration (decideSoraDuration (measured d))) = Inr v"
    "p = temp_path (projectId job @ js ''_final.mp4'')"
    "files (snd (produce out job w)) p
       = Some (Composed
             (if 1 / 10 < measured d - targetDuration (decideSoraDuration (measured d))
                 \<and> v < measured d
              then measured d + 1 / 10 else v) d)"
    "ExtendVideo (temp_path (projectId job @ js ''_bg.mp4'')) (measured d)
       \<in> set (drop (length (calls w)) (calls (snd (produce out job w))))
     \<longleftrightarrow> 1 / 10 < measured d - targetDuration (decideSoraDuration (measured d))"
proof -
  from produce_InrD [OF assms] obtain d v where h:
    "tts_duration out (script job) = Some d" "d \<noteq> 0"
    "ffprobe_error out = None" "music_error out = None"
    "1 / 10 < measured d - targetDuration (decideSoraDuration (measured d))
       \<longrightarrow> extend_error out = None"
    "nonspace (script job) \<noteq> [] \<and> 0 < measured d \<longrightarrow> subtitle_write_error out = None"
    "compose_error out = None"
    "sora_result out (targetDuration (decideSoraDuration (measured d))) = Inr v"
    by blast
  have e: "1 / 10 < measured d - targetDuration (decideSoraDuration (measured d))
           \<Longrightarrow> extend_error out = None"
    using h(5) by blast
  have s: "nonspace (script job) \<noteq> [] \<Longrightarrow> 0 < measured d \<Longrightarrow> subtitle_write_error out = None"
    using h(6) by blast
  note run = produce_run [OF h(1) h(2) h(3) h(4) e s h(7) h(8), of w]
  have p: "p = temp_path (projectId job @ js ''_final.mp4'')"
    using assms run(1) by simp
  have x: "ExtendVideo (temp_path (projectId job @ js ''_bg.mp4'')) (measured d)
       \<in> set (drop (length (calls w)) (calls (snd (produce out job w))))
     \<longleftrightarrow> 1 / 10 < measured d - targetDuration (decideSoraDuration (measured d))"
  proof -
    let ?c = "1 / 10 < measured d - targetDuration (decideSoraDuration (measured d))"
    let ?E = "ExtendVideo (temp_path (projectId job @ js ''_bg.mp4'')) (measured d)"
    obtain cmd where "calls (snd (produce out job w))
        = calls w @ (tts_calls out (script job)
           @ [SynthMusic (measured d),
              SoraGenerate (targetDuration (decideSoraDuration (measured d)))]
           @ (if ?c then [?E] else []) @ [FfmpegCompose cmd])"
      using run(3) by simp
    then have "drop (length (calls w)) (calls (snd (produce out job w)))
        = tts_calls out (script job)
           @ [SynthMusic (measured d),
              SoraGenerate (targetDuration (decideSoraDuration (measured d)))]
           @ (if ?c then [?E] else []) @ [FfmpegCompose cmd]"
      by simp
    moreover have "?E \<notin> set (tts_calls out (script job))"
      by (auto simp: tts_calls_def split: sum.splits)
    ultimately show ?thesis by (cases ?c) simp_all
  qed
  from h(1) h(2) h(8) p run(2) x that show thesis by simp
qed

lemma produce_calls_prefix:
  assumes "fst (produce out job w) = Inr p"
  shows "\<exists>xs. calls (snd (produce out job w)) = calls w @ xs"
proof -
  from produce_InrD [OF assms] obtain d v where h:
    "tts_duration out (script job) = Some d" "d \<noteq> 0"
    "ffprobe_error out = None" "music_error out = None"
    "1 / 10 < measured d - targetDuration (decideSoraDuration (measured d))
       \<longrightarrow> extend_error out = None"
    "nonspace (script job) \<noteq> [] \<and> 0 < measured d \<longrightarrow> subtitle_write_error out = None"
    "compose_error out = None"
    "sora_result out (targetDuration (decideSoraDuration (measured d))) = Inr v"
    by blast
  have e: "1 / 10 < measured d - targetDuration (decideSoraDuration (measured d))
           \<Longrightarrow> extend_error out = None"
    using h(5) by blast
  have s: "nonspace (script job) \<noteq> [] \<Longrightarrow> 0 < measured d \<Longrightarrow> subtitle_write_error out = None"
    using h(6) by blast
  from produce_run(3) [OF h(1) h(2) h(3) h(4) e s h(7) h(8), of w] show ?thesis by simp
qed

lemma tts_all_ok: "tts_duration (all_ok d) scr = Some d"
  by (simp add: tts_duration_def)

lemma produce_all_ok_12:
  "fst (produce (all_ok 12) example_job w) = Inr (temp_path (projectId example_job @ js ''_final.mp4''))"
  by (rule produce_run(1) [OF tts_all_ok]) (simp_all add: measured_numeral target_numeral)

lemma calls_all_ok_12:
  "\<exists>cmd. calls (snd (produce (all_ok 12) example_job w))
     = calls w @ [EdgeTTS, SynthMusic (121 / 10), SoraGenerate 12, FfmpegCompose cmd]"
proof -
  have "calls (snd (produce (all_ok 12) example_job w))
     = calls w @ tts_calls (all_ok 12) (script example_job)
           @ [SynthMusic (measured 12),
              SoraGenerate (targetDuration (decideSoraDuration (measured 12)))]
           @ (if 1 / 10 < measured 12 - targetDuration (decideSoraDuration (measured 12))
              then [ExtendVideo (temp_path (projectId example_job @ js ''_bg.mp4'')) (measured 12)]
              else [])
           @ [FfmpegCompose
               (compose_command_of (projectId example_job)
                  (temp_path (projectId example_job @ js ''_audio.wav''))
                  (temp_path (projectId example_job @ js ''_music.mp3''))
                  (if 1 / 10 < measured 12 - targetDuration (decideSoraDuration (measured 12))
                      \<and> (12::real) < measured 12
                   then temp_path (projectId example_job @ js ''_bg_extended.mp4'')
                   else temp_path (projectId example_job @ js ''_bg.mp4''))
                  (script example_job) (title example_job)
                  (if nonspace (script example_job) = [] \<or> measured 12 \<le> 0 then None
                   else Some (temp_path (projectId example_job @ js ''_subtitles.ass''))))]"
    by (rule produce_run(3) [OF tts_all_ok]) (simp_all add: measured_numeral target_numeral)
  then show ?thesis
    by (simp add: measured_numeral target_numeral tts_calls_def)
qed

lemma produce_short_clip:
  "fst (produce short_clip example_job w) = Inr (temp_path (projectId example_job @ js ''_final.mp4''))"
  "files (snd (produce short_clip example_job w)) (temp_path (projectId example_job @ js ''_final.mp4''))
     = Some (Composed 5 7)"
proof -
  note run = produce_run [OF tts_short_clip, where job = example_job and w = w and v = 5]
  show "fst (produce short_clip example_job w) = Inr (temp_path (projectId example_job @ js ''_final.mp4''))"
    by (rule run(1)) (simp_all add: measured_7 target_7)
  have "files (snd (produce short_clip example_job w)) (temp_path (projectId example_job @ js ''_final.mp4''))
     = Some (Composed
             (if 1 / 10 < measured 7 - targetDuration (decideSoraDuration (measured 7))
                 \<and> (5::real) < measured 7
              then measured 7 + 1 / 10 else 5) 7)"
    by (rule run(2)) (simp_all add: measured_7 target_7)
  then show "files (snd (produce short_clip example_job w)) (temp_path (projectId example_job @ js ''_final.mp4''))
     = Some (Composed 5 7)"
    by (simp add: measured_7 target_7)
qed

lemma produce_all_ok_3:
  "fst (produce (all_ok 3) example_job w) = Inr (temp_path (projectId example_job @ js ''_final.mp4''))"
  by (rule produce_run(1) [OF tts_all_ok]) (simp_all add: measured_numeral target_numeral)

text \<open>
  Claim C2, as the code has it. For every job that returns: the measured duration is the
  real duration of the speech rounded up to the next tenth plus a tenth, so it exceeds
  the real duration by a tenth of a second or more; \<open>extendVideoToAudioLength\<close> is called
  exactly when the measured duration exceeds the chosen clip duration by more than
  0.1 s, and it lengthens the clip, to the measured duration plus 0.1 s, exactly when
  moreover the clip delivered is shorter than the measured duration; otherwise the
  picture of the asset is the clip as the generator delivered it. So the picture is at
  least as long as the speech exactly when the clip was lengthened or was long enough
  as delivered, and it is whenever the generator delivered at least the duration it
  was asked for.
\<close>

theorem video_covers_speech:
  assumes "fst (executeJob out job w) = Inr r"
  shows "\<exists>d v picture.
      tts_duration out (script job) = Some d
      \<and> sora_result out (targetDuration (decideSoraDuration (measured d))) = Inr v
      \<and> d + 1 / 10 \<le> measured d
      \<and> (ExtendVideo (temp_path (projectId job @ js ''_bg.mp4'')) (measured d)
            \<in> set (drop (length (calls w)) (calls (snd (executeJob out job w))))
          \<longleftrightarrow> 1 / 10 < measured d - targetDuration (decideSoraDuration (measured d)))
      \<and> files (snd (produce out job (w\<lparr>activeJobs := insert (projectId job) (activeJobs w)\<rparr>)))
           (temp_path (projectId job @ js ''_final.mp4''))
         = Some (Composed picture d)
      \<and> picture = (if 1 / 10 < measured d - targetDuration (decideSoraDuration (measured d))
                       \<and> v < measured d
                    then measured d + 1 / 10 else v)
      \<and> (d \<le> picture
          \<longleftrightarrow> (1 / 10 < measured d - targetDuration (decideSoraDuration (measured d))
                \<and> v < measured d)
              \<or> d \<le> v)
      \<and> (targetDuration (decideSoraDuration (measured d)) \<le> v \<longrightarrow> d \<le> picture)"
proof -
  let ?w0 = "w\<lparr>activeJobs := insert (projectId job) (activeJobs w)\<rparr>"
  let ?B = "temp_path (projectId job @ js ''_bg.mp4'')"
  from executeJob_InrD [OF assms(1)] obtain p where p: "fst (produce out job ?w0) = Inr p"
    and c: "calls (snd (executeJob out job w))
            = calls (snd (deliver out job p (snd (produce out job ?w0))))"
    by blast
  from p obtain d v where h: "tts_duration out (script job) = Some d"
    "sora_result out (targetDuration (decideSoraDuration (measured d))) = Inr v"
    "p = temp_path (projectId job @ js ''_final.mp4'')"
    "files (snd (produce out job ?w0)) p
       = Some (Composed
             (if 1 / 10 < measured d - targetDuration (decideSoraDuration (measured d))
                 \<and> v < measured d
              then measured d + 1 / 10 else v) d)"
    "ExtendVideo ?B (measured d)
       \<in> set (drop (length (calls ?w0)) (calls (snd (produce out job ?w0))))
     \<longleftrightarrow> 1 / 10 < measured d - targetDuration (decideSoraDuration (measured d))"
    by (rule produce_done)
  let ?t = "targetDuration (decideSoraDuration (measured d))"
  let ?V = "if 1 / 10 < measured d - ?t \<and> v < measured d then measured d + 1 / 10 else v"
  have m: "d + 1 / 10 \<le> measured d" by (rule measured_ge)
  have cover: "d \<le> ?V \<longleftrightarrow> (1 / 10 < measured d - ?t \<and> v < measured d) \<or> d \<le> v"
    using m by auto
  have contract: "?t \<le> v \<longrightarrow> d \<le> ?V"
    using m by auto
  have d0: "drop (length (calls w)) (calls (snd (deliver out job p (snd (produce out job ?w0)))))
            = drop (length (calls ?w0)) (calls (snd (produce out job ?w0)))
              @ drop (length (calls (snd (produce out job ?w0))))
                  (calls (snd (deliver out job p (snd (produce out job ?w0)))))"
  proof -
    obtain xs where xs: "calls (snd (produce out job ?w0)) = calls ?w0 @ xs"
      using produce_calls_prefix [OF p] by blast
    obtain ys where ys: "calls (snd (deliver out job p (snd (produce out job ?w0))))
        = calls (snd (produce out job ?w0)) @ ys"
      using deliver_calls by blast
    show ?thesis by (simp add: ys xs)
  qed
  have nd: "ExtendVideo ?B (measured d)
      \<notin> set (drop (length (calls (snd (produce out job ?w0))))
                (calls (snd (deliver out job p (snd (produce out job ?w0))))))"
    by (simp add: deliver_calls split: sum.splits option.splits)
  have ext: "ExtendVideo ?B (measured d)
            \<in> set (drop (length (calls w)) (calls (snd (executeJob out job w))))
          \<longleftrightarrow> 1 / 10 < measured d - ?t"
    unfolding c d0 using h(5) nd by simp
  have f: "files (snd (produce out job ?w0)) (temp_path (projectId job @ js ''_final.mp4''))
       = Some (Composed ?V d)"
    using h(3) h(4) by simp
  show ?thesis
    apply (rule exI [of _ d])
    apply (rule exI [of _ v])
    apply (rule exI [of _ ?V])
    apply (intro conjI)
           apply (rule h(1))
          apply (rule h(2))
         apply (rule m)
        apply (rule ext)
       apply (rule f)
      apply (rule refl)
     apply (rule cover)
    apply (rule contract)
    done
qed

theorem video_covers_speech_witness:
  "fst (executeJob (all_ok 12) example_job world0) = Inr (projectId example_job)
   \<and> tts_duration (all_ok 12) (script example_job) = Some 12
   \<and> sora_result (all_ok 12) 12 = Inr 12
   \<and> (\<exists>picture.
        files (snd (produce (all_ok 12) example_job
                      (world0\<lparr>activeJobs := insert (projectId example_job) (activeJobs world0)\<rparr>)))
          (temp_path (projectId example_job @ js ''_final.mp4''))
        = Some (Composed picture 12)
        \<and> 12 \<le> picture)"
proof -
  have fin: "fst (executeJob (all_ok 12) example_job world0) = Inr (projectId example_job)"
    by (rule executeJob_run(1) [OF produce_all_ok_12]) simp_all
  from video_covers_speech [OF fin] fin show ?thesis
    by (auto simp: tts_all_ok)
qed

text \<open>
  Claim C2 as the specification words it fails twice. Speech of 12 s is measured as
  12.1 s, which exceeds the chosen clip duration 12, and the clip is not extended (the
  job completes). And the orchestrator does not look at the clip it receives unless it
  extends it: with speech of 7 s the clip asked for is 8 s long, no extension is due,
  and when the generator delivers 5 s the job completes with an asset whose picture
  lasts 5 s under 7 s of speech.
\<close>

theorem video_not_extended_counterexample:
  "targetDuration (decideSoraDuration (measured 12)) < measured 12
   \<and> fst (executeJob (all_ok 12) example_job world0) = Inr (projectId example_job)
   \<and> filter is_extension (calls (snd (executeJob (all_ok 12) example_job world0))) = []
   \<and> tts_duration short_clip (script example_job) = Some 7
   \<and> fst (executeJob short_clip example_job world0) = Inr (projectId example_job)
   \<and> files (snd (executeJob short_clip example_job world0))
        (temp_path (projectId example_job @ js ''_final.mp4''))
      = Some (Composed 5 7)"
proof -
  let ?w0 = "world0\<lparr>activeJobs := insert (projectId example_job) (activeJobs world0)\<rparr>"
  obtain cmd where c: "calls (snd (produce (all_ok 12) example_job ?w0))
     = calls ?w0 @ [EdgeTTS, SynthMusic (121 / 10), SoraGenerate 12, FfmpegCompose cmd]"
    using calls_all_ok_12 by blast
  have "calls (snd (executeJob (all_ok 12) example_job world0))
        = calls (snd (deliver (all_ok 12) example_job
                   (temp_path (projectId example_job @ js ''_final.mp4''))
                   (snd (produce (all_ok 12) example_job ?w0))))"
    by (rule executeJob_run(5) [OF produce_all_ok_12]) simp_all
  moreover have "calls ?w0 = []" by (simp add: world0_def)
  moreover have "upload_result (all_ok 12)
      = Inr \<lparr> fileId = js ''f1'', webViewLink = js ''view'', webContentLink = js ''content'' \<rparr>"
    by (simp add: all_ok_def)
  ultimately have A: "targetDuration (decideSoraDuration (measured 12)) < measured 12
   \<and> filter is_extension (calls (snd (executeJob (all_ok 12) example_job world0))) = []"
    by (simp add: deliver_calls c measured_numeral target_numeral)
  have B: "fst (executeJob (all_ok 12) example_job world0) = Inr (projectId example_job)"
    by (rule executeJob_run(1) [OF produce_all_ok_12]) simp_all
  have u: "upload_result short_clip = Inl ''Google Drive not connected''"
    and db: "db_error_local short_clip = None" by simp_all
  note run = upload_failed_run [OF produce_short_clip(1) u db, of world0]
  have C: "fst (executeJob short_clip example_job world0) = Inr (projectId example_job)"
    by (rule run(1))
  have D: "files (snd (executeJob short_clip example_job world0))
        (temp_path (projectId example_job @ js ''_final.mp4''))
      = Some (Composed 5 7)"
    by (simp add: run(4) produce_short_clip(2))
  from A B C D show ?thesis by (simp add: tts_short_clip)
qed

subsection \<open>Speech fallback\<close>

lemma tier_nonzero: "targetDuration (decideSoraDuration x) \<noteq> 0"
  by (simp add: target_cases)

lemma fallback_run:
  assumes down: "edge_result out = Inl e1" "k2fsa_result out = Inl e2"
    and silence: "silence_error out = None"
    and rest: "ffprobe_error out = None" "music_error out = None" "extend_error out = None"
      "subtitle_write_error out = None" "compose_error out = None"
      "db_error_drive out = None" "db_error_local out = None"
    and sora: "\<And>t. \<not> isl (sora_result out t)"
  shows "fst (executeJob out job w) = Inr (projectId job)"
    and "notified (snd (executeJob out job w)) = notified w @ plan (projectId job)"
    and "filter is_speech_provider (drop (length (calls w)) (calls (snd (executeJob out job w))))
         = [EdgeTTS, K2FSA]"
    and "SynthSilence (targetDuration (estimateSpeechDuration (script job)))
         \<in> set (calls (snd (executeJob out job w)))"
proof -
  let ?pid = "projectId job"
  let ?w0 = "w\<lparr>activeJobs := insert ?pid (activeJobs w)\<rparr>"
  let ?d = "targetDuration (estimateSpeechDuration (script job))"
  have tts: "tts_duration out (script job) = Some ?d"
    using down silence by (simp add: tts_duration_def)
  have d0: "?d \<noteq> 0"
    by (simp add: estimateSpeechDuration_def Let_def tier_nonzero)
  obtain v where v: "sora_result out (targetDuration (decideSoraDuration (measured ?d))) = Inr v"
    using sora [of "targetDuration (decideSoraDuration (measured ?d))"]
    by (cases "sora_result out (targetDuration (decideSoraDuration (measured ?d)))") simp_all
  note run = produce_run [OF tts d0 rest(1) rest(2) rest(3) rest(4) rest(5) v, of ?w0]
  note ex = executeJob_run [OF run(1) rest(6) rest(7)]
  show "fst (executeJob out job w) = Inr ?pid" by (rule ex(1))
  have "notified (snd (executeJob out job w))
        = notified w @ take 5 (plan ?pid) @ drop 5 (plan ?pid)"
    by (simp add: ex(2) run(4))
  then show "notified (snd (executeJob out job w)) = notified w @ plan ?pid" by simp
  have tc: "tts_calls out (script job) = [EdgeTTS, K2FSA, SynthSilence ?d]"
    using down by (simp add: tts_calls_def)
  obtain xs where xs: "calls (snd (executeJob out job w))
      = calls w @ [EdgeTTS, K2FSA, SynthSilence ?d] @ xs"
    "filter is_speech_provider xs = []"
    using ex(5) run(3) by (simp add: deliver_calls tc split: sum.splits option.splits)
  from xs show "filter is_speech_provider
      (drop (length (calls w)) (calls (snd (executeJob out job w)))) = [EdgeTTS, K2FSA]"
    by simp
  from xs show "SynthSilence ?d \<in> set (calls (snd (executeJob out job w)))"
    by simp
qed

lemma providers_down_sora: "\<not> isl (sora_result providers_down t)"
  by simp

text \<open>
  Claim C4, as the code has it. In the generating_tts stage the orchestrator tries two
  providers, Edge TTS and then k2-fsa, and after both have failed it synthesizes
  silence; there is no third provider. If that synthesis and every later step succeed,
  the job returns: all seven reports are made, the last one of stage complete, and no
  error is reported.
\<close>

theorem speech_failure_not_fatal:
  assumes "edge_result out = Inl e1" "k2fsa_result out = Inl e2"
    and "silence_error out = None"
    and "ffprobe_error out = None" "music_error out = None" "extend_error out = None"
      "subtitle_write_error out = None" "compose_error out = None"
      "db_error_drive out = None" "db_error_local out = None"
    and "\<And>t. \<not> isl (sora_result out t)"
  shows "fst (executeJob out job w) = Inr (projectId job)
    \<and> notified (snd (executeJob out job w)) = notified w @ plan (projectId job)
    \<and> stage (last (notified (snd (executeJob out job w)))) = complete
    \<and> filter is_speech_provider (drop (length (calls w)) (calls (snd (executeJob out job w))))
       = [EdgeTTS, K2FSA]
    \<and> SynthSilence (targetDuration (estimateSpeechDuration (script job)))
       \<in> set (calls (snd (executeJob out job w)))"
proof -
  note run = fallback_run [OF assms, where job = job and w = w]
  have "stage (last (notified w @ plan (projectId job))) = complete"
    by (simp add: plan_def report_def)
  with run show ?thesis by simp
qed

theorem speech_failure_not_fatal_witness:
  "edge_result providers_down = Inl ''service unavailable''
   \<and> k2fsa_result providers_down = Inl ''space is sleeping''
   \<and> silence_error providers_down = None
   \<and> fst (executeJob providers_down example_job world0) = Inr (projectId example_job)
   \<and> stage (last (notified (snd (executeJob providers_down example_job world0)))) = complete"
  using speech_failure_not_fatal [of providers_down "''service unavailable''"
      "''space is sleeping''" example_job world0]
  by (simp add: plan_def report_def)

text \<open>
  Claim C4 as the specification words it fails: the run in which its providers fail
  has asked two speech providers, not three.
\<close>

theorem no_third_provider_counterexample:
  "\<not> length (filter is_speech_provider
               (calls (snd (executeJob providers_down example_job world0)))) = 3"
proof -
  have "filter is_speech_provider
          (drop (length (calls world0)) (calls (snd (executeJob providers_down example_job world0))))
        = [EdgeTTS, K2FSA]"
    by (rule fallback_run(3) [of providers_down "''service unavailable''" "''space is sleeping''"])
       simp_all
  moreover have "calls world0 = []" by (simp add: world0_def)
  ultimately show ?thesis by simp
qed

subsection \<open>Upload\<close>

lemma compose_kept:
  assumes "fst (produce out job w) = Inr p"
  shows "p = temp_path (projectId job @ js ''_final.mp4'')"
    and "files (snd (produce out job w)) p \<noteq> None"
  using assms by (rule produce_done, simp)+

lemma tts_drive_down: "tts_duration (drive_down d) scr = Some d"
  by (simp add: tts_duration_def)

lemma produce_drive_down_3:
  "fst (produce (drive_down 3) example_job w) = Inr (temp_path (projectId example_job @ js ''_final.mp4''))"
  by (rule produce_run(1) [OF tts_drive_down]) (simp_all add: measured_numeral target_numeral)

lemma produce_store_down_3:
  "fst (produce (store_down 3) example_job w) = Inr (temp_path (projectId example_job @ js ''_final.mp4''))"
  by (rule produce_run(1) [OF tts_store_down]) (simp_all add: measured_numeral target_numeral)

lemma deliver_store_failed:
  assumes "upload_result out = Inl e" "db_error_local out = Some m"
  shows "fst (deliver out job p w) = Inl m"
    and "notified (snd (deliver out job p w)) = notified w @ [plan (projectId job) ! 5]"
    and "files (snd (deliver out job p w)) = files w"
  using assms by (simp_all add: deliver_defs)

text \<open>
  Claim C8, as the code has it. If stages 1 to 5 have produced the composed asset, the
  upload to Drive throws and the project store accepts the local video URL, then the job
  returns; its stored status and its last report are stage complete with progress 100;
  the composed asset is still in the working directory, untouched; and \<open>getVideoPath\<close>
  finds it.
\<close>

theorem upload_failure_not_fatal:
  assumes "fst (produce out job (w\<lparr>activeJobs := insert (projectId job) (activeJobs w)\<rparr>)) = Inr p"
    and "upload_result out = Inl e" and "db_error_local out = None"
  shows "fst (executeJob out job w) = Inr (projectId job)
    \<and> statuses (snd (executeJob out job w)) (projectId job)
       = Some (report (projectId job) complete 100 ''Video generation complete'' None)
    \<and> last (notified (snd (executeJob out job w)))
       = report (projectId job) complete 100 ''Video generation complete'' None
    \<and> files (snd (executeJob out job w)) p
       = files (snd (produce out job (w\<lparr>activeJobs := insert (projectId job) (activeJobs w)\<rparr>))) p
    \<and> files (snd (executeJob out job w)) p \<noteq> None
    \<and> getVideoPath (snd (executeJob out job w)) (projectId job) = Some p"
proof -
  note run = upload_failed_run [OF assms]
  note kept = compose_kept [OF assms(1)]
  from kept have g: "getVideoPath (snd (executeJob out job w)) (projectId job) = Some p"
    by (simp add: getVideoPath_def run(4))
  from run kept g show ?thesis by simp
qed

theorem upload_failure_not_fatal_witness:
  "fst (produce (drive_down 3) example_job
         (world0\<lparr>activeJobs := insert (projectId example_job) (activeJobs world0)\<rparr>))
     = Inr (temp_path (projectId example_job @ js ''_final.mp4''))
   \<and> upload_result (drive_down 3) = Inl ''Google Drive not connected''
   \<and> db_error_local (drive_down 3) = None
   \<and> fst (executeJob (drive_down 3) example_job world0) = Inr (projectId example_job)
   \<and> getVideoPath (snd (executeJob (drive_down 3) example_job world0)) (projectId example_job)
     = Some (temp_path (projectId example_job @ js ''_final.mp4''))"
  using upload_failure_not_fatal [OF produce_drive_down_3, of "''Google Drive not connected''" world0]
    produce_drive_down_3
  by simp

text \<open>
  Claim C8 as the specification words it fails when the project store fails too: the
  update of the project in the \<open>catch\<close> block of the upload stands inside the \<open>try\<close> block
  of the job, so if it throws after the upload has failed, the job ends in stage error
  with progress 0.
\<close>

theorem upload_failure_store_down_counterexample:
  "fst (produce (store_down 3) example_job
         (world0\<lparr>activeJobs := insert (projectId example_job) (activeJobs world0)\<rparr>))
     = Inr (temp_path (projectId example_job @ js ''_final.mp4''))
   \<and> upload_result (store_down 3) = Inl ''Google Drive not connected''
   \<and> fst (executeJob (store_down 3) example_job world0) = Inl ''database connection lost''
   \<and> stage (last (notified (snd (executeJob (store_down 3) example_job world0)))) = error
   \<and> progress (last (notified (snd (executeJob (store_down 3) example_job world0)))) = 0"
proof -
  let ?w0 = "world0\<lparr>activeJobs := insert (projectId example_job) (activeJobs world0)\<rparr>"
  let ?P = "temp_path (projectId example_job @ js ''_final.mp4'')"
  have p: "fst (produce (store_down 3) example_job ?w0) = Inr ?P"
    by (rule produce_store_down_3)
  have u: "upload_result (store_down 3) = Inl ''Google Drive not connected''"
    and s: "db_error_local (store_down 3) = Some ''database connection lost''"
    by simp_all
  note d = deliver_store_failed [OF u s, of example_job ?P "snd (produce (store_down 3) example_job ?w0)"]
  have pl: "fst (pipeline (store_down 3) example_job ?w0) = Inl ''database connection lost''"
    using p d(1) by (simp add: pipeline_def thenE_exec)
  have "executeJob (store_down 3) example_job world0
      = (Inl ''database connection lost'',
         (snd (updateProgress (projectId example_job) error 0 ''database connection lost''
               (Some ''database connection lost'') (snd (pipeline (store_down 3) example_job ?w0))))
           \<lparr>activeJobs := activeJobs (snd (updateProgress (projectId example_job) error 0
               ''database connection lost'' (Some ''database connection lost'')
               (snd (pipeline (store_down 3) example_job ?w0)))) - {projectId example_job}\<rparr>)"
    by (simp add: executeJob_exec pl Let_def)
  then show ?thesis using p u by (simp add: report_def)
qed

subsection \<open>Compositing\<close>

lemma compose_mix:
  assumes "fs b = Some (Video v)" "fs a = Some (Audio d)" "fs m = Some (Audio l)"
  shows "run_compose fs (compose_command_of pid a m b scr ttl sub) = Some (Composed v d)"
  using assms
  by (simp add: run_compose_def compose_command_of_def stream_length_def Let_def
      split: option.splits)

text \<open>
  Claim C9. In every run that reaches the compositing step and composes: the speech is
  \<open>d\<close> seconds long and the music was made as long as the measured duration, which is
  more; the compositing command, the last call of the run, has the speech as input 1 and
  the music as input 2, and its audio filter mixes the audio of these two inputs only,
  with weights 1 and 0.2, never the audio of input 0, the background clip; and the sound
  of the asset is as long as the shorter of the two, which is the speech. (The filter
  reaches this with \<open>duration=first\<close>, the speech being the first input of the mix.)
\<close>

theorem mix_is_speech_and_music:
  assumes "fst (produce out job w) = Inr p"
  shows "\<exists>d picture cmd.
      tts_duration out (script job) = Some d
      \<and> SynthMusic (measured d) \<in> set (drop (length (calls w)) (calls (snd (produce out job w))))
      \<and> last (calls (snd (produce out job w))) = FfmpegCompose cmd
      \<and> cmd_inputs cmd ! 1 = temp_path (projectId job @ js ''_audio.wav'')
      \<and> cmd_inputs cmd ! 2 = temp_path (projectId job @ js ''_music.mp3'')
      \<and> cmd_audioFilter cmd
         = \<lparr> amix_inputs = [AudioOf 1, AudioOf 2], amix_duration = First,
             amix_weights = [1, 2 / 10] \<rparr>
      \<and> AudioOf 0 \<notin> set (amix_inputs (cmd_audioFilter cmd))
      \<and> files (snd (produce out job w)) p = Some (Composed picture (min d (measured d)))
      \<and> min d (measured d) = d"
proof -
  from produce_InrD [OF assms] obtain d v where h:
    "tts_duration out (script job) = Some d" "d \<noteq> 0"
    "ffprobe_error out = None" "music_error out = None"
    "1 / 10 < measured d - targetDuration (decideSoraDuration (measured d))
       \<longrightarrow> extend_error out = None"
    "nonspace (script job) \<noteq> [] \<and> 0 < measured d \<longrightarrow> subtitle_write_error out = None"
    "compose_error out = None"
    "sora_result out (targetDuration (decideSoraDuration (measured d))) = Inr v"
    by blast
  have e: "1 / 10 < measured d - targetDuration (decideSoraDuration (measured d))
           \<Longrightarrow> extend_error out = None"
    using h(5) by blast
  have s: "nonspace (script job) \<noteq> [] \<Longrightarrow> 0 < measured d \<Longrightarrow> subtitle_write_error out = None"
    using h(6) by blast
  note run = produce_run [OF h(1) h(2) h(3) h(4) e s h(7) h(8), of w]
  let ?t = "targetDuration (decideSoraDuration (measured d))"
  let ?c = "1 / 10 < measured d - ?t"
  let ?cmd = "compose_command_of (projectId job)
                  (temp_path (projectId job @ js ''_audio.wav''))
                  (temp_path (projectId job @ js ''_music.mp3''))
                  (if ?c \<and> v < measured d
                   then temp_path (projectId job @ js ''_bg_extended.mp4'')
                   else temp_path (projectId job @ js ''_bg.mp4''))
                  (script job) (title job)
                  (if nonspace (script job) = [] \<or> measured d \<le> 0 then None
                   else Some (temp_path (projectId job @ js ''_subtitles.ass'')))"
  let ?V = "if ?c \<and> v < measured d then measured d + 1 / 10 else v"
  have p: "p = temp_path (projectId job @ js ''_final.mp4'')"
    using assms run(1) by simp
  have m: "min d (measured d) = d"
    using measured_ge [of d] by simp
  have cs: "calls (snd (produce out job w))
      = calls w @ (tts_calls out (script job)
           @ [SynthMusic (measured d), SoraGenerate ?t]
           @ (if ?c then [ExtendVideo (temp_path (projectId job @ js ''_bg.mp4'')) (measured d)]
              else [])) @ [FfmpegCompose ?cmd]"
    using run(3) by simp
  have l: "last (calls (snd (produce out job w))) = FfmpegCompose ?cmd"
    unfolding cs by simp
  have mu: "SynthMusic (measured d)
      \<in> set (drop (length (calls w)) (calls (snd (produce out job w))))"
    unfolding cs by simp
  have i: "cmd_inputs ?cmd ! 1 = temp_path (projectId job @ js ''_audio.wav'')"
    "cmd_inputs ?cmd ! 2 = temp_path (projectId job @ js ''_music.mp3'')"
    "cmd_audioFilter ?cmd
         = \<lparr> amix_inputs = [AudioOf 1, AudioOf 2], amix_duration = First,
             amix_weights = [1, 2 / 10] \<rparr>"
    "AudioOf 0 \<notin> set (amix_inputs (cmd_audioFilter ?cmd))"
    by (simp_all add: compose_command_of_def Let_def)
  have f0: "files (snd (produce out job w)) (temp_path (projectId job @ js ''_final.mp4''))
      = Some (Composed ?V d)"
    using run(2) by simp
  have f: "files (snd (produce out job w)) p = Some (Composed ?V (min d (measured d)))"
    using f0 by (simp only: p m)
  show ?thesis
    apply (rule exI [of _ d])
    apply (rule exI [of _ ?V])
    apply (rule exI [of _ ?cmd])
    apply (intro conjI)
            apply (rule h(1))
           apply (rule mu)
          apply (rule l)
         apply (rule i(1))
        apply (rule i(2))
       apply (rule i(3))
      apply (rule i(4))
     apply (rule f)
    apply (rule m)
    done
qed

theorem mix_is_speech_and_music_witness:
  "fst (produce (all_ok 3) example_job world0)
     = Inr (temp_path (projectId example_job @ js ''_final.mp4''))
   \<and> tts_duration (all_ok 3) (script example_job) = Some 3
   \<and> measured 3 = 31 / 10
   \<and> (\<exists>picture. files (snd (produce (all_ok 3) example_job world0))
          (temp_path (projectId example_job @ js ''_final.mp4''))
        = Some (Composed picture 3))"
  using mix_is_speech_and_music [OF produce_all_ok_3, of world0] produce_all_ok_3 [of world0]
  by (auto simp: tts_all_ok measured_numeral)

subsection \<open>Subtitles\<close>

lemma subtitles_blank_world:
  "nonspace scr = [] \<Longrightarrow> snd (generateSubtitleFile out scr T path w) = w"
  unfolding generateSubtitleFile_def Let_def blank_iff by simp

text \<open>
  Claim C10. For every positive audio duration, \<open>generateSubtitleFile\<close> returns null
  exactly when the script has no code unit other than white space, and then it leaves
  the world as it is, so no file is written. Without a subtitle path the video filter of
  the compositing command is the static text, the first 100 code units of the script
  followed by three dots if the script is longer; and the compositing step, if ffmpeg
  does not fail on its inputs, returns the final asset's path.
\<close>

theorem blank_script_static_subtitle:
  assumes "0 < T"
  shows "(fst (generateSubtitleFile out scr T path w) = Inr None \<longleftrightarrow> nonspace scr = [])
    \<and> (nonspace scr = [] \<longrightarrow> snd (generateSubtitleFile out scr T path w) = w)
    \<and> cmd_videoFilter (compose_command_of pid a m b scr ttl (truthy None))
       = StaticText (VideoOf 0) (escapeText ttl)
           (escapeText (take 100 scr @ (if 100 < length scr then js ''...'' else [])))
    \<and> (compose_error out = None \<and> files w a = Some (Audio d) \<and> files w m = Some (Audio l)
        \<and> files w b = Some (Video v) \<longrightarrow>
        fst (composeVideo out pid a m b scr ttl (truthy None) w)
          = Inr (temp_path (pid @ js ''_final.mp4''))
        \<and> calls (snd (composeVideo out pid a m b scr ttl (truthy None) w))
          = calls w @ [FfmpegCompose (compose_command_of pid a m b scr ttl (truthy None))])"
proof -
  have 1: "fst (generateSubtitleFile out scr T path w) = Inr None \<longleftrightarrow> nonspace scr = []"
    using assms by (auto simp: subtitles_run(1) split: option.splits)
  have 2: "nonspace scr = [] \<longrightarrow> snd (generateSubtitleFile out scr T path w) = w"
    by (simp add: subtitles_blank_world)
  have 3: "cmd_videoFilter (compose_command_of pid a m b scr ttl (truthy None))
       = StaticText (VideoOf 0) (escapeText ttl)
           (escapeText (take 100 scr @ (if 100 < length scr then js ''...'' else [])))"
    by (simp add: compose_command_of_def truthy_def Let_def)
  have 4: "compose_error out = None \<and> files w a = Some (Audio d) \<and> files w m = Some (Audio l)
        \<and> files w b = Some (Video v) \<longrightarrow>
        fst (composeVideo out pid a m b scr ttl (truthy None) w)
          = Inr (temp_path (pid @ js ''_final.mp4''))
        \<and> calls (snd (composeVideo out pid a m b scr ttl (truthy None) w))
          = calls w @ [FfmpegCompose (compose_command_of pid a m b scr ttl (truthy None))]"
  proof (intro impI, elim conjE)
    assume h: "compose_error out = None" "files w a = Some (Audio d)"
      "files w m = Some (Audio l)" "files w b = Some (Video v)"
    show "fst (composeVideo out pid a m b scr ttl (truthy None) w)
          = Inr (temp_path (pid @ js ''_final.mp4''))
        \<and> calls (snd (composeVideo out pid a m b scr ttl (truthy None) w))
          = calls w @ [FfmpegCompose (compose_command_of pid a m b scr ttl (truthy None))]"
      using compose_run(1) [OF h] compose_run(3) [OF h] by simp
  qed
  from 1 2 3 4 show ?thesis by blast
qed

theorem blank_script_static_subtitle_witness:
  "(0::real) < 41 / 10
   \<and> nonspace (js ''   '') = []
   \<and> fst (generateSubtitleFile (all_ok 4) (js ''   '') (41 / 10) (js ''s.ass'') world0) = Inr None
   \<and> snd (generateSubtitleFile (all_ok 4) (js ''   '') (41 / 10) (js ''s.ass'') world0) = world0"
proof -
  have b: "nonspace (js ''   '') = []" by (simp add: nonspace_def js_def is_space_def)
  have p: "(0::real) < 41 / 10" by simp
  from blank_script_static_subtitle [OF p, of "all_ok 4" "js ''   ''" "js ''s.ass''" world0] b p
  show ?thesis by simp
qed

section \<open>Properties of the job queue\<close>

lemma job_reports_terminal:
  "job_reports sub \<noteq> []
   \<and> (stage (last (job_reports sub)) = complete \<or> stage (last (job_reports sub)) = error)"
proof -
  let ?out = "sub_outcomes sub" and ?job = "sub_job sub" and ?w = "sub_world sub"
  from executeJob_reports_shape [of ?out ?job ?w] obtain k where k:
    "notified (snd (executeJob ?out ?job ?w))
       = notified ?w @ take k (plan (projectId ?job))
         @ (case fst (executeJob ?out ?job ?w) of
              Inl e \<Rightarrow> [report (projectId ?job) error 0 e (Some e)] | Inr x \<Rightarrow> [])"
    "case fst (executeJob ?out ?job ?w) of
       Inl e \<Rightarrow> k < 7 | Inr x \<Rightarrow> k = 7 \<and> x = projectId ?job"
    by blast
  show ?thesis
  proof (cases "fst (executeJob ?out ?job ?w)")
    case (Inl e)
    with k(1) show ?thesis by (simp add: job_reports_def report_def)
  next
    case (Inr x)
    with k show ?thesis by (simp add: job_reports_def plan_def report_def)
  qed
qed

lemma events_range_empty [simp]: "events_range i i subs = []"
  by (simp add: events_range_def)

lemma events_range_Suc:
  "i \<le> j \<Longrightarrow> events_range i (Suc j) subs
     = events_range i j subs @ map (Pair j) (job_reports (subs ! j))"
  by (simp add: events_range_def)

lemma events_range_append:
  "j \<le> length subs \<Longrightarrow> events_range i j (subs @ ys) = events_range i j subs"
proof -
  assume "j \<le> length subs"
  then have "map (\<lambda>t. map (Pair t) (job_reports ((subs @ ys) ! t))) [i..<j]
             = map (\<lambda>t. map (Pair t) (job_reports (subs ! t))) [i..<j]"
    by (intro map_cong) (auto simp: nth_append)
  then show ?thesis unfolding events_range_def by (rule arg_cong)
qed

lemma events_range_split:
  "i \<le> a \<Longrightarrow> a < j \<Longrightarrow>
   events_range i j subs
   = events_range i a subs @ map (Pair a) (job_reports (subs ! a)) @ events_range (Suc a) j subs"
proof -
  assume "i \<le> a" "a < j"
  then have "[i..<j] = [i..<a] @ a # [Suc a..<j]"
    using upt_add_eq_append [of i a "j - a"] upt_conv_Cons [of a j] by simp
  then show ?thesis by (simp add: events_range_def)
qed

lemma events_range_tickets:
  "e \<in> set (events_range i j subs) \<Longrightarrow> i \<le> fst e \<and> fst e < j"
  by (auto simp: events_range_def)


lemma queue_head:
  assumes "map (\<lambda>t. (t, subs ! t)) [k..<n] = q # rest"
  shows "k < n \<and> q = (k, subs ! k) \<and> rest = map (\<lambda>t. (t, subs ! t)) [Suc k..<n]"
proof (cases "k < n")
  case True
  then have "[k..<n] = k # [Suc k..<n]" by (rule upt_conv_Cons)
  with assms True show ?thesis by simp
next
  case False
  with assms show ?thesis by simp
qed

lemma between_idleI:
  assumes "running s = []" "finished s \<le> length (submitted s)"
    "jobQueue s = map (\<lambda>t. (t, submitted s ! t)) [finished s..<length (submitted s)]"
    "\<not> isProcessingQueue s" "activeKeys s = []"
    "callback_log s = events_range 0 (finished s) (submitted s)"
  shows "between_turns s"
  using assms by (simp add: between_turns_def)

lemma between_idleD:
  assumes "between_turns s" "running s = []"
  shows "finished s \<le> length (submitted s)"
    "jobQueue s = map (\<lambda>t. (t, submitted s ! t)) [finished s..<length (submitted s)]"
    "\<not> isProcessingQueue s" "activeKeys s = []"
    "callback_log s = events_range 0 (finished s) (submitted s)"
  using assms by (simp_all add: between_turns_def)

lemma between_busyI:
  assumes "running s = [e]" "finished s < length (submitted s)"
    "jobQueue s = map (\<lambda>t. (t, submitted s ! t)) [Suc (finished s)..<length (submitted s)]"
    "isProcessingQueue s" "exec_ticket e = finished s" "exec_sub e = submitted s ! finished s"
    "job_reports (exec_sub e) = em @ pending e"
    "callback_log s = events_range 0 (finished s) (submitted s) @ map (Pair (finished s)) em"
    "exec_phase e = Executing \<Longrightarrow> activeKeys s = [projectId (sub_job (exec_sub e))]"
    "exec_phase e = Settled \<Longrightarrow> activeKeys s = [] \<and> pending e = []"
  shows "between_turns s"
proof -
  have "\<exists>em. job_reports (exec_sub e) = em @ pending e
        \<and> callback_log s = events_range 0 (finished s) (submitted s) @ map (Pair (finished s)) em"
    using assms(7,8) by blast
  moreover have "case exec_phase e of
                   Executing \<Rightarrow> activeKeys s = [projectId (sub_job (exec_sub e))]
                 | Settled \<Rightarrow> activeKeys s = [] \<and> pending e = []"
    using assms(9,10) by (cases "exec_phase e") simp_all
  ultimately show ?thesis
    using assms(1-6) unfolding between_turns_def by simp
qed

lemma between_busyD:
  assumes "between_turns s" "running s = [e]"
  obtains (busy) em where "finished s < length (submitted s)"
    "jobQueue s = map (\<lambda>t. (t, submitted s ! t)) [Suc (finished s)..<length (submitted s)]"
    "isProcessingQueue s" "exec_ticket e = finished s" "exec_sub e = submitted s ! finished s"
    "job_reports (exec_sub e) = em @ pending e"
    "callback_log s = events_range 0 (finished s) (submitted s) @ map (Pair (finished s)) em"
    "exec_phase e = Executing \<Longrightarrow> activeKeys s = [projectId (sub_job (exec_sub e))]"
    "exec_phase e = Settled \<Longrightarrow> activeKeys s = [] \<and> pending e = []"
proof -
  from assms have a: "finished s < length (submitted s)"
    "jobQueue s = map (\<lambda>t. (t, submitted s ! t)) [Suc (finished s)..<length (submitted s)]"
    "isProcessingQueue s" "exec_ticket e = finished s" "exec_sub e = submitted s ! finished s"
    by (simp_all add: between_turns_def)
  from assms obtain em where em: "job_reports (exec_sub e) = em @ pending e"
    "callback_log s = events_range 0 (finished s) (submitted s) @ map (Pair (finished s)) em"
    unfolding between_turns_def by auto
  from assms have ph: "case exec_phase e of
                   Executing \<Rightarrow> activeKeys s = [projectId (sub_job (exec_sub e))]
                 | Settled \<Rightarrow> activeKeys s = [] \<and> pending e = []"
    by (simp add: between_turns_def)
  have p1: "exec_phase e = Executing \<Longrightarrow> activeKeys s = [projectId (sub_job (exec_sub e))]"
    using ph by simp
  have p2: "exec_phase e = Settled \<Longrightarrow> activeKeys s = [] \<and> pending e = []"
    using ph by simp
  from that [OF a em p1 p2] show thesis .
qed

lemma only_one:
  assumes "between_turns s" "running s = us @ e # vs"
  shows "us = [] \<and> vs = []"
  using assms by (cases us) (simp_all add: between_turns_def)

lemma between_processQueue:
  assumes "between_turns s"
  shows "between_turns (processQueue s)"
proof (cases "running s")
  case (Cons e es)
  with assms have "isProcessingQueue s" by (simp add: between_turns_def)
  then show ?thesis using assms by (simp add: processQueue_def)
next
  case Nil
  note idle = between_idleD [OF assms Nil]
  show ?thesis
  proof (cases "jobQueue s")
    case Nil
    then have "processQueue s = s" by (simp add: processQueue_def)
    then show ?thesis using assms by simp
  next
    case (Cons qj rest)
    from queue_head [OF Cons [unfolded idle(2)]]
    have h: "finished s < length (submitted s)" "qj = (finished s, submitted s ! finished s)"
      "rest = map (\<lambda>t. (t, submitted s ! t)) [Suc (finished s)..<length (submitted s)]"
      by simp_all
    let ?e = "\<lparr> exec_ticket = finished s, exec_sub = submitted s ! finished s,
                pending = job_reports (submitted s ! finished s), exec_phase = Executing \<rparr>"
    have p: "processQueue s
        = s\<lparr> jobQueue := rest, isProcessingQueue := True,
             activeKeys := [projectId (sub_job (submitted s ! finished s))],
             running := [?e] \<rparr>"
      using idle(3,4) Cons \<open>running s = []\<close> h(2)
      by (simp add: processQueue_def MAX_CONCURRENT_JOBS_def map_set_key_def)
    show ?thesis
      unfolding p
      by (rule between_busyI [where e = ?e and em = "[]"]) (simp_all add: h idle(5))
  qed
qed

lemma between_push:
  assumes "between_turns s"
  shows "between_turns (s\<lparr> jobQueue := jobQueue s @ [(length (submitted s), sub)],
                           submitted := submitted s @ [sub] \<rparr>)"
proof -
  let ?n = "length (submitted s)"
  let ?s = "s\<lparr> jobQueue := jobQueue s @ [(?n, sub)], submitted := submitted s @ [sub] \<rparr>"
  have nth: "\<And>k. k \<le> ?n \<Longrightarrow> map (\<lambda>t. (t, submitted s ! t)) [k..<?n] @ [(?n, sub)]
        = map (\<lambda>t. (t, (submitted s @ [sub]) ! t)) [k..<Suc ?n]"
  proof -
    fix k assume k: "k \<le> ?n"
    have "map (\<lambda>t. (t, (submitted s @ [sub]) ! t)) [k..<?n]
          = map (\<lambda>t. (t, submitted s ! t)) [k..<?n]"
      by (intro map_cong) (auto simp: nth_append)
    with k show "map (\<lambda>t. (t, submitted s ! t)) [k..<?n] @ [(?n, sub)]
        = map (\<lambda>t. (t, (submitted s @ [sub]) ! t)) [k..<Suc ?n]"
      by simp
  qed
  have ev: "finished s \<le> ?n \<Longrightarrow> events_range 0 (finished s) (submitted s @ [sub])
            = events_range 0 (finished s) (submitted s)"
    by (rule events_range_append)
  show ?thesis
  proof (cases "running s")
    case Nil
    note idle = between_idleD [OF assms Nil]
    show ?thesis
      by (rule between_idleI) (use Nil idle in \<open>simp_all add: nth ev\<close>)
  next
    case (Cons e es)
    from assms Cons have r: "running s = [e]" by (simp add: between_turns_def)
    from between_busyD [OF assms r] obtain em where b: "finished s < length (submitted s)"
      "jobQueue s = map (\<lambda>t. (t, submitted s ! t)) [Suc (finished s)..<length (submitted s)]"
      "isProcessingQueue s" "exec_ticket e = finished s" "exec_sub e = submitted s ! finished s"
      "job_reports (exec_sub e) = em @ pending e"
      "callback_log s = events_range 0 (finished s) (submitted s) @ map (Pair (finished s)) em"
      "exec_phase e = Executing \<Longrightarrow> activeKeys s = [projectId (sub_job (exec_sub e))]"
      "exec_phase e = Settled \<Longrightarrow> activeKeys s = [] \<and> pending e = []"
      by blast
    have n: "(submitted s @ [sub]) ! finished s = submitted s ! finished s"
      using b(1) by (simp add: nth_append)
    show ?thesis
      by (rule between_busyI [where e = e and em = em])
         (use b r in \<open>simp_all add: nth ev n\<close>)
  qed
qed

lemma between_step:
  assumes "between_turns s" and "proc_step s s'"
  shows "between_turns s'"
  using assms(2)
proof cases
  case (submit sub)
  then show ?thesis
    using between_processQueue [OF between_push [OF assms(1)]] by (simp add: processVideo_def)
next
  case (report us e vs x xs)
  from only_one [OF assms(1) report(2)] report(2) have r: "running s = [e]" by simp
  from between_busyD [OF assms(1) r] obtain em where b: "finished s < length (submitted s)"
    "jobQueue s = map (\<lambda>t. (t, submitted s ! t)) [Suc (finished s)..<length (submitted s)]"
    "isProcessingQueue s" "exec_ticket e = finished s" "exec_sub e = submitted s ! finished s"
    "job_reports (exec_sub e) = em @ pending e"
    "callback_log s = events_range 0 (finished s) (submitted s) @ map (Pair (finished s)) em"
    "exec_phase e = Executing \<Longrightarrow> activeKeys s = [projectId (sub_job (exec_sub e))]"
    "exec_phase e = Settled \<Longrightarrow> activeKeys s = [] \<and> pending e = []"
    by blast
  from only_one [OF assms(1) report(2)] have s': "s' = s\<lparr> running := [e\<lparr>pending := xs\<rparr>],
      callback_log := callback_log s @ [(exec_ticket e, x)] \<rparr>"
    using report(1) by simp
  show ?thesis
    unfolding s'
    by (rule between_busyI [where e = "e\<lparr>pending := xs\<rparr>" and em = "em @ [x]"])
       (use b report in simp_all)
next
  case (settle us e vs)
  from only_one [OF assms(1) settle(2)] settle(2) have r: "running s = [e]" by simp
  from between_busyD [OF assms(1) r] obtain em where b: "finished s < length (submitted s)"
    "jobQueue s = map (\<lambda>t. (t, submitted s ! t)) [Suc (finished s)..<length (submitted s)]"
    "isProcessingQueue s" "exec_ticket e = finished s" "exec_sub e = submitted s ! finished s"
    "job_reports (exec_sub e) = em @ pending e"
    "callback_log s = events_range 0 (finished s) (submitted s) @ map (Pair (finished s)) em"
    "exec_phase e = Executing \<Longrightarrow> activeKeys s = [projectId (sub_job (exec_sub e))]"
    "exec_phase e = Settled \<Longrightarrow> activeKeys s = [] \<and> pending e = []"
    by blast
  from only_one [OF assms(1) settle(2)] have s': "s' = s\<lparr> running := [e\<lparr>exec_phase := Settled\<rparr>],
      activeKeys := removeAll (projectId (sub_job (exec_sub e))) (activeKeys s) \<rparr>"
    using settle(1) by simp
  show ?thesis
    unfolding s'
    by (rule between_busyI [where e = "e\<lparr>exec_phase := Settled\<rparr>" and em = em])
       (use b settle in simp_all)
next
  case (worker_finally us e vs)
  from only_one [OF assms(1) worker_finally(2)] worker_finally(2) have r: "running s = [e]"
    by simp
  from between_busyD [OF assms(1) r] obtain em where b: "finished s < length (submitted s)"
    "jobQueue s = map (\<lambda>t. (t, submitted s ! t)) [Suc (finished s)..<length (submitted s)]"
    "isProcessingQueue s" "exec_ticket e = finished s" "exec_sub e = submitted s ! finished s"
    "job_reports (exec_sub e) = em @ pending e"
    "callback_log s = events_range 0 (finished s) (submitted s) @ map (Pair (finished s)) em"
    "exec_phase e = Executing \<Longrightarrow> activeKeys s = [projectId (sub_job (exec_sub e))]"
    "exec_phase e = Settled \<Longrightarrow> activeKeys s = [] \<and> pending e = []"
    by blast
  from only_one [OF assms(1) worker_finally(2)] have s': "s' = s\<lparr> running := [],
      isProcessingQueue := False,
      immediates := (if jobQueue s \<noteq> [] then Suc (immediates s) else immediates s),
      finished := Suc (finished s) \<rparr>"
    using worker_finally(1) by simp
  from b worker_finally(3) have em: "job_reports (submitted s ! finished s) = em"
    "activeKeys s = []" by simp_all
  show ?thesis
    unfolding s'
    by (rule between_idleI) (use b em in \<open>simp_all add: events_range_Suc\<close>)
next
  case (immediate n)
  have "between_turns (s\<lparr>immediates := n\<rparr>)"
  proof (cases "running s")
    case Nil
    note idle = between_idleD [OF assms(1) Nil]
    show ?thesis by (rule between_idleI) (use Nil idle in simp_all)
  next
    case (Cons e es)
    from assms(1) Cons have r: "running s = [e]" by (simp add: between_turns_def)
    from between_busyD [OF assms(1) r] obtain em where b: "finished s < length (submitted s)"
      "jobQueue s = map (\<lambda>t. (t, submitted s ! t)) [Suc (finished s)..<length (submitted s)]"
      "isProcessingQueue s" "exec_ticket e = finished s" "exec_sub e = submitted s ! finished s"
      "job_reports (exec_sub e) = em @ pending e"
      "callback_log s = events_range 0 (finished s) (submitted s) @ map (Pair (finished s)) em"
      "exec_phase e = Executing \<Longrightarrow> activeKeys s = [projectId (sub_job (exec_sub e))]"
      "exec_phase e = Settled \<Longrightarrow> activeKeys s = [] \<and> pending e = []"
      by blast
    show ?thesis
      by (rule between_busyI [where e = e and em = em]) (use b r in simp_all)
  qed
  then show ?thesis
    unfolding immediate by (rule between_processQueue)
qed

lemma reachable_between: "reachable s \<Longrightarrow> between_turns s"
proof (induction rule: reachable.induct)
  case start
  show ?case by (simp add: between_turns_def processor0_def)
next
  case (turn s s')
  from turn.IH turn.hyps(2) show ?case by (rule between_step)
qed


lemma reachable_scheduled:
  assumes "reachable s"
  shows "jobQueue s \<noteq> [] \<longrightarrow> running s \<noteq> [] \<or> 0 < immediates s"
  using assms
proof (induction rule: reachable.induct)
  case start
  show ?case by (simp add: processor0_def)
next
  case (turn s s')
  from turn.hyps(1) have inv: "between_turns s" by (rule reachable_between)
  from turn.hyps(2) show ?case
  proof cases
    case (submit sub)
    let ?s = "s\<lparr> jobQueue := jobQueue s @ [(length (submitted s), sub)],
                   submitted := submitted s @ [sub] \<rparr>"
    show ?thesis
    proof (cases "running s")
      case Nil
      note idle = between_idleD [OF inv Nil]
      have "running (processQueue ?s) \<noteq> []"
        using idle(3,4) by (simp add: processQueue_def MAX_CONCURRENT_JOBS_def split: list.splits)
      then show ?thesis by (simp add: submit processVideo_def)
    next
      case (Cons e es)
      with inv have "isProcessingQueue s" by (simp add: between_turns_def)
      then have "processQueue ?s = ?s" by (simp add: processQueue_def)
      then show ?thesis using Cons by (simp add: submit processVideo_def)
    qed
  next
    case (report us e vs x xs)
    then show ?thesis by simp
  next
    case (settle us e vs)
    then show ?thesis by simp
  next
    case (worker_finally us e vs)
    then show ?thesis by simp
  next
    case (immediate n)
    let ?s = "s\<lparr>immediates := n\<rparr>"
    show ?thesis
    proof (cases "running s")
      case Nil
      note idle = between_idleD [OF inv Nil]
      have "jobQueue s \<noteq> [] \<Longrightarrow> running (processQueue ?s) \<noteq> []"
        using idle(3,4) by (simp add: processQueue_def MAX_CONCURRENT_JOBS_def split: list.splits)
      moreover have "jobQueue s = [] \<Longrightarrow> jobQueue (processQueue ?s) = []"
        by (simp add: processQueue_def)
      ultimately show ?thesis unfolding immediate by blast
    next
      case (Cons e es)
      with inv have "isProcessingQueue s" by (simp add: between_turns_def)
      then have "processQueue ?s = ?s" by (simp add: processQueue_def)
      then show ?thesis using Cons by (simp add: immediate)
    qed
  qed
qed

lemma log_shape:
  assumes "between_turns s"
  shows "\<exists>n. callback_log s
           = events_range 0 (finished s) (submitted s)
             @ map (Pair (finished s)) (take n (job_reports (submitted s ! finished s)))
         \<and> (running s = [] \<longrightarrow> n = 0)"
proof (cases "running s")
  case Nil
  note idle = between_idleD [OF assms Nil]
  show ?thesis by (rule exI [of _ 0]) (simp add: idle(5) Nil)
next
  case (Cons e es)
  from assms Cons have r: "running s = [e]" by (simp add: between_turns_def)
  from between_busyD [OF assms r] obtain em where b:
    "exec_sub e = submitted s ! finished s"
    "job_reports (exec_sub e) = em @ pending e"
    "callback_log s = events_range 0 (finished s) (submitted s) @ map (Pair (finished s)) em"
    by blast
  from b(1,2) have "take (length em) (job_reports (submitted s ! finished s)) = em" by simp
  with b(3) r show ?thesis by (intro exI [of _ "length em"]) simp
qed

lemma one_after_the_other:
  assumes log: "callback_log s
           = events_range 0 (finished s) (submitted s) @ map (Pair (finished s)) em"
    and ab: "a < b" and b: "(b, x) \<in> set (callback_log s)"
  shows "\<exists>pre post. callback_log s
             = pre @ map (Pair a) (job_reports (submitted s ! a)) @ post
           \<and> (\<forall>e\<in>set pre. fst e < a) \<and> (\<forall>e\<in>set post. a < fst e)"
proof -
  have "b \<le> finished s"
    using b events_range_tickets [of "(b, x)" 0 "finished s" "submitted s"]
    unfolding log by auto
  with ab have a: "a < finished s" by simp
  let ?pre = "events_range 0 a (submitted s)"
  let ?post = "events_range (Suc a) (finished s) (submitted s) @ map (Pair (finished s)) em"
  have "callback_log s = ?pre @ map (Pair a) (job_reports (submitted s ! a)) @ ?post"
    unfolding log using events_range_split [of 0 a "finished s" "submitted s"] a by simp
  moreover have "\<forall>e\<in>set ?pre. fst e < a"
    using events_range_tickets [of _ 0 a "submitted s"] by blast
  moreover have "\<forall>e\<in>set ?post. a < fst e"
  proof
    fix e assume "e \<in> set ?post"
    then consider "e \<in> set (events_range (Suc a) (finished s) (submitted s))"
      | "e \<in> set (map (Pair (finished s)) em)" by auto
    then show "a < fst e"
    proof cases
      case 1
      from events_range_tickets [OF 1] show ?thesis by simp
    next
      case 2
      with a show ?thesis by auto
    qed
  qed
  ultimately show ?thesis by blast
qed

text \<open>
  Claim C3. In every state the processor can reach: at most one call of \<open>executeJob\<close> is
  in flight, and \<open>activeJobs\<close> has at most one key; the jobs that wait are those submitted
  and not yet started, in the order of their submission, and the job in flight is the
  first that has not finished; the calls made so far to the progress callbacks are the
  reports of the finished jobs, each job's reports in one block and the blocks in the
  order of submission, followed by the reports that the job in flight has made. So for
  a job \<open>a\<close> submitted before a job \<open>b\<close>: once a callback of \<open>b\<close> has been called, the reports
  of \<open>a\<close> stand in the log as one block, with only earlier jobs before it and only later
  jobs after it, and the last report of \<open>a\<close> is of stage complete or error. And as long as
  jobs wait, a job is in flight or a call of \<open>processQueue\<close> is scheduled.
\<close>

theorem single_worker_fifo:
  assumes "reachable s"
  shows "length (running s) \<le> MAX_CONCURRENT_JOBS
    \<and> length (activeKeys s) \<le> MAX_CONCURRENT_JOBS
    \<and> map fst (jobQueue s) = [finished s + length (running s)..<length (submitted s)]
    \<and> (\<forall>e\<in>set (running s). exec_ticket e = finished s)
    \<and> (\<exists>n. callback_log s
             = events_range 0 (finished s) (submitted s)
               @ map (Pair (finished s)) (take n (job_reports (submitted s ! finished s)))
           \<and> (running s = [] \<longrightarrow> n = 0))
    \<and> (\<forall>a b x. a < b \<and> (b, x) \<in> set (callback_log s) \<longrightarrow>
          (\<exists>pre post. callback_log s
               = pre @ map (Pair a) (job_reports (submitted s ! a)) @ post
             \<and> (\<forall>e\<in>set pre. fst e < a) \<and> (\<forall>e\<in>set post. a < fst e))
          \<and> job_reports (submitted s ! a) \<noteq> []
          \<and> (stage (last (job_reports (submitted s ! a))) = complete
              \<or> stage (last (job_reports (submitted s ! a))) = error))
    \<and> (jobQueue s \<noteq> [] \<longrightarrow> running s \<noteq> [] \<or> 0 < immediates s)"
proof -
  from assms have inv: "between_turns s" by (rule reachable_between)
  have A: "length (running s) \<le> MAX_CONCURRENT_JOBS"
    using inv by (cases "running s") (simp_all add: between_turns_def MAX_CONCURRENT_JOBS_def)
  have B: "length (activeKeys s) \<le> MAX_CONCURRENT_JOBS"
  proof (cases "running s")
    case Nil
    from between_idleD(4) [OF inv Nil] show ?thesis by simp
  next
    case (Cons e es)
    from inv Cons have r: "running s = [e]" by (simp add: between_turns_def)
    from between_busyD [OF inv r] obtain em where
      "exec_phase e = Executing \<Longrightarrow> activeKeys s = [projectId (sub_job (exec_sub e))]"
      "exec_phase e = Settled \<Longrightarrow> activeKeys s = [] \<and> pending e = []"
      by blast
    then show ?thesis by (cases "exec_phase e") (simp_all add: MAX_CONCURRENT_JOBS_def)
  qed
  have C: "map fst (jobQueue s) = [finished s + length (running s)..<length (submitted s)]"
  proof -
    from inv have "jobQueue s = map (\<lambda>t. (t, submitted s ! t))
                       [finished s + length (running s)..<length (submitted s)]"
      by (simp add: between_turns_def)
    then have "map fst (jobQueue s)
        = map (\<lambda>t. t) [finished s + length (running s)..<length (submitted s)]"
      by (simp add: comp_def)
    then show ?thesis by simp
  qed
  have D: "\<forall>e\<in>set (running s). exec_ticket e = finished s"
    using inv by (cases "running s") (simp_all add: between_turns_def)
  have E: "\<exists>n. callback_log s
             = events_range 0 (finished s) (submitted s)
               @ map (Pair (finished s)) (take n (job_reports (submitted s ! finished s)))
           \<and> (running s = [] \<longrightarrow> n = 0)"
    using inv by (rule log_shape)
  have F: "\<forall>a b x. a < b \<and> (b, x) \<in> set (callback_log s) \<longrightarrow>
          (\<exists>pre post. callback_log s
               = pre @ map (Pair a) (job_reports (submitted s ! a)) @ post
             \<and> (\<forall>e\<in>set pre. fst e < a) \<and> (\<forall>e\<in>set post. a < fst e))
          \<and> job_reports (submitted s ! a) \<noteq> []
          \<and> (stage (last (job_reports (submitted s ! a))) = complete
              \<or> stage (last (job_reports (submitted s ! a))) = error)"
  proof (intro allI impI, elim conjE)
    fix a b x assume ab: "a < b" and bx: "(b, x) \<in> set (callback_log s)"
    from E obtain n where n: "callback_log s
             = events_range 0 (finished s) (submitted s)
               @ map (Pair (finished s)) (take n (job_reports (submitted s ! finished s)))"
      by blast
    from one_after_the_other [OF n ab bx] job_reports_terminal [of "submitted s ! a"]
    show "(\<exists>pre post. callback_log s
               = pre @ map (Pair a) (job_reports (submitted s ! a)) @ post
             \<and> (\<forall>e\<in>set pre. fst e < a) \<and> (\<forall>e\<in>set post. a < fst e))
          \<and> job_reports (submitted s ! a) \<noteq> []
          \<and> (stage (last (job_reports (submitted s ! a))) = complete
              \<or> stage (last (job_reports (submitted s ! a))) = error)"
      by (intro conjI) (assumption, simp_all)
  qed
  have G: "jobQueue s \<noteq> [] \<longrightarrow> running s \<noteq> [] \<or> 0 < immediates s"
    using assms by (rule reachable_scheduled)
  show ?thesis
    by (intro conjI A B C D E F G)
qed

lemma job_reports_example: "job_reports example_submission = plan (js ''p1'')"
proof -
  let ?w0 = "world0\<lparr>activeJobs := insert (projectId example_job) (activeJobs world0)\<rparr>"
  have "notified (snd (executeJob (all_ok 3) example_job world0))
        = notified (snd (produce (all_ok 3) example_job ?w0)) @ drop 5 (plan (projectId example_job))"
    by (rule executeJob_run(2) [OF produce_all_ok_3]) simp_all
  moreover have "notified (snd (produce (all_ok 3) example_job ?w0))
        = notified ?w0 @ take 5 (plan (projectId example_job))"
    by (rule produce_run(4) [OF tts_all_ok]) (simp_all add: measured_numeral target_numeral)
  moreover have "notified ?w0 = []" by (simp add: world0_def)
  moreover have "projectId example_job = js ''p1''" by (simp add: example_job_def)
  ultimately show ?thesis
    by (simp add: job_reports_def example_submission_def)
qed

lemma reachable_reports:
  assumes "reachable s" "running s = [e]" "exec_phase e = Executing"
  shows "reachable (s\<lparr> running := [e\<lparr>pending := drop n (pending e)\<rparr>],
                      callback_log := callback_log s
                                      @ map (Pair (exec_ticket e)) (take n (pending e)) \<rparr>)"
proof (induction n)
  case 0
  have "s\<lparr> running := [e\<lparr>pending := drop 0 (pending e)\<rparr>],
           callback_log := callback_log s @ map (Pair (exec_ticket e)) (take 0 (pending e)) \<rparr> = s"
    using assms(2) by simp
  with assms(1) show ?case by simp
next
  case (Suc n)
  let ?e = "e\<lparr>pending := drop n (pending e)\<rparr>"
  let ?s = "s\<lparr> running := [?e],
               callback_log := callback_log s @ map (Pair (exec_ticket e)) (take n (pending e)) \<rparr>"
  show ?case
  proof (cases "n < length (pending e)")
    case False
    then have "drop (Suc n) (pending e) = drop n (pending e)"
      "take (Suc n) (pending e) = take n (pending e)" by simp_all
    with Suc show ?thesis by simp
  next
    case True
    then have d: "drop n (pending e) = pending e ! n # drop (Suc n) (pending e)"
      by (simp add: Cons_nth_drop_Suc)
    have "proc_step ?s (?s\<lparr> running := [] @ ?e\<lparr>pending := drop (Suc n) (pending e)\<rparr> # [],
                callback_log := callback_log ?s @ [(exec_ticket ?e, pending e ! n)] \<rparr>)"
      by (rule proc_step.report [where us = "[]" and vs = "[]" and e = ?e])
         (simp_all add: assms(3) d)
    with Suc have "reachable (?s\<lparr> running := [] @ ?e\<lparr>pending := drop (Suc n) (pending e)\<rparr> # [],
                callback_log := callback_log ?s @ [(exec_ticket ?e, pending e ! n)] \<rparr>)"
      by (rule reachable.turn)
    moreover have "?s\<lparr> running := [] @ ?e\<lparr>pending := drop (Suc n) (pending e)\<rparr> # [],
                callback_log := callback_log ?s @ [(exec_ticket ?e, pending e ! n)] \<rparr>
        = s\<lparr> running := [e\<lparr>pending := drop (Suc n) (pending e)\<rparr>],
              callback_log := callback_log s
                              @ map (Pair (exec_ticket e)) (take (Suc n) (pending e)) \<rparr>"
      using True by (simp add: take_Suc_conv_app_nth)
    ultimately show ?thesis by simp
  qed
qed

lemma reachable_two_jobs: "reachable two_jobs_state"
proof -
  let ?sub = "example_submission"
  let ?p = "plan (js ''p1'')"
  let ?e0 = "\<lparr> exec_ticket = 0, exec_sub = ?sub, pending = ?p, exec_phase = Executing \<rparr>"
  let ?s2 = "\<lparr> jobQueue = [(1, ?sub)], isProcessingQueue = True, activeKeys = [js ''p1''],
       running = [?e0], immediates = 0, callback_log = [],
       submitted = [?sub, ?sub], finished = 0 \<rparr>"
  have pid: "projectId (sub_job ?sub) = js ''p1''"
    by (simp add: example_submission_def example_job_def)
  have s1: "reachable (processVideo ?sub processor0)"
    by (rule reachable.turn [OF reachable.start proc_step.submit])
  have "reachable (processVideo ?sub (processVideo ?sub processor0))"
    by (rule reachable.turn [OF s1 proc_step.submit])
  moreover have "processVideo ?sub (processVideo ?sub processor0) = ?s2"
    by (simp add: processVideo_def processQueue_def processor0_def MAX_CONCURRENT_JOBS_def
        map_set_key_def job_reports_example pid)
  ultimately have s2: "reachable ?s2" by simp
  let ?e0' = "\<lparr> exec_ticket = 0, exec_sub = ?sub, pending = [], exec_phase = Executing \<rparr>"
  let ?s3 = "?s2\<lparr> running := [?e0'], callback_log := map (Pair 0) ?p \<rparr>"
  have s3: "reachable ?s3"
    using reachable_reports [OF s2, of ?e0 "length ?p"] by simp
  let ?s4 = "?s3\<lparr> running := [?e0'\<lparr>exec_phase := Settled\<rparr>], activeKeys := [] \<rparr>"
  have "proc_step ?s3 (?s3\<lparr> running := [] @ ?e0'\<lparr>exec_phase := Settled\<rparr> # [],
           activeKeys := removeAll (projectId (sub_job (exec_sub ?e0'))) (activeKeys ?s3) \<rparr>)"
    by (rule proc_step.settle [where us = "[]" and vs = "[]" and e = ?e0']) simp_all
  then have "proc_step ?s3 ?s4" by (simp add: pid)
  with s3 have s4: "reachable ?s4" by (rule reachable.turn)
  let ?s5 = "?s4\<lparr> running := [], isProcessingQueue := False, immediates := 1, finished := 1 \<rparr>"
  have "proc_step ?s4 (?s4\<lparr> running := [] @ [], isProcessingQueue := False,
          immediates := (if jobQueue ?s4 \<noteq> [] then Suc (immediates ?s4) else immediates ?s4),
          finished := Suc (finished ?s4) \<rparr>)"
    by (rule proc_step.worker_finally [where us = "[]" and vs = "[]"
          and e = "?e0'\<lparr>exec_phase := Settled\<rparr>"]) simp_all
  then have "proc_step ?s4 ?s5" by simp
  with s4 have s5: "reachable ?s5" by (rule reachable.turn)
  let ?e1 = "\<lparr> exec_ticket = 1, exec_sub = ?sub, pending = ?p, exec_phase = Executing \<rparr>"
  let ?s6 = "?s5\<lparr> immediates := 0, jobQueue := [], isProcessingQueue := True,
                   activeKeys := [js ''p1''], running := [?e1] \<rparr>"
  have "proc_step ?s5 (processQueue (?s5\<lparr>immediates := 0\<rparr>))"
    by (rule proc_step.immediate) simp
  moreover have "processQueue (?s5\<lparr>immediates := 0\<rparr>) = ?s6"
    by (simp add: processQueue_def MAX_CONCURRENT_JOBS_def map_set_key_def job_reports_example pid)
  ultimately have "proc_step ?s5 ?s6" by simp
  with s5 have s6: "reachable ?s6" by (rule reachable.turn)
  have "reachable (?s6\<lparr> running := [?e1\<lparr>pending := drop 1 (pending ?e1)\<rparr>],
                      callback_log := callback_log ?s6
                                      @ map (Pair (exec_ticket ?e1)) (take 1 (pending ?e1)) \<rparr>)"
    by (rule reachable_reports [OF s6]) simp_all
  moreover have "?s6\<lparr> running := [?e1\<lparr>pending := drop 1 (pending ?e1)\<rparr>],
                      callback_log := callback_log ?s6
                                      @ map (Pair (exec_ticket ?e1)) (take 1 (pending ?e1)) \<rparr>
      = two_jobs_state"
    by (simp add: two_jobs_state_def plan_def)
  ultimately show ?thesis by simp
qed

theorem single_worker_fifo_witness:
  "reachable two_jobs_state
   \<and> length (running two_jobs_state) = 1
   \<and> finished two_jobs_state = 1
   \<and> (1, report (js ''p1'') analyzing 10 ''Extracting key themes and emotional beats'' None)
       \<in> set (callback_log two_jobs_state)
   \<and> (\<exists>pre post. callback_log two_jobs_state
          = pre @ map (Pair 0) (job_reports (submitted two_jobs_state ! 0)) @ post
        \<and> (\<forall>e\<in>set pre. fst e < 0) \<and> (\<forall>e\<in>set post. 0 < fst e))
   \<and> stage (last (job_reports (submitted two_jobs_state ! 0))) = complete"
proof -
  have in_log: "(1, report (js ''p1'') analyzing 10 ''Extracting key themes and emotional beats'' None)
       \<in> set (callback_log two_jobs_state)"
    by (simp add: two_jobs_state_def plan_def)
  have c: "stage (last (job_reports (submitted two_jobs_state ! 0))) = complete"
    by (simp add: two_jobs_state_def job_reports_example plan_def report_def)
  from single_worker_fifo [OF reachable_two_jobs] in_log
  have "(\<exists>pre post. callback_log two_jobs_state
          = pre @ map (Pair 0) (job_reports (submitted two_jobs_state ! 0)) @ post
        \<and> (\<forall>e\<in>set pre. fst e < 0) \<and> (\<forall>e\<in>set post. 0 < fst e))"
    by (elim conjE allE [of _ 0] allE [of _ 1] allE [of _ "report (js ''p1'') analyzing 10 ''Extracting key themes and emotional beats'' None"]) simp
  with reachable_two_jobs in_log c show ?thesis
    by (simp add: two_jobs_state_def)
qed
end
